(* ===== verification/Prelude.thy ===== *)
theory Prelude
  imports Main "HOL-Library.Word"
begin

text \<open>
  Shared vocabulary of the development: the C integer types as words, decimal and
  fixed-point rendering (the \<^verbatim>\<open>%d\<close>, \<^verbatim>\<open>%ld\<close>, \<^verbatim>\<open>%u\<close> conversions of \<^verbatim>\<open>printf\<close>),
  C string helpers, and the generic list lemmas the components use.  The collections
  \<open>io_simps\<close> (how the run-time state changes), \<open>frame\<close> (what an operation leaves alone)
  and \<open>wf_intros\<close> (how invariants are kept) are filled by the component theories.
\<close>

named_theorems io_simps \<open>effects of the run-time primitives\<close>
named_theorems frame \<open>fields an operation leaves unchanged\<close>
named_theorems wf_intros \<open>preservation of the component invariants\<close>

type_synonym uint16 = "16 word"
type_synonym int32 = "32 word"
type_synonym DWORD = "32 word"
type_synonym long64 = "64 word"

section \<open>Decimal rendering\<close>

definition digit_char :: "nat \<Rightarrow> char" where
  "digit_char d = ''0123456789'' ! d"

fun dec_nat :: "nat \<Rightarrow> string" where
  "dec_nat n = (if n < 10 then [digit_char n]
                else dec_nat (n div 10) @ [digit_char (n mod 10)])"

declare dec_nat.simps [simp del]

definition dec_int :: "int \<Rightarrow> string" where
  "dec_int i = (if i < 0 then CHR ''-'' # dec_nat (nat (- i)) else dec_nat (nat i))"

text \<open>\<^verbatim>\<open>%d\<close> and \<^verbatim>\<open>%ld\<close> read their argument as signed, \<^verbatim>\<open>%u\<close> as unsigned.\<close>

definition fmt_d :: "'a::len word \<Rightarrow> string" where
  "fmt_d w = dec_int (sint w)"

definition fmt_u :: "'a::len word \<Rightarrow> string" where
  "fmt_u w = dec_nat (unat w)"

lemma dec_nat_nonempty [simp]: "dec_nat n \<noteq> []"
  by (subst dec_nat.simps) simp

lemma dec_int_nonempty [simp]: "dec_int i \<noteq> []"
  by (simp add: dec_int_def)

lemma digit_char_neq:
  assumes "d < 10"
  shows "digit_char d \<in> set ''0123456789''"
  using assms unfolding digit_char_def by (intro nth_mem) simp

lemma dec_nat_digits: "set (dec_nat n) \<subseteq> set ''0123456789''"
proof (induction n rule: dec_nat.induct)
  case (1 n)
  show ?case
  proof (cases "n < 10")
    case True
    then show ?thesis using digit_char_neq by (subst dec_nat.simps) auto
  next
    case False
    have "digit_char (n mod 10) \<in> set ''0123456789''" by (rule digit_char_neq) simp
    with False 1 show ?thesis by (subst dec_nat.simps) auto
  qed
qed

lemma length_dec_nat: "n < 10 ^ k \<Longrightarrow> 0 < k \<Longrightarrow> length (dec_nat n) \<le> k"
proof (induction n arbitrary: k rule: dec_nat.induct)
  case (1 n)
  show ?case
  proof (cases "n < 10")
    case True
    with 1(3) show ?thesis by (subst dec_nat.simps) simp
  next
    case False
    obtain j where k: "k = Suc j" "0 < j"
      using 1(2,3) False by (cases k; cases "k - 1") auto
    with 1(2) have "n div 10 < 10 ^ j" by (simp add: less_mult_imp_div_less mult.commute)
    with 1(1) False k have "length (dec_nat (n div 10)) \<le> j" by blast
    with False k show ?thesis by (subst dec_nat.simps) simp
  qed
qed

lemma length_dec_int: "\<bar>i\<bar> < 10 ^ k \<Longrightarrow> 0 < k \<Longrightarrow> length (dec_int i) \<le> Suc k"
  unfolding dec_int_def
  by (auto intro!: length_dec_nat le_SucI simp: nat_less_iff)

section \<open>C strings\<close>

text \<open>
  A C string is the list of its characters without the terminator.  A \<^verbatim>\<open>char\<close> pointer
  that may be \<^verbatim>\<open>NULL\<close> is a \<open>string option\<close>; \<^verbatim>\<open>printf\<close> shows the null pointer as
  \<^verbatim>\<open>(null)\<close>.  A fixed buffer of \<open>n\<close> characters that is read as a string is represented by
  the characters before its first terminator: at most \<open>n\<close>, and exactly \<open>n\<close> when the
  terminator is missing.
\<close>

definition NUL :: char where
  "NUL = CHR 0x00"

definition NL :: char where
  "NL = CHR 0x0A"

definition str_or_null :: "string option \<Rightarrow> string" where
  "str_or_null p = (case p of None \<Rightarrow> ''(null)'' | Some s \<Rightarrow> s)"

definition strncpy_c :: "string \<Rightarrow> nat \<Rightarrow> string" where
  "strncpy_c src n = take n (takeWhile (\<lambda>c. c \<noteq> NUL) src)"

definition yes_no :: "bool \<Rightarrow> string \<Rightarrow> string \<Rightarrow> string" where
  "yes_no b s t = (if b then s else t)"

lemma length_strncpy_c [simp]: "length (strncpy_c src n) \<le> n"
  by (simp add: strncpy_c_def)

section \<open>Lists\<close>

lemma takeWhile_replicate_stop [simp]:
  "takeWhile (\<lambda>x. x \<noteq> a) (xs @ replicate n a) = takeWhile (\<lambda>x. x \<noteq> a) xs"
  by (induction xs) (cases n, auto)

lemma takeWhile_id: "a \<notin> set xs \<Longrightarrow> takeWhile (\<lambda>x. x \<noteq> a) xs = xs"
  by (induction xs) auto

lemma list_update_append_replicate:
  "0 < n \<Longrightarrow> (xs @ replicate n a)[length xs := b] = xs @ b # replicate (n - 1) a"
  by (cases n) (auto simp: list_update_append)

lemma map_list_update_same: "f y = f (xs ! i) \<Longrightarrow> map f (xs[i := y]) = map f xs"
  by (cases "i < length xs") (simp_all add: map_update list_update_same_conv list_update_beyond)

end
