(* ===== verification/Runtime.thy ===== *)
theory Runtime
  imports Prelude
begin

text \<open>
  What the program sees of the world outside \<^verbatim>\<open>src/\<close>: the C library's files and clock, the
  sockets, libmodbus, libmosquitto, bzip2, libconfig and the network side of the OPC UA stack.
  Every such call is recorded in the history \<open>calls\<close> (newest first), and the answer of a call
  is read from the environment \<open>env\<close> as a function of the history including the call itself:
  quantifying over all environments quantifies over all behaviours of those libraries, ones
  that depend on everything that happened before included.

  Undefined behaviour of the C code is a value: the first one is stored in \<open>fault\<close>.  Execution
  is then continued with some value so that the functions are total; nothing is claimed about a
  run after its first fault, and the safety properties state that \<open>fault\<close> stays \<open>None\<close>.
\<close>

section \<open>Faults, files and calls\<close>

datatype fault_kind =
    Null_Deref          \<comment> \<open>a null pointer is dereferenced or called\<close>
  | Buffer_Overflow     \<comment> \<open>a write past the end of a character buffer\<close>
  | Out_Of_Bounds       \<comment> \<open>an array element outside the array\<close>
  | Signed_Overflow     \<comment> \<open>an \<open>int\<close> operation whose result does not fit\<close>
  | Uninitialised       \<comment> \<open>a local variable read before it is written\<close>

datatype FILE = Std_out | On_disk string

datatype stdio_call =
    C_stdout string | C_stderr string | C_syslog string
  | C_fopen string string | C_fprintf string string | C_fflush FILE | C_fclose FILE
  | C_fread string nat | C_malloc nat | C_stat string | C_mkdir string
  | C_bzWriteOpen string | C_bzWrite string | C_bzWriteClose

datatype sys_call =
    C_time | C_strftime string | C_ctime long64 | C_sleep int | C_usleep int
  | C_setitimer int | C_sigaction | C_config_read_file string
  | C_socket | C_inet_pton "string option" | C_connect int "string option" int | C_shutdown int | C_close int

datatype modbus_call =
    C_modbus_new_tcp "string option" int | C_modbus_new_rtu "string option" int char int int
  | C_modbus_connect nat | C_modbus_set_slave nat int | C_modbus_read_registers nat int int
  | C_modbus_close nat | C_modbus_free nat | C_modbus_strerror

datatype mosquitto_call =
    C_mosquitto_lib_init | C_mosquitto_new
  | C_mosquitto_username_pw_set nat string string
  | C_mosquitto_tls_set nat string | C_mosquitto_tls_insecure_set nat
  | C_mosquitto_connect nat string int int | C_mosquitto_loop_start nat
  | C_mosquitto_publish "nat option" "string option" string

text \<open>The four kinds of OPC UA node identifiers, each with its namespace index.\<close>

datatype UA_NodeId =
    NodeId_Numeric uint16 int32 | NodeId_String uint16 string
  | NodeId_Guid uint16 string | NodeId_ByteString uint16 string

datatype ua_call =
    C_UA_Client_new | C_UA_ClientConfig_setDefault nat
  | C_UA_ClientConfig_setDefaultEncryption nat int string string string
  | C_UA_Client_connect nat "string option" | C_UA_Client_Service_read nat int string
  | C_UA_Client_delete nat | C_UA_Variant_new | C_UA_Variant_delete
  | C_UA_BrowseDescription_new | C_UA_Client_Service_browse nat UA_NodeId
  | C_UA_BrowseRequest_clear | C_UA_BrowseResponse_clear

datatype call =
    Stdio stdio_call | Sys sys_call | Modbus modbus_call | Mosq mosquitto_call | Ua ua_call

section \<open>The environment\<close>

text \<open>
  OPC UA values as the client receives them: the payload together with its type tag (the stack
  keeps \<^verbatim>\<open>type->typeName\<close> and \<^verbatim>\<open>data\<close> of a scalar variant consistent).  A \<^verbatim>\<open>UA_String\<close> is the
  structure \<^verbatim>\<open>{size_t length; UA_Byte *data}\<close>: its length, its pointer, and the text pointed to.
  \<open>UA_Other\<close> is a value of any other type, known by its type name only.
\<close>

datatype ua_value =
    UA_Boolean bool | UA_Int16 uint16 | UA_UInt16 uint16 | UA_Int32 int32 | UA_UInt32 int32
  | UA_Double "64 word" | UA_EnumValueType "64 word" | UA_String "64 word" "64 word" string
  | UA_Other string

record UA_DataValue =
  hasValue :: bool
  hasStatus :: bool
  dv_value :: "ua_value option"   \<comment> \<open>\<open>None\<close>: a variant without a type\<close>
  dv_status :: int32

record UA_ReadResponse =
  serviceResult :: int32
  results :: "UA_DataValue list"

text \<open>A reference of a browse result: its node and the two names that are printed.\<close>

record UA_ReferenceDescription =
  ref_nodeId :: UA_NodeId
  browseName :: string
  displayName :: string

record env =
  big_endian :: bool                           \<comment> \<open>byte order of the target\<close>
  rc :: "call list \<Rightarrow> int"                    \<comment> \<open>integer answers; 0 is the null pointer\<close>
  str_r :: "call list \<Rightarrow> string"              \<comment> \<open>answers that are strings\<close>
  time_r :: "call list \<Rightarrow> long64"
  registers_r :: "call list \<Rightarrow> uint16 list"   \<comment> \<open>registers written by \<^verbatim>\<open>modbus_read_registers\<close>\<close>
  ua_read_r :: "call list \<Rightarrow> UA_ReadResponse"
  ua_browse_r :: "call list \<Rightarrow> UA_ReferenceDescription list list"   \<comment> \<open>references of each result\<close>

text \<open>
  The parsed configuration.  Settings are handles; the functions are those of libconfig, with
  \<open>None\<close> for \<^verbatim>\<open>NULL\<close> and for a lookup that does not return \<^verbatim>\<open>CONFIG_TRUE\<close>.
\<close>

type_synonym config_setting_t = nat

record config_t =
  config_lookup :: "string \<Rightarrow> config_setting_t option"
  config_setting_length :: "config_setting_t \<Rightarrow> int"
  config_setting_get_elem :: "config_setting_t \<Rightarrow> int \<Rightarrow> config_setting_t option"
  config_setting_lookup_int :: "config_setting_t \<Rightarrow> string \<Rightarrow> int option"
  config_setting_lookup_string :: "config_setting_t \<Rightarrow> string \<Rightarrow> string option"

section \<open>Run-time state\<close>

record os =
  calls :: "call list"
  fault :: "fault_kind option"
  files :: "string \<rightharpoonup> string"

definition ub :: "fault_kind \<Rightarrow> 'a os_scheme \<Rightarrow> 'a os_scheme" where
  "ub k s = s\<lparr>fault := (case fault s of None \<Rightarrow> Some k | Some k' \<Rightarrow> Some k')\<rparr>"

definition ub_if :: "bool \<Rightarrow> fault_kind \<Rightarrow> 'a os_scheme \<Rightarrow> 'a os_scheme" where
  "ub_if b k s = (if b then ub k s else s)"

text \<open>A call without a result the program looks at, and calls with one.\<close>

definition emit :: "call \<Rightarrow> 'a os_scheme \<Rightarrow> 'a os_scheme" where
  "emit c s = s\<lparr>calls := c # calls s\<rparr>"

definition ext :: "env \<Rightarrow> call \<Rightarrow> 'a os_scheme \<Rightarrow> int \<times> 'a os_scheme" where
  "ext E c s = (rc E (c # calls s), emit c s)"

definition ext_str :: "env \<Rightarrow> call \<Rightarrow> 'a os_scheme \<Rightarrow> string \<times> 'a os_scheme" where
  "ext_str E c s = (str_r E (c # calls s), emit c s)"

text \<open>A \<^verbatim>\<open>printf\<close> of an already formatted text.\<close>

definition printf_c :: "string \<Rightarrow> 'a os_scheme \<Rightarrow> 'a os_scheme" where
  "printf_c t = emit (Stdio (C_stdout t))"

text \<open>A call that allocates: \<open>None\<close> is \<^verbatim>\<open>NULL\<close>, a handle is the number of the call.\<close>

definition ext_new :: "env \<Rightarrow> call \<Rightarrow> 'a os_scheme \<Rightarrow> nat option \<times> 'a os_scheme" where
  "ext_new E c s =
     (if rc E (c # calls s) = 0 then None else Some (length (c # calls s)), emit c s)"

definition time_c :: "env \<Rightarrow> 'a os_scheme \<Rightarrow> long64 \<times> 'a os_scheme" where
  "time_c E s = (time_r E (Sys C_time # calls s), emit (Sys C_time) s)"

text \<open>\<^verbatim>\<open>strftime(buf, max, format, ...)\<close> writes at most \<open>max\<close> bytes, the terminator included.\<close>

definition strftime_c :: "env \<Rightarrow> nat \<Rightarrow> string \<Rightarrow> 'a os_scheme \<Rightarrow> string \<times> 'a os_scheme" where
  "strftime_c E lim format s =
     (take (lim - 1) (str_r E (Sys (C_strftime format) # calls s)), emit (Sys (C_strftime format)) s)"

text \<open>
  libconfig lookups dereference the setting, so a null setting (an element that does not
  exist) is a fault.
\<close>

definition lookup_string :: "config_t \<Rightarrow> config_setting_t option \<Rightarrow> string
    \<Rightarrow> 'a os_scheme \<Rightarrow> string option \<times> 'a os_scheme" where
  "lookup_string cfg p name s = (case p of
      None \<Rightarrow> (None, ub Null_Deref s)
    | Some n \<Rightarrow> (config_setting_lookup_string cfg n name, s))"

definition lookup_int :: "config_t \<Rightarrow> config_setting_t option \<Rightarrow> string
    \<Rightarrow> 'a os_scheme \<Rightarrow> int option \<times> 'a os_scheme" where
  "lookup_int cfg p name s = (case p of
      None \<Rightarrow> (None, ub Null_Deref s)
    | Some n \<Rightarrow> (config_setting_lookup_int cfg n name, s))"

section \<open>Files\<close>

definition content :: "'a os_scheme \<Rightarrow> string \<Rightarrow> string" where
  "content s p = (case files s p of None \<Rightarrow> [] | Some t \<Rightarrow> t)"

text \<open>
  \<^verbatim>\<open>fopen\<close> in the modes the program uses: \<^verbatim>\<open>a\<close> keeps an existing file and creates a missing
  one, \<^verbatim>\<open>w\<close> empties it, \<^verbatim>\<open>r\<close> and \<^verbatim>\<open>rb\<close> need it to exist.  A zero answer is a failure.
\<close>

definition fopen :: "env \<Rightarrow> string \<Rightarrow> string \<Rightarrow> 'a os_scheme \<Rightarrow> FILE option \<times> 'a os_scheme" where
  "fopen E path mode s =
     (let (r, s) = ext E (Stdio (C_fopen path mode)) s in
      if r = 0 then (None, s)
      else if hd mode = CHR ''r'' then
        (if files s path = None then (None, s) else (Some (On_disk path), s))
      else if hd mode = CHR ''w'' then (Some (On_disk path), s\<lparr>files := (files s)(path \<mapsto> [])\<rparr>)
      else (Some (On_disk path), s\<lparr>files := (files s)(path \<mapsto> content s path)\<rparr>))"

text \<open>
  \<^verbatim>\<open>fprintf\<close> of an already formatted text to an open file.  The streams are the only writers
  of their files, so a write goes to the end; a negative answer means nothing was written.
\<close>

definition fprintf :: "env \<Rightarrow> FILE \<Rightarrow> string \<Rightarrow> 'a os_scheme \<Rightarrow> int \<times> 'a os_scheme" where
  "fprintf E f t s = (case f of
      Std_out \<Rightarrow> ext E (Stdio (C_stdout t)) s
    | On_disk p \<Rightarrow>
        (let (r, s) = ext E (Stdio (C_fprintf p t)) s in
         if r < 0 then (r, s) else (r, s\<lparr>files := (files s)(p \<mapsto> content s p @ t)\<rparr>)))"

section \<open>Runs only add calls and never clear a fault\<close>

definition os_le :: "'a os_scheme \<Rightarrow> 'b os_scheme \<Rightarrow> bool" where
  "os_le s t \<longleftrightarrow> (\<exists>cs. calls t = cs @ calls s) \<and> (\<forall>k. fault s = Some k \<longrightarrow> fault t = Some k)"

lemma os_le_refl [simp, intro]: "os_le s s"
  by (simp add: os_le_def)

lemma os_le_trans [trans]: "os_le s t \<Longrightarrow> os_le t u \<Longrightarrow> os_le s u"
  unfolding os_le_def by auto

lemma os_le_no_fault: "os_le s t \<Longrightarrow> fault t = None \<Longrightarrow> fault s = None"
  unfolding os_le_def by (cases "fault s") auto

lemma os_le_fields:
  "calls t = calls t' \<Longrightarrow> fault t = fault t' \<Longrightarrow> os_le s t = os_le s t'"
  by (simp add: os_le_def)

lemma os_le_emit [simp, intro]: "os_le s (emit c s)"
  by (simp add: os_le_def emit_def)

lemma os_le_ub [simp, intro]: "os_le s (ub k s)"
  by (auto simp: os_le_def ub_def)

lemma os_le_ub_if [simp, intro]: "os_le s (ub_if b k s)"
  by (simp add: ub_if_def)

text \<open>
  The contract every operation on the run-time state keeps, stated once: an operation that
  satisfies it may be composed freely, and a fault-free end means a fault-free beginning.
\<close>

locale run_op =
  fixes op :: "'a os_scheme \<Rightarrow> 'a os_scheme"
  assumes grows: "os_le s (op s)"
begin

lemma fault_back: "fault (op s) = None \<Longrightarrow> fault s = None"
  using grows os_le_no_fault by blast

lemma fault_kept: "fault s = Some k \<Longrightarrow> fault (op s) = Some k"
  using grows by (auto simp: os_le_def)

lemma calls_suffix: "\<exists>cs. calls (op s) = cs @ calls s"
  using grows by (auto simp: os_le_def)

lemma iterate_grows: "os_le s ((op ^^ n) s)"
  by (induction n) (auto intro: os_le_trans grows)

end

lemma emit_sel [io_simps, simp]:
  "calls (emit c s) = c # calls s" "fault (emit c s) = fault s" "files (emit c s) = files s"
  "os.more (emit c s) = os.more s"
  by (simp_all add: emit_def)

lemma ub_sel [io_simps, simp]:
  "calls (ub k s) = calls s" "files (ub k s) = files s" "os.more (ub k s) = os.more s"
  "fault (ub k s) \<noteq> None"
  by (simp_all add: ub_def split: option.splits)

lemma ub_if_sel [io_simps, simp]:
  "calls (ub_if b k s) = calls s" "files (ub_if b k s) = files s"
  "os.more (ub_if b k s) = os.more s"
  "fault (ub_if b k s) = None \<longleftrightarrow> \<not> b \<and> fault s = None"
  by (simp_all add: ub_if_def)

lemma ub_if_False [simp]: "ub_if False k s = s"
  by (simp add: ub_if_def)

lemma ext_sel [simp]:
  "fst (ext E c s) = rc E (c # calls s)" "snd (ext E c s) = emit c s"
  "snd (ext_str E c s) = emit c s" "snd (ext_new E c s) = emit c s" "snd (time_c E s) = emit (Sys C_time) s"
  "snd (strftime_c E n f s) = emit (Sys (C_strftime f)) s" "length (fst (strftime_c E n f s)) \<le> n - 1"
  by (simp_all add: ext_def ext_str_def ext_new_def time_c_def strftime_c_def)

lemma os_le_emit_trans [simp, intro!]: "os_le s t \<Longrightarrow> os_le s (emit c t)"
  using os_le_trans os_le_emit by blast

lemma os_le_ub_trans [simp, intro!]: "os_le s t \<Longrightarrow> os_le s (ub k t)"
  using os_le_trans os_le_ub by blast

lemma os_le_ub_if_trans [simp, intro!]: "os_le s t \<Longrightarrow> os_le s (ub_if b k t)"
  using os_le_trans os_le_ub_if by blast

lemma os_le_files_update [simp]: "os_le s (t\<lparr>files := f\<rparr>) = os_le s t"
  by (simp add: os_le_def)

lemma os_le_lookup [simp, intro]:
  "os_le s (snd (lookup_string cfg p n s))" "os_le s (snd (lookup_int cfg p n s))"
  by (auto simp: lookup_string_def lookup_int_def split: option.splits)

lemma os_le_fopen [simp, intro]: "os_le s (snd (fopen E p m s))"
  by (auto simp: fopen_def ext_def Let_def)

lemma os_le_fprintf [simp, intro]: "os_le s (snd (fprintf E f t s))"
  by (auto simp: fprintf_def ext_def Let_def split: FILE.splits)

lemma fopen_sel [frame, simp]:
  "fault (snd (fopen E p m s)) = fault s" "calls (snd (fopen E p m s)) = Stdio (C_fopen p m) # calls s"
  by (auto simp: fopen_def ext_def Let_def)

lemma fprintf_fault [frame, simp]: "fault (snd (fprintf E f t s)) = fault s"
  by (auto simp: fprintf_def ext_def Let_def split: FILE.splits)

interpretation emit_op: run_op "emit c" by unfold_locales simp

interpretation ub_op: run_op "ub k" by unfold_locales simp

section \<open>A well-behaved environment\<close>

text \<open>
  An environment in which every call succeeds, used to evaluate the model on concrete inputs.
  Every register reads as 7, every OPC UA value is the \<^verbatim>\<open>Int32\<close> 7, and browsing finds one node.
\<close>

fun quiet_rc :: "call \<Rightarrow> int" where
  "quiet_rc (Stdio (C_fopen p m)) = 1"
| "quiet_rc (Stdio (C_fprintf p t)) = int (length t)"
| "quiet_rc (Stdio (C_malloc n)) = 1"
| "quiet_rc (Stdio (C_fread p n)) = int n"
| "quiet_rc (Sys C_socket) = 3"
| "quiet_rc (Sys (C_inet_pton a)) = 1"
| "quiet_rc (Sys (C_config_read_file f)) = 1"
| "quiet_rc (Modbus (C_modbus_new_tcp a p)) = 1"
| "quiet_rc (Modbus (C_modbus_new_rtu d b p n m)) = 1"
| "quiet_rc (Modbus (C_modbus_read_registers c a n)) = n"
| "quiet_rc (Mosq C_mosquitto_new) = 1"
| "quiet_rc (Ua C_UA_Client_new) = 1"
| "quiet_rc (Ua C_UA_Variant_new) = 1"
| "quiet_rc (Ua C_UA_BrowseDescription_new) = 1"
| "quiet_rc _ = 0"

definition quiet_env :: env where
  "quiet_env = \<lparr>big_endian = False, rc = (\<lambda>h. quiet_rc (hd h)), str_r = (\<lambda>_. ''01.01.20 00:00:00''),
     time_r = (\<lambda>_. 0), registers_r = (\<lambda>_. [7, 0, 0, 0]),
     ua_read_r = (\<lambda>_. \<lparr>serviceResult = 0, results = [\<lparr>hasValue = True, hasStatus = False,
       dv_value = Some (UA_Int32 7), dv_status = 0\<rparr>]\<rparr>),
     ua_browse_r = (\<lambda>_. [[\<lparr>ref_nodeId = NodeId_Numeric 2 2253, browseName = ''Server'', displayName = ''Server''\<rparr>]])\<rparr>"

lemma quiet_env_sel [simp]:
  "rc quiet_env h = quiet_rc (hd h)" "big_endian quiet_env = False" "time_r quiet_env h = 0"
  "registers_r quiet_env h = [7, 0, 0, 0]" "str_r quiet_env h = ''01.01.20 00:00:00''"
  "ua_read_r quiet_env h = \<lparr>serviceResult = 0, results = [\<lparr>hasValue = True, hasStatus = False,
     dv_value = Some (UA_Int32 7), dv_status = 0\<rparr>]\<rparr>"
  "ua_browse_r quiet_env h =
     [[\<lparr>ref_nodeId = NodeId_Numeric 2 2253, browseName = ''Server'', displayName = ''Server''\<rparr>]]"
  by (simp_all add: quiet_env_def)

end
