(* ===== verification/Logger.thy ===== *)
theory Logger
  imports Runtime
begin

text \<open>
  \<^verbatim>\<open>logger.c\<close>: the log level filter, the two output targets, the message buffers of 256
  characters, and the archiving of a log file that has grown past 256 KiB.  The globals of the
  file extend the run-time state (record \<open>io\<close>), because every other component logs.
\<close>

section \<open>State\<close>

datatype log_target = Print_to_syslog | Print_to_file

record logger_t =
  max_log_level :: int
  use_stdout :: bool
  out_file :: "FILE option"
  logger_func :: "log_target option"

record io = os +
  log_global_set :: logger_t
  logFileFullName :: string
  stringCounter :: int

definition LOG_LEVEL_ERROR :: nat where "LOG_LEVEL_ERROR = 0"
definition LOG_LEVEL_WARNING :: nat where "LOG_LEVEL_WARNING = 1"
definition LOG_LEVEL_MESSAGE :: nat where "LOG_LEVEL_MESSAGE = 2"
definition LOG_LEVEL_DEBUG :: nat where "LOG_LEVEL_DEBUG = 3"

definition LOG_FILE_MAX_SIZE :: nat where "LOG_FILE_MAX_SIZE = 256 * 1024"
definition LOG_STRING_MAX_LEN :: nat where "LOG_STRING_MAX_LEN = 1000"
definition LOG_STRING_MAX_NUM :: int where "LOG_STRING_MAX_NUM = 1000"
definition LOG_FILE_NAME_MAX_LEN :: nat where "LOG_FILE_NAME_MAX_LEN = 80"

definition LOG_LEVELS :: "string list" where
  "LOG_LEVELS = [''ERROR'', ''WARNING'', '''', ''DEBUG'']"

definition LOG_MAX_LEVEL_ERROR_WARNING_MESSAGE :: int where
  "LOG_MAX_LEVEL_ERROR_WARNING_MESSAGE = 1"

definition LOG_MAX_LEVEL_ERROR_WARNING_MESSAGE_DEBUG :: int where
  "LOG_MAX_LEVEL_ERROR_WARNING_MESSAGE_DEBUG = 2"

text \<open>The globals before \<^verbatim>\<open>main\<close>: static storage is zero.\<close>

definition io0 :: "(string \<rightharpoonup> string) \<Rightarrow> io" where
  "io0 fs = \<lparr>calls = [], fault = None, files = fs,
     log_global_set = \<lparr>max_log_level = 0, use_stdout = False, out_file = None, logger_func = None\<rparr>,
     logFileFullName = [], stringCounter = 0\<rparr>"

definition set_log :: "(logger_t \<Rightarrow> logger_t) \<Rightarrow> io \<Rightarrow> io" where
  "set_log f s = s\<lparr>log_global_set := f (log_global_set s)\<rparr>"

definition stdout_line :: "string \<Rightarrow> io \<Rightarrow> io" where
  "stdout_line t = emit (Stdio (C_stdout t))"

section \<open>Output targets\<close>

definition filesize :: "FILE \<Rightarrow> io \<Rightarrow> nat" where
  "filesize f s = (case f of Std_out \<Rightarrow> 0 | On_disk p \<Rightarrow> length (content s p))"

definition cleanup_internal :: "io \<Rightarrow> io" where
  "cleanup_internal s = (case out_file (log_global_set s) of
      None \<Rightarrow> s
    | Some f \<Rightarrow>
        set_log (\<lambda>l. l\<lparr>use_stdout := False, out_file := None\<rparr>)
          (if \<not> use_stdout (log_global_set s) then emit (Stdio (C_fclose f)) s else s))"

definition logger_reset_state :: "io \<Rightarrow> io" where
  "logger_reset_state s =
     (let s = set_log (\<lambda>l. l\<lparr>max_log_level := LOG_MAX_LEVEL_ERROR_WARNING_MESSAGE\<rparr>) s;
          s = cleanup_internal s
      in set_log (\<lambda>l. l\<lparr>logger_func := Some Print_to_syslog\<rparr>) s)"

definition print_to_syslog :: "nat \<Rightarrow> string \<Rightarrow> io \<Rightarrow> io" where
  "print_to_syslog level message s =
     (let s = (if level = LOG_LEVEL_MESSAGE then stdout_line (message @ [NL]) s
               else stdout_line (LOG_LEVELS ! level @ '': '' @ message @ [NL]) s)
      in emit (Stdio (C_syslog (''['' @ LOG_LEVELS ! level @ ''] '' @ message @ [NL]))) s)"

definition log_line :: "nat \<Rightarrow> string \<Rightarrow> string \<Rightarrow> string" where
  "log_line level timeBuffer message =
     (if level = LOG_LEVEL_MESSAGE then timeBuffer @ '' '' @ message @ [NL]
      else timeBuffer @ '' ['' @ LOG_LEVELS ! level @ ''] '' @ message @ [NL])"

definition print_to_file :: "env \<Rightarrow> nat \<Rightarrow> string \<Rightarrow> io \<Rightarrow> io" where
  "print_to_file E level message s =
     (let (now, s) = time_c E s;
          (timeBuffer, s) = strftime_c E 26 ''%d.%m.%y %H:%M:%S'' s;
          s = (if level = LOG_LEVEL_MESSAGE then stdout_line (message @ [NL]) s
               else if level = LOG_LEVEL_DEBUG then
                 stdout_line (LOG_LEVELS ! level @ '': '' @ message @ [NL]) s
               else emit (Stdio (C_stderr (LOG_LEVELS ! level @ '': '' @ message @ [NL]))) s)
      in case out_file (log_global_set s) of
           None \<Rightarrow> ub Null_Deref s
         | Some f \<Rightarrow>
             (let (res, s) = fprintf E f (log_line level timeBuffer message) s in
              if res = -1 then
                print_to_syslog LOG_LEVEL_ERROR message
                  (print_to_syslog LOG_LEVEL_ERROR ''Unable to write to log file! Last message:'' s)
              else emit (Stdio (C_fflush f)) s))"

section \<open>Archiving\<close>

text \<open>
  \<^verbatim>\<open>fgets(buf, n + 1, f)\<close> on the unread rest of a file: at most \<open>n\<close> characters, up to and
  including the first newline.
\<close>

fun fgets :: "nat \<Rightarrow> string \<Rightarrow> string \<times> string" where
  "fgets 0 t = ([], t)"
| "fgets (Suc n) [] = ([], [])"
| "fgets (Suc n) (c # t) =
     (if c = NL then ([c], t) else (let (l, r) = fgets n t in (c # l, r)))"

lemma fgets_append: "fst (fgets n t) @ snd (fgets n t) = t"
  by (induction n t rule: fgets.induct) (auto simp: split_beta)

lemma fgets_shrinks: "0 < n \<Longrightarrow> t \<noteq> [] \<Longrightarrow> length (snd (fgets n t)) < length t"
proof -
  assume "0 < n" "t \<noteq> []"
  then have "fst (fgets n t) \<noteq> []"
    by (cases n; cases t) (auto simp: split_beta)
  moreover have "length (fst (fgets n t)) + length (snd (fgets n t)) = length t"
    using arg_cong [OF fgets_append [of n t], of length] by simp
  ultimately show ?thesis by (cases "fst (fgets n t)") auto
qed

definition archive_error :: "string \<Rightarrow> io \<Rightarrow> io" where
  "archive_error m s =
     (let t = NL # ''Fun: logger_archive(), Error: '' @ m
      in stdout_line t (emit (Stdio (C_syslog t)) s))"

text \<open>The copy loop; \<^verbatim>\<open>strlen\<close> of each chunk stops at a zero byte.  \<^verbatim>\<open>BZ_IO_ERROR\<close> is -6.\<close>

function archive_copy :: "env \<Rightarrow> string \<Rightarrow> io \<Rightarrow> bool \<times> io" where
  "archive_copy E t s =
     (if t = [] then (True, s)
      else
        (let (stringBuf, rest) = fgets (LOG_STRING_MAX_LEN - 2) t;
             (bzerror, s) = ext E (Stdio (C_bzWrite (takeWhile (\<lambda>c. c \<noteq> NUL) stringBuf))) s
         in if bzerror = -6 then (False, archive_error ''BZ2_bzWrite error'' s)
            else archive_copy E rest s))"
  by pat_completeness auto
termination
proof (relation "measure (\<lambda>(E, t, s). length t)", goal_cases)
  case 1
  show ?case by simp
next
  case (2 E t s x stringBuf rest y bzerror s')
  have "rest = snd (fgets 998 t)"
    using 2(2,3) by (simp add: LOG_STRING_MAX_LEN_def prod_eq_iff)
  with 2(1) show ?case using fgets_shrinks [of 998 t] by simp
qed

declare archive_copy.simps [simp del]

definition base_name :: "string \<Rightarrow> string" where
  "base_name p = rev (takeWhile (\<lambda>c. c \<noteq> CHR ''/'') (rev p))"

definition dir_part :: "string \<Rightarrow> string" where
  "dir_part p = take (length p - length (base_name p)) p"

text \<open>The directory exists already or is made: a nonzero answer of \<^verbatim>\<open>mkdir\<close> is a failure.\<close>

definition archive_dir :: "env \<Rightarrow> string \<Rightarrow> io \<Rightarrow> bool \<times> io" where
  "archive_dir E d s =
     (let (st, s) = ext E (Stdio (C_stat d)) s in
      if st = -1 then
        (let (mk, s) = ext E (Stdio (C_mkdir d)) s in
         if mk \<noteq> 0 then (False, archive_error (''No permission, folder '' @ d) s) else (True, s))
      else (True, s))"

text \<open>The two streams: the compressed file, then the log file for reading.\<close>

definition archive_open :: "env \<Rightarrow> string \<Rightarrow> io \<Rightarrow> bool \<times> io" where
  "archive_open E zipName s =
     (let (fLogZip, s) = fopen E zipName ''w'' s in
      case fLogZip of
        None \<Rightarrow> (False, archive_error (''Can't open file '' @ zipName) s)
      | Some z \<Rightarrow>
          (let (bzerror, s) = ext E (Stdio (C_bzWriteOpen zipName)) s in
           if bzerror \<noteq> 0 then
             (False, emit (Stdio (C_fclose z))
                (archive_error (''BZ2_bzWriteOpen Can't open file '' @ zipName)
                   (emit (Stdio C_bzWriteClose) s)))
           else
             (let (fLog, s) = fopen E (logFileFullName s) ''r'' s in
              case fLog of
                None \<Rightarrow> (False, archive_error (''Can't open file: '' @ logFileFullName s) s)
              | Some l \<Rightarrow> (True, s))))"

text \<open>Close everything, empty the log file and go on writing to it.\<close>

definition archive_reopen :: "env \<Rightarrow> string \<Rightarrow> FILE \<Rightarrow> io \<Rightarrow> bool \<times> io" where
  "archive_reopen E zipName out s =
     (let s = emit (Stdio C_bzWriteClose) s;
          s = emit (Stdio (C_fclose out)) s;
          s = emit (Stdio (C_fclose (On_disk zipName))) s;
          s = emit (Stdio (C_fclose (On_disk (logFileFullName s)))) s;
          (f, s) = fopen E (logFileFullName s) ''w'' s;
          s = set_log (\<lambda>l. l\<lparr>out_file := f\<rparr>) s
      in if f = None then
           (False, archive_error (''Can't open file '' @ logFileFullName s @ '' for write'' @ [NL]) s)
         else (True, stdout_line (NL # ''Archiving log done'' @ [NL]) s))"

text \<open>Open, copy, close: the compressed file \<open>zipName\<close> receives the log.\<close>

definition archive_write :: "env \<Rightarrow> string \<Rightarrow> FILE \<Rightarrow> io \<Rightarrow> bool \<times> io" where
  "archive_write E zipName out s =
     (let (ok, s) = archive_open E zipName s in
      if \<not> ok then (False, s)
      else
        (let s = stdout_line (''Archiving log, please wait... file: '' @ logFileFullName s) s;
             (ok, s) = archive_copy E (content s (logFileFullName s)) s
         in if \<not> ok then (False, s) else archive_reopen E zipName out s))"

definition archive_into :: "env \<Rightarrow> string \<Rightarrow> FILE \<Rightarrow> io \<Rightarrow> bool \<times> io" where
  "archive_into E zipPath out s =
     (let (now, s) = time_c E s;
          (timeBuffer, s) = strftime_c E 30 ''%d.%m.%y-%H_%M_%S'' s;
          zipName = zipPath @ base_name (logFileFullName s) @ ''_'' @ timeBuffer @ ''.bz2''
      in archive_write E zipName out
           (ub_if (LOG_FILE_NAME_MAX_LEN * 2 \<le> length zipName) Buffer_Overflow s))"

definition archive_path :: "string \<Rightarrow> string" where
  "archive_path p = dir_part p @ ''LogArchive/''"

definition logger_archive :: "env \<Rightarrow> io \<Rightarrow> bool \<times> io" where
  "logger_archive E s =
     (case out_file (log_global_set s) of
        None \<Rightarrow> (True, s)
      | Some out \<Rightarrow>
        if use_stdout (log_global_set s) then (True, s)
        else if filesize out s < LOG_FILE_MAX_SIZE then (True, s)
        else if logFileFullName s = [] then (False, archive_error (''No log file name'' @ [NL]) s)
        else if CHR ''/'' \<notin> set (logFileFullName s) then
          (False, archive_error (''Wrong file name '' @ logFileFullName s) s)
        else
          (let zipPath = archive_path (logFileFullName s);
               (ok, s) = archive_dir E zipPath
                 (ub_if (LOG_FILE_NAME_MAX_LEN < length zipPath) Buffer_Overflow s)
           in if \<not> ok then (False, s) else archive_into E zipPath out s))"

section \<open>Messages\<close>

definition call_logger_func :: "env \<Rightarrow> nat \<Rightarrow> string \<Rightarrow> io \<Rightarrow> io" where
  "call_logger_func E level buffer s = (case logger_func (log_global_set s) of
      None \<Rightarrow> ub Null_Deref s
    | Some Print_to_syslog \<Rightarrow> print_to_syslog level buffer s
    | Some Print_to_file \<Rightarrow> print_to_file E level buffer s)"

definition log_generic :: "env \<Rightarrow> nat \<Rightarrow> string \<Rightarrow> io \<Rightarrow> io" where
  "log_generic E level message s =
     call_logger_func E level message (ub_if (256 \<le> length message) Buffer_Overflow s)"

definition log_prefix :: "string \<Rightarrow> int \<Rightarrow> string \<Rightarrow> string" where
  "log_prefix fileName line funName =
     ''file: '' @ fileName @ '' line: '' @ dec_int line @ '' fun: '' @ funName @ '' = ''"

definition log_generic_add :: "env \<Rightarrow> nat \<Rightarrow> string \<Rightarrow> string \<Rightarrow> string \<Rightarrow> int \<Rightarrow> io \<Rightarrow> io" where
  "log_generic_add E level message fileName funName line s =
     log_generic E level (log_prefix fileName line funName @ message) s"

text \<open>The common tail of the four entry points.\<close>

definition count_and_archive :: "env \<Rightarrow> io \<Rightarrow> io" where
  "count_and_archive E s =
     (let s = s\<lparr>stringCounter := stringCounter s + 1\<rparr> in
      if LOG_STRING_MAX_NUM < stringCounter s then
        (let (ok, s) = logger_archive E s;
             s = (if \<not> ok then print_to_syslog LOG_LEVEL_ERROR ''Unable to archive log file'' s
                  else s)
         in s\<lparr>stringCounter := 0\<rparr>)
      else s)"

definition log_error :: "env \<Rightarrow> string \<Rightarrow> int \<Rightarrow> string \<Rightarrow> string \<Rightarrow> io \<Rightarrow> io" where
  "log_error E fileName line funName message s =
     count_and_archive E (log_generic_add E LOG_LEVEL_ERROR message fileName funName line s)"

definition log_warning :: "env \<Rightarrow> string \<Rightarrow> int \<Rightarrow> string \<Rightarrow> string \<Rightarrow> io \<Rightarrow> io" where
  "log_warning E fileName line funName message s =
     (if max_log_level (log_global_set s) < LOG_MAX_LEVEL_ERROR_WARNING_MESSAGE then s
      else count_and_archive E (log_generic_add E LOG_LEVEL_WARNING message fileName funName line s))"

definition log_info :: "env \<Rightarrow> string \<Rightarrow> io \<Rightarrow> io" where
  "log_info E message s =
     (if max_log_level (log_global_set s) < LOG_MAX_LEVEL_ERROR_WARNING_MESSAGE then s
      else count_and_archive E (log_generic E LOG_LEVEL_MESSAGE message s))"

definition log_debug :: "env \<Rightarrow> string \<Rightarrow> io \<Rightarrow> io" where
  "log_debug E message s =
     (if max_log_level (log_global_set s) < LOG_MAX_LEVEL_ERROR_WARNING_MESSAGE_DEBUG then s
      else count_and_archive E (log_generic E LOG_LEVEL_DEBUG message s))"

section \<open>Set-up\<close>

definition logger_set_log_level :: "int \<Rightarrow> io \<Rightarrow> io" where
  "logger_set_log_level level s = set_log (\<lambda>l. l\<lparr>max_log_level := level\<rparr>) s"

definition logger_set_log_file :: "env \<Rightarrow> string \<Rightarrow> io \<Rightarrow> int \<times> io" where
  "logger_set_log_file E filename s =
     (let s = cleanup_internal s;
          (f, s) = fopen E filename ''a'' s;
          s = set_log (\<lambda>l. l\<lparr>out_file := f\<rparr>) s
      in case f of
           None \<Rightarrow> (-1, emit (Stdio (C_syslog (''ERROR: File: logger.c, Line: 382, ''
                @ ''Fun: logger_set_log_file, Error: Failed to open file '' @ filename))) s)
         | Some h \<Rightarrow>
             (0, set_log (\<lambda>l. l\<lparr>use_stdout := False, logger_func := Some Print_to_file\<rparr>) s))"

definition logger_set_out_stdout :: "io \<Rightarrow> io" where
  "logger_set_out_stdout s =
     set_log (\<lambda>l. l\<lparr>use_stdout := True, logger_func := Some Print_to_file, out_file := Some Std_out\<rparr>)
       (cleanup_internal s)"

definition logger_init :: "env \<Rightarrow> string \<Rightarrow> io \<Rightarrow> bool \<times> io" where
  "logger_init E filename s =
     (let s = (if length filename \<le> LOG_FILE_NAME_MAX_LEN then s\<lparr>logFileFullName := filename\<rparr>
               else (log_error E ''logger.c'' 329 ''logger_init''
                       (''To big file name '' @ filename @ '', got ''
                        @ dec_int (int (length filename)) @ '', max ''
                        @ dec_int (int LOG_FILE_NAME_MAX_LEN)
                        @ '', archiving does not work'') s)\<lparr>logFileFullName := []\<rparr>);
          s = set_log (\<lambda>l. l\<lparr>logger_func := Some Print_to_syslog\<rparr>) s;
          s = logger_set_log_level LOG_MAX_LEVEL_ERROR_WARNING_MESSAGE_DEBUG s;
          (r, s) = logger_set_log_file E filename s
      in if r \<noteq> 0 then (False, s)
         else
           (let (ok, s) = logger_archive E s in
            if \<not> ok then (False, print_to_syslog LOG_LEVEL_ERROR ''Unable to archive log file'' s)
            else (True, s)))"

definition logger_deinit :: "io \<Rightarrow> io" where
  "logger_deinit s = cleanup_internal s"

section \<open>Every logging operation only adds calls\<close>

lemmas log_defs = print_to_syslog_def print_to_file_def stdout_line_def set_log_def
  call_logger_func_def log_generic_def log_generic_add_def archive_error_def

lemma os_le_log_update [simp]:
  "os_le s (t\<lparr>log_global_set := g\<rparr>) = os_le s (t::io)"
  "os_le s (t\<lparr>logFileFullName := n\<rparr>) = os_le s t"
  "os_le s (t\<lparr>stringCounter := k\<rparr>) = os_le s t"
  by (simp_all add: os_le_def)

lemma os_le_set_log [simp]: "os_le s (set_log f t) = os_le s t"
  by (simp add: set_log_def)

lemma os_le_stdout_line [simp, intro!]: "os_le s t \<Longrightarrow> os_le s (stdout_line m t)"
  by (auto simp: stdout_line_def)

lemma os_le_archive_error [simp, intro!]: "os_le s t \<Longrightarrow> os_le s (archive_error m t)"
  by (auto simp: archive_error_def Let_def)

lemma os_le_syslog [simp, intro!]: "os_le s t \<Longrightarrow> os_le s (print_to_syslog l m t)"
  by (auto simp: print_to_syslog_def Let_def)

lemma os_le_fopen_trans [simp, intro!]: "os_le s t \<Longrightarrow> os_le s (snd (fopen E p m t))"
  using os_le_trans os_le_fopen by blast

lemma os_le_fprintf_trans [simp, intro!]: "os_le s t \<Longrightarrow> os_le s (snd (fprintf E f m t))"
  using os_le_trans os_le_fprintf by blast

lemma os_le_file [simp, intro!]: "os_le s t \<Longrightarrow> os_le s (print_to_file E l m t)"
  by (auto simp: print_to_file_def Let_def split_beta split: option.splits)

lemma os_le_call_logger [simp, intro!]: "os_le s t \<Longrightarrow> os_le s (call_logger_func E l m t)"
  by (auto simp: call_logger_func_def split: option.splits log_target.splits)

lemma os_le_cleanup [simp, intro!]: "os_le s t \<Longrightarrow> os_le s (cleanup_internal t)"
  by (auto simp: cleanup_internal_def split: option.splits)

text \<open>One round of the copy loop, without the pair patterns of its definition.\<close>

definition next_chunk :: "string \<Rightarrow> string" where
  "next_chunk t = fst (fgets (LOG_STRING_MAX_LEN - 2) t)"

definition next_rest :: "string \<Rightarrow> string" where
  "next_rest t = snd (fgets (LOG_STRING_MAX_LEN - 2) t)"

abbreviation write_chunk :: "string \<Rightarrow> call" where
  "write_chunk t \<equiv> Stdio (C_bzWrite (takeWhile (\<lambda>c. c \<noteq> NUL) (next_chunk t)))"

lemma next_rest_shrinks: "t \<noteq> [] \<Longrightarrow> length (next_rest t) < length t"
  unfolding next_rest_def by (rule fgets_shrinks) (simp_all add: LOG_STRING_MAX_LEN_def)

lemma next_chunk_rest: "next_chunk t @ next_rest t = t"
  by (simp add: next_chunk_def next_rest_def fgets_append)

lemma archive_copy_Nil: "archive_copy E [] s = (True, s)"
  by (simp add: archive_copy.simps)

lemma archive_copy_step:
  "t \<noteq> [] \<Longrightarrow> archive_copy E t s =
     (if rc E (write_chunk t # calls s) = -6
      then (False, archive_error ''BZ2_bzWrite error'' (emit (write_chunk t) s))
      else archive_copy E (next_rest t) (emit (write_chunk t) s))"
  by (subst archive_copy.simps)
    (simp add: split_beta Let_def ext_def next_chunk_def next_rest_def)

lemma archive_copy_induct [case_names Nil Step]:
  assumes "\<And>s. P [] s" and "\<And>t s. t \<noteq> [] \<Longrightarrow> (\<And>s'. P (next_rest t) s') \<Longrightarrow> P t s"
  shows "P t s"
proof (induction t arbitrary: s rule: length_induct)
  case (1 t)
  then show ?case using assms next_rest_shrinks by (cases "t = []") auto
qed

lemma os_le_archive_copy [simp, intro!]: "os_le s t \<Longrightarrow> os_le s (snd (archive_copy E m t))"
proof (induction m t rule: archive_copy_induct)
  case (Nil t)
  then show ?case by (simp add: archive_copy_Nil)
next
  case (Step m t)
  then show ?case by (simp add: archive_copy_step)
qed

lemma os_le_archive_dir [simp, intro!]: "os_le s t \<Longrightarrow> os_le s (snd (archive_dir E d t))"
  by (auto simp: archive_dir_def Let_def split_beta)

lemma os_le_archive_open [simp, intro!]: "os_le s t \<Longrightarrow> os_le s (snd (archive_open E z t))"
  by (auto simp: archive_open_def Let_def split_beta split: option.splits)

lemma os_le_archive_reopen [simp, intro!]: "os_le s t \<Longrightarrow> os_le s (snd (archive_reopen E z f t))"
  by (auto simp: archive_reopen_def Let_def split_beta)

lemma os_le_archive_write [simp, intro!]: "os_le s t \<Longrightarrow> os_le s (snd (archive_write E z f t))"
  by (simp add: archive_write_def Let_def split_beta)

lemma os_le_archive_into [simp, intro!]: "os_le s t \<Longrightarrow> os_le s (snd (archive_into E z f t))"
  by (simp add: archive_into_def Let_def split_beta)

lemma os_le_logger_archive [simp, intro!]: "os_le s t \<Longrightarrow> os_le s (snd (logger_archive E t))"
  by (auto simp: logger_archive_def Let_def split_beta split: option.splits)

lemma os_le_count [simp, intro!]: "os_le s t \<Longrightarrow> os_le s (count_and_archive E t)"
  by (auto simp: count_and_archive_def Let_def split_beta)

lemma os_le_generic [simp, intro!]: "os_le s t \<Longrightarrow> os_le s (log_generic E l m t)"
  by (auto simp: log_generic_def)

lemma os_le_log [simp, intro!]:
  "os_le s t \<Longrightarrow> os_le s (log_error E f n g m t)"
  "os_le s t \<Longrightarrow> os_le s (log_warning E f n g m t)"
  "os_le s t \<Longrightarrow> os_le s (log_info E m t)"
  "os_le s t \<Longrightarrow> os_le s (log_debug E m t)"
  by (auto simp: log_error_def log_warning_def log_info_def log_debug_def log_generic_add_def)

interpretation log_error_op: run_op "log_error E f n g m" by unfold_locales auto

interpretation log_debug_op: run_op "log_debug E m" by unfold_locales auto

lemma os_le_logger_init: "os_le s (snd (logger_init E n s))"
  by (auto simp: logger_init_def logger_set_log_level_def logger_set_log_file_def Let_def split_beta
      split: option.splits)

section \<open>Frame of the run-time primitives on the logger's globals\<close>

lemma io_frame [frame, simp]:
  "log_global_set (emit c s) = log_global_set s" "logFileFullName (emit c s) = logFileFullName s"
  "stringCounter (emit c s) = stringCounter s"
  "log_global_set (ub k s) = log_global_set s" "logFileFullName (ub k s) = logFileFullName s"
  "stringCounter (ub k s) = stringCounter s"
  "log_global_set (ub_if b k s) = log_global_set s"
  "logFileFullName (ub_if b k s) = logFileFullName s"
  "stringCounter (ub_if b k s) = stringCounter s"
  by (simp_all add: emit_def ub_def ub_if_def)

lemma fopen_io_frame [frame, simp]:
  "log_global_set (snd (fopen E p m s)) = log_global_set s"
  "logFileFullName (snd (fopen E p m s)) = logFileFullName s"
  "stringCounter (snd (fopen E p m s)) = stringCounter s"
  by (auto simp: fopen_def ext_def Let_def)

lemma fprintf_io_frame [frame, simp]:
  "log_global_set (snd (fprintf E f t s)) = log_global_set s"
  "logFileFullName (snd (fprintf E f t s)) = logFileFullName s"
  "stringCounter (snd (fprintf E f t s)) = stringCounter s"
  by (auto simp: fprintf_def ext_def Let_def split: FILE.splits)

lemma set_log_sel [frame, simp]:
  "calls (set_log f s) = calls s" "fault (set_log f s) = fault s" "files (set_log f s) = files s"
  "logFileFullName (set_log f s) = logFileFullName s" "stringCounter (set_log f s) = stringCounter s"
  "log_global_set (set_log f s) = f (log_global_set s)"
  by (simp_all add: set_log_def)

lemma stdout_line_sel [frame, simp]:
  "fault (stdout_line m s) = fault s" "files (stdout_line m s) = files s"
  "log_global_set (stdout_line m s) = log_global_set s"
  "logFileFullName (stdout_line m s) = logFileFullName s"
  "stringCounter (stdout_line m s) = stringCounter s"
  "calls (stdout_line m s) = Stdio (C_stdout m) # calls s"
  by (simp_all add: stdout_line_def)

lemma archive_error_sel [frame, simp]:
  "fault (archive_error m s) = fault s" "files (archive_error m s) = files s"
  "log_global_set (archive_error m s) = log_global_set s"
  "logFileFullName (archive_error m s) = logFileFullName s"
  "stringCounter (archive_error m s) = stringCounter s"
  by (simp_all add: archive_error_def Let_def)

lemma print_to_syslog_sel [frame, simp]:
  "fault (print_to_syslog l m s) = fault s" "files (print_to_syslog l m s) = files s"
  "log_global_set (print_to_syslog l m s) = log_global_set s"
  "logFileFullName (print_to_syslog l m s) = logFileFullName s"
  "stringCounter (print_to_syslog l m s) = stringCounter s"
  by (simp_all add: print_to_syslog_def Let_def)

lemma print_to_file_sel [frame, simp]:
  "log_global_set (print_to_file E l m s) = log_global_set s"
  "logFileFullName (print_to_file E l m s) = logFileFullName s"
  "stringCounter (print_to_file E l m s) = stringCounter s"
  by (simp_all add: print_to_file_def Let_def split_beta split: option.splits)

lemma print_to_file_fault:
  "fault (print_to_file E l m s) = None \<longleftrightarrow>
     fault s = None \<and> out_file (log_global_set s) \<noteq> None"
  by (simp add: print_to_file_def Let_def split_beta split: option.splits)

lemma content_sel [simp]:
  "content (emit c s) p = content s p" "content (ub k t) p = content t p"
  "content (ub_if b k t) p = content t p" "content (set_log f u) p = content u p"
  "content (stdout_line m u) p = content u p" "content (archive_error m u) p = content u p"
  "content (print_to_syslog l m u) p = content u p"
  by (simp_all add: content_def)

section \<open>Archiving, step by step\<close>

text \<open>Everything handed to the compressor so far, oldest first.\<close>

fun bz_payload :: "call \<Rightarrow> string" where
  "bz_payload (Stdio (C_bzWrite t)) = t"
| "bz_payload _ = []"

definition archived :: "io \<Rightarrow> string" where
  "archived s = concat (map bz_payload (rev (calls s)))"

lemma archived_emit [simp]: "archived (emit c s) = archived s @ bz_payload c"
  by (simp add: archived_def)

lemma archived_calls: "calls t = calls s \<Longrightarrow> archived t = archived s"
  by (simp add: archived_def)

lemma archived_ub_if [simp]: "archived (ub_if b k s) = archived s"
  by (simp add: archived_def)

lemma archived_set_log [simp]: "archived (set_log f s) = archived s"
  by (simp add: archived_def)

lemma archived_fopen [simp]: "archived (snd (fopen E p m s)) = archived s"
  by (simp add: archived_def)

lemma archived_stdout_line [simp]: "archived (stdout_line m s) = archived s"
  by (simp add: archived_def)

lemma archive_dir_sel [frame, simp]:
  "fault (snd (archive_dir E d s)) = fault s" "files (snd (archive_dir E d s)) = files s"
  "log_global_set (snd (archive_dir E d s)) = log_global_set s"
  "logFileFullName (snd (archive_dir E d s)) = logFileFullName s"
  "stringCounter (snd (archive_dir E d s)) = stringCounter s"
  by (simp_all add: archive_dir_def Let_def split_beta)

lemma archive_open_sel [frame, simp]:
  "fault (snd (archive_open E z s)) = fault s"
  "log_global_set (snd (archive_open E z s)) = log_global_set s"
  "logFileFullName (snd (archive_open E z s)) = logFileFullName s"
  "stringCounter (snd (archive_open E z s)) = stringCounter s"
  by (simp_all add: archive_open_def Let_def split_beta split: option.splits)

lemma archive_copy_sel [frame, simp]:
  "fault (snd (archive_copy E t s)) = fault s" "files (snd (archive_copy E t s)) = files s"
  "log_global_set (snd (archive_copy E t s)) = log_global_set s"
  "logFileFullName (snd (archive_copy E t s)) = logFileFullName s"
  "stringCounter (snd (archive_copy E t s)) = stringCounter s"
  by (induction t s rule: archive_copy_induct)
    (simp_all add: archive_copy_Nil archive_copy_step)

text \<open>Without a zero byte the chunks handed over are exactly the text.\<close>

lemma archive_copy_payload:
  "fst (archive_copy E t s) \<Longrightarrow> NUL \<notin> set t \<Longrightarrow> archived (snd (archive_copy E t s)) = archived s @ t"
proof (induction t s rule: archive_copy_induct)
  case (Nil s)
  then show ?case by (simp add: archive_copy_Nil)
next
  case (Step t s)
  have t: "next_chunk t @ next_rest t = t" by (rule next_chunk_rest)
  then have clean: "NUL \<notin> set (next_chunk t)" "NUL \<notin> set (next_rest t)"
    using Step.prems(2) by (metis Un_iff set_append)+
  then have "takeWhile (\<lambda>c. c \<noteq> NUL) (next_chunk t) = next_chunk t" by (simp add: takeWhile_id)
  then show ?case
    using Step.IH Step.prems Step.hyps t clean
    by (auto simp: archive_copy_step simp del: takeWhile_eq_all_conv split: if_splits)
qed

lemma length_base_name: "length (base_name p) \<le> length p"
  unfolding base_name_def by (metis length_rev length_takeWhile_le)

lemma length_dir_base: "length (dir_part p) + length (base_name p) = length p"
  using length_base_name [of p] by (simp add: dir_part_def)

text \<open>
  The name of the log file fits the path buffers: its directory part leaves room for
  \<^verbatim>\<open>LogArchive/\<close> and a terminator in 81 characters.
\<close>

definition log_name_fits :: "string \<Rightarrow> bool" where
  "log_name_fits p \<longleftrightarrow> length p \<le> LOG_FILE_NAME_MAX_LEN \<and> length (dir_part p) + 11 \<le> LOG_FILE_NAME_MAX_LEN"

lemma archive_reopen_sel [frame, simp]:
  "fault (snd (archive_reopen E z f s)) = fault s"
  "logFileFullName (snd (archive_reopen E z f s)) = logFileFullName s"
  "stringCounter (snd (archive_reopen E z f s)) = stringCounter s"
  "archived (snd (archive_reopen E z f s)) = archived s"
  by (simp_all add: archive_reopen_def Let_def split_beta archive_error_def)

lemma archive_write_sel [frame, simp]:
  "fault (snd (archive_write E z f s)) = fault s"
  "logFileFullName (snd (archive_write E z f s)) = logFileFullName s"
  "stringCounter (snd (archive_write E z f s)) = stringCounter s"
  by (simp_all add: archive_write_def Let_def split_beta)

lemma archive_into_sel [frame, simp]:
  "logFileFullName (snd (archive_into E z f s)) = logFileFullName s"
  "stringCounter (snd (archive_into E z f s)) = stringCounter s"
  by (simp_all add: archive_into_def Let_def split_beta)

lemma logger_archive_sel [frame, simp]:
  "logFileFullName (snd (logger_archive E s)) = logFileFullName s"
  "stringCounter (snd (logger_archive E s)) = stringCounter s"
  by (simp_all add: logger_archive_def Let_def split_beta split: option.splits)

lemma archive_into_fault:
  "length z + length (base_name (logFileFullName s)) \<le> 120 \<Longrightarrow>
   fault (snd (archive_into E z f s)) = fault s"
  by (simp add: archive_into_def Let_def split_beta ub_if_def LOG_FILE_NAME_MAX_LEN_def strftime_c_def)
    arith

lemma logger_archive_fault:
  assumes "log_name_fits (logFileFullName s)"
  shows "fault (snd (logger_archive E s)) = fault s"
proof -
  let ?n = "logFileFullName s"
  have "length (dir_part ?n) + length (base_name ?n) \<le> 80" "length (dir_part ?n) \<le> 69"
    using assms by (simp_all add: log_name_fits_def LOG_FILE_NAME_MAX_LEN_def length_dir_base)
  then have "length (archive_path ?n) + length (base_name ?n) \<le> 120" "length (archive_path ?n) \<le> 80"
    by (simp_all add: archive_path_def)
  then show ?thesis
    by (simp add: logger_archive_def Let_def split_beta LOG_FILE_NAME_MAX_LEN_def
        archive_into_fault split: option.splits)
qed

lemma hd_modes [simp]: "hd ''w'' = CHR ''w''" "hd ''r'' = CHR ''r''" "hd ''a'' = CHR ''a''"
  by simp_all

lemma content_fopen_other: "q \<noteq> p \<Longrightarrow> content (snd (fopen E q m s)) p = content s p"
  by (auto simp: fopen_def content_def ext_def Let_def)

lemma content_fopen_r [simp]: "content (snd (fopen E q ''r'' s)) p = content s p"
  by (auto simp: fopen_def content_def ext_def Let_def)

lemma fopen_w_content:
  "content (snd (fopen E p ''w'' s)) p = (if fst (fopen E p ''w'' s) = None then content s p else [])"
  by (auto simp: fopen_def content_def ext_def Let_def)

lemma fopen_Some: "fst (fopen E p m s) = Some f \<Longrightarrow> f = On_disk p"
  by (auto simp: fopen_def ext_def Let_def split: if_splits)

lemma archive_open_content:
  "z \<noteq> p \<Longrightarrow> content (snd (archive_open E z s)) p = content s p"
  "archived (snd (archive_open E z s)) = archived s"
  by (simp_all add: archive_open_def Let_def split_beta content_fopen_other archive_error_def
      split: option.splits)

lemma archive_reopen_result:
  assumes "archive_reopen E z out s = (ok, t)" and "logFileFullName s = p"
  shows "content t p = (if ok then [] else content s p)"
    and "out_file (log_global_set t) = (if ok then Some (On_disk p) else None)"
    and "archived t = archived s"
  using assms fopen_Some [where m = "''w''" and E = E]
  by (auto simp: archive_reopen_def Let_def split_beta fopen_w_content archive_error_def
      split: if_splits)

lemma archive_copy_content [simp]:
  "content (snd (archive_copy E m s)) p = content s p"
  by (simp add: content_def)

lemma archive_write_result:
  assumes "archive_write E z out s = (ok, t)" and "logFileFullName s = p" and "z \<noteq> p"
    and "NUL \<notin> set (content s p)"
  shows "content t p = (if ok then [] else content s p)"
    and "ok \<Longrightarrow> out_file (log_global_set t) = Some (On_disk p) \<and> archived t = archived s @ content s p"
proof -
  let ?s1 = "stdout_line (''Archiving log, please wait... file: '' @ p) (snd (archive_open E z s))"
  let ?cp = "archive_copy E (content s p) ?s1"
  note open_facts = archive_open_content(1) [OF assms(3), of E s] archive_open_content(2) [of E z s]
  have run: "(ok, t) = (if \<not> fst (archive_open E z s) then (False, snd (archive_open E z s))
      else if \<not> fst ?cp then (False, snd ?cp) else archive_reopen E z out (snd ?cp))"
    using assms(1) [symmetric] assms(2) open_facts
    by (simp add: archive_write_def Let_def split_beta cong: if_cong)
  consider "\<not> ok" "content t p = content s p"
    | "fst ?cp" "archive_reopen E z out (snd ?cp) = (ok, t)"
    using run open_facts by (auto split: if_splits)
  note cases = this
  have copy: "fst ?cp \<Longrightarrow> archived (snd ?cp) = archived s @ content s p"
    using archive_copy_payload [of E "content s p" ?s1] assms(4) open_facts by simp
  show "content t p = (if ok then [] else content s p)"
    using cases archive_reopen_result(1) [of E z out "snd ?cp" ok t p] assms(2) open_facts
    by cases simp_all
  show "ok \<Longrightarrow> out_file (log_global_set t) = Some (On_disk p) \<and> archived t = archived s @ content s p"
    using cases archive_reopen_result(2,3) [of E z out "snd ?cp" ok t p] assms(2) copy
    by cases simp_all
qed

definition ready_target :: "logger_t \<Rightarrow> bool" where
  "ready_target l \<longleftrightarrow> (case logger_func l of
      None \<Rightarrow> False
    | Some Print_to_syslog \<Rightarrow> True
    | Some Print_to_file \<Rightarrow> out_file l \<noteq> None)"

lemma call_logger_func_fault:
  "fault (call_logger_func E l m s) = None \<longleftrightarrow> fault s = None \<and> ready_target (log_global_set s)"
  by (simp add: call_logger_func_def ready_target_def print_to_file_fault
      split: option.splits log_target.splits)

lemma call_logger_func_sel [frame, simp]:
  "log_global_set (call_logger_func E l m s) = log_global_set s"
  "logFileFullName (call_logger_func E l m s) = logFileFullName s"
  "stringCounter (call_logger_func E l m s) = stringCounter s"
  by (simp_all add: call_logger_func_def split: option.splits log_target.splits)

lemma log_generic_sel [frame, simp]:
  "log_global_set (log_generic E l m s) = log_global_set s"
  "logFileFullName (log_generic E l m s) = logFileFullName s"
  "stringCounter (log_generic E l m s) = stringCounter s"
  by (simp_all add: log_generic_def)

lemma log_generic_fault:
  "fault (log_generic E l m s) = None \<longleftrightarrow>
     fault s = None \<and> ready_target (log_global_set s) \<and> length m < 256"
  by (auto simp: log_generic_def call_logger_func_fault)

lemma stringCounter_update_sel [frame, simp]:
  "fault (s\<lparr>stringCounter := k\<rparr>) = fault s" "files (s\<lparr>stringCounter := k\<rparr>) = files s"
  "logFileFullName (s\<lparr>stringCounter := k\<rparr>) = logFileFullName s"
  "content (s\<lparr>stringCounter := k\<rparr>) p = content s p"
  by (simp_all add: content_def)

lemma count_and_archive_fault:
  "log_name_fits (logFileFullName s) \<Longrightarrow> fault (count_and_archive E s) = fault s"
  by (simp add: count_and_archive_def Let_def split_beta logger_archive_fault)

lemma count_and_archive_counter:
  "stringCounter (count_and_archive E s) =
     (if stringCounter s < LOG_STRING_MAX_NUM then stringCounter s + 1 else 0)"
  by (simp add: count_and_archive_def Let_def split_beta)

lemma log_info_fault:
  "log_name_fits (logFileFullName s) \<Longrightarrow>
   fault (log_info E m s) = None \<longleftrightarrow> fault s = None \<and>
     (max_log_level (log_global_set s) < LOG_MAX_LEVEL_ERROR_WARNING_MESSAGE
      \<or> ready_target (log_global_set s) \<and> length m < 256)"
  by (auto simp: log_info_def count_and_archive_fault log_generic_fault)

lemma log_name_sel [frame, simp]:
  "logFileFullName (log_error E f n g m s) = logFileFullName s"
  "logFileFullName (log_warning E f n g m s) = logFileFullName s"
  "logFileFullName (log_info E m s) = logFileFullName s"
  "logFileFullName (log_debug E m s) = logFileFullName s"
  by (simp_all add: log_error_def log_warning_def log_info_def log_debug_def log_generic_add_def
      count_and_archive_def Let_def split_beta)

section \<open>The calls of the other components\<close>

text \<open>The logger uses standard output, files and the clock only; \<open>dev_calls\<close> are the other calls.\<close>

fun dev_call :: "call \<Rightarrow> bool" where
  "dev_call (Stdio c) = False"
| "dev_call (Sys c) = (case c of C_time \<Rightarrow> False | C_strftime f \<Rightarrow> False | _ \<Rightarrow> True)"
| "dev_call _ = True"

definition dev_calls :: "io \<Rightarrow> call list" where
  "dev_calls s = filter dev_call (calls s)"

lemma dev_calls_prim [simp]:
  "dev_calls (emit c s) = (if dev_call c then c # dev_calls s else dev_calls s)"
  "dev_calls (ub k s) = dev_calls s" "dev_calls (ub_if b k s) = dev_calls s"
  "dev_calls (set_log f s) = dev_calls s" "dev_calls (stdout_line m s) = dev_calls s"
  "dev_calls (archive_error m s) = dev_calls s" "dev_calls (print_to_syslog l m s) = dev_calls s"
  "dev_calls (snd (fopen E p md s)) = dev_calls s" "dev_calls (snd (fprintf E fl m s)) = dev_calls s"
  "dev_calls (s\<lparr>stringCounter := k2\<rparr>) = dev_calls s" "dev_calls (s\<lparr>logFileFullName := n\<rparr>) = dev_calls s"
  by (auto simp: dev_calls_def archive_error_def print_to_syslog_def fprintf_def ext_def Let_def
      split: FILE.splits)

lemma dev_calls_archive [simp]:
  "dev_calls (snd (archive_dir E d s)) = dev_calls s"
  "dev_calls (snd (archive_open E z s)) = dev_calls s"
  "dev_calls (snd (archive_copy E t s)) = dev_calls s"
  "dev_calls (snd (archive_reopen E z f s)) = dev_calls s"
  by (simp_all add: archive_dir_def archive_open_def archive_reopen_def Let_def split_beta split: option.splits)
    (induction t s rule: archive_copy_induct, simp_all add: archive_copy_Nil archive_copy_step)

lemma dev_calls_logger_archive [simp]: "dev_calls (snd (logger_archive E s)) = dev_calls s"
  by (simp add: logger_archive_def archive_into_def archive_write_def Let_def split_beta split: option.splits)

lemma dev_calls_generic [simp]: "dev_calls (log_generic E l m s) = dev_calls s"
  by (simp add: log_generic_def call_logger_func_def print_to_file_def Let_def split_beta
      split: option.splits log_target.splits)

lemma dev_calls_count [simp]: "dev_calls (count_and_archive E s) = dev_calls s"
  by (simp add: count_and_archive_def Let_def split_beta)

lemma dev_calls_log [simp]:
  "dev_calls (log_error E f n g m s) = dev_calls s" "dev_calls (log_warning E f n g m s) = dev_calls s"
  "dev_calls (log_info E m s) = dev_calls s" "dev_calls (log_debug E m s) = dev_calls s"
  by (simp_all add: log_error_def log_warning_def log_info_def log_debug_def log_generic_add_def)

section \<open>What the logger guarantees\<close>

lemma zip_name_longer: "archive_path p @ base_name p @ x \<noteq> p"
proof
  assume "archive_path p @ base_name p @ x = p"
  then have "length (archive_path p @ base_name p @ x) = length p" by simp
  then show False using length_dir_base [of p] by (simp add: archive_path_def)
qed

lemma archive_into_result:
  assumes "archive_into E (archive_path p) out s = (ok, t)" and "logFileFullName s = p"
    and "NUL \<notin> set (content s p)"
  shows "content t p = (if ok then [] else content s p)"
    and "ok \<Longrightarrow> out_file (log_global_set t) = Some (On_disk p) \<and> archived t = archived s @ content s p"
proof -
  obtain b z s' where run: "archive_write E z out (ub_if b Buffer_Overflow s') = (ok, t)"
    and z: "z \<noteq> p" and s': "logFileFullName s' = p" "content s' p = content s p"
      "archived s' = archived s"
    using assms(1,2) zip_name_longer [of p]
    by (simp add: archive_into_def Let_def split_beta)
  show "content t p = (if ok then [] else content s p)"
    using archive_write_result(1) [OF run _ z] s' assms(3) by simp
  show "ok \<Longrightarrow> out_file (log_global_set t) = Some (On_disk p) \<and> archived t = archived s @ content s p"
    using archive_write_result(2) [OF run _ z] s' assms(3) by simp
qed

text \<open>
  C16. A log file that has reached 256 KiB and holds no zero byte is archived without loss: when
  \<^verbatim>\<open>logger_archive\<close> reports success, exactly the file's text has been handed to the compressor,
  the log file is empty and it is open again for writing; when it reports failure the log file
  still has its text.
\<close>

theorem logger_archive_moves_log:
  assumes "out_file (log_global_set s) = Some (On_disk (logFileFullName s))"
    and "\<not> use_stdout (log_global_set s)"
    and "CHR ''/'' \<in> set (logFileFullName s)"
    and "LOG_FILE_MAX_SIZE \<le> length (content s (logFileFullName s))"
    and "NUL \<notin> set (content s (logFileFullName s))"
  shows "case logger_archive E s of (ok, t) \<Rightarrow>
     if ok then content t (logFileFullName s) = []
          \<and> out_file (log_global_set t) = Some (On_disk (logFileFullName s))
          \<and> archived t = archived s @ content s (logFileFullName s)
     else content t (logFileFullName s) = content s (logFileFullName s)"
proof -
  let ?p = "logFileFullName s"
  let ?d = "archive_dir E (archive_path ?p)
    (ub_if (LOG_FILE_NAME_MAX_LEN < length (archive_path ?p)) Buffer_Overflow s)"
  have run: "logger_archive E s = (if \<not> fst ?d then (False, snd ?d)
      else archive_into E (archive_path ?p) (On_disk ?p) (snd ?d))"
    using assms by (auto simp: logger_archive_def Let_def split_beta filesize_def)
  have d: "logFileFullName (snd ?d) = ?p" "content (snd ?d) ?p = content s ?p"
    "archived (snd ?d) = archived s"
    by (simp_all add: content_def) (simp add: archive_dir_def archive_error_def Let_def split_beta)
  obtain ok t where r: "archive_into E (archive_path ?p) (On_disk ?p) (snd ?d) = (ok, t)"
    by (metis surj_pair)
  show ?thesis
    using archive_into_result [OF r d(1)] d assms(5) by (auto simp: run r)
qed

definition big_log :: io where
  "big_log = (io0 [''/var/l'' \<mapsto> replicate 262144 (CHR ''x'')])
    \<lparr>logFileFullName := ''/var/l'',
     log_global_set := \<lparr>max_log_level = 2, use_stdout = False,
       out_file = Some (On_disk ''/var/l''), logger_func = Some Print_to_file\<rparr>\<rparr>"

lemma big_log_sel [simp]:
  "logFileFullName big_log = ''/var/l''" "content big_log ''/var/l'' = replicate 262144 (CHR ''x'')"
  "out_file (log_global_set big_log) = Some (On_disk ''/var/l'')"
  "use_stdout (log_global_set big_log) = False"
  by (simp_all add: big_log_def content_def io0_def)

theorem logger_archive_moves_log_witness:
  "case logger_archive quiet_env big_log of (ok, t) \<Rightarrow>
     if ok then content t ''/var/l'' = []
          \<and> out_file (log_global_set t) = Some (On_disk ''/var/l'')
          \<and> archived t = archived big_log @ replicate 262144 (CHR ''x'')
     else content t ''/var/l'' = replicate 262144 (CHR ''x'')"
proof -
  have "NUL \<notin> set (content big_log ''/var/l'')" "LOG_FILE_MAX_SIZE \<le> length (content big_log ''/var/l'')"
    by (simp_all add: NUL_def LOG_FILE_MAX_SIZE_def)
  then show ?thesis
    using logger_archive_moves_log [of big_log quiet_env] by (simp add: split_beta split: if_splits)
qed

text \<open>
  C37. Writing an error message is free of undefined behaviour exactly when it was before, the
  logger has a usable target and the message with its \<^verbatim>\<open>file: ... line: ... fun: ...\<close> prefix is
  shorter than the 256 characters of \<^verbatim>\<open>log_generic_add\<close>'s buffer, which \<^verbatim>\<open>vsprintf\<close> does not
  check.
\<close>

theorem log_error_fault_iff:
  assumes "log_name_fits (logFileFullName s)"
  shows "fault (log_error E f n g m s) = None \<longleftrightarrow>
     fault s = None \<and> ready_target (log_global_set s) \<and> length (log_prefix f n g) + length m < 256"
  using assms
  by (simp add: log_error_def log_generic_add_def count_and_archive_fault log_generic_fault)

theorem log_error_fault_iff_witness:
  "log_name_fits ''/etc/ts_module/ts_module_log.txt'' \<and>
   (fault (log_error quiet_env ''logger.c'' 1 ''f'' (replicate 300 (CHR ''x''))
      ((io0 (\<lambda>_. None))\<lparr>logFileFullName := ''/etc/ts_module/ts_module_log.txt''\<rparr>)) = None
    \<longleftrightarrow> False)"
proof -
  have fits: "log_name_fits ''/etc/ts_module/ts_module_log.txt''"
    by (simp add: log_name_fits_def LOG_FILE_NAME_MAX_LEN_def dir_part_def base_name_def)
  then show ?thesis
    using log_error_fault_iff [of "(io0 (\<lambda>_. None))\<lparr>logFileFullName := ''/etc/ts_module/ts_module_log.txt''\<rparr>"
        quiet_env "''logger.c''" 1 "''f''" "replicate 300 (CHR ''x'')"]
    by simp
qed

text \<open>
  The line counter that triggers the archiving check stays between 0 and 1000 whatever is
  logged, at every level.
\<close>

lemma string_counter_bounded:
  assumes "0 \<le> stringCounter s" and "stringCounter s \<le> LOG_STRING_MAX_NUM"
  shows "stringCounter (log_error E f n g m s) \<in> {0..LOG_STRING_MAX_NUM}
       \<and> stringCounter (log_warning E f n g m s) \<in> {0..LOG_STRING_MAX_NUM}
       \<and> stringCounter (log_info E m s) \<in> {0..LOG_STRING_MAX_NUM}
       \<and> stringCounter (log_debug E m s) \<in> {0..LOG_STRING_MAX_NUM}"
  using assms
  by (simp add: log_error_def log_warning_def log_info_def log_debug_def log_generic_add_def
      count_and_archive_counter LOG_STRING_MAX_NUM_def)

lemma string_counter_bounded_example:
  "stringCounter (log_error quiet_env ''a.c'' 1 ''f'' ''m'' (io0 (\<lambda>_. None))) \<in> {0..LOG_STRING_MAX_NUM}"
  using string_counter_bounded [of "io0 (\<lambda>_. None)" quiet_env "''a.c''" 1 "''f''" "''m''"] by (simp add: io0_def LOG_STRING_MAX_NUM_def)

text \<open>
  A log file name longer than 80 characters makes \<^verbatim>\<open>logger_init\<close> log an error before it has
  set the log function, so the null \<^verbatim>\<open>logger_func\<close> is called (or the message overflows its buffer).
\<close>

lemma logger_init_long_name_faults:
  assumes "80 < length name"
  shows "fault (snd (logger_init E name (io0 fs))) \<noteq> None"
proof
  let ?m = "''To big file name '' @ name @ '', got '' @ dec_int (int (length name)) @ '', max ''
    @ dec_int (int LOG_FILE_NAME_MAX_LEN) @ '', archiving does not work''"
  let ?s1 = "log_error E ''logger.c'' 329 ''logger_init'' ?m (io0 fs)"
  let ?s2 = "logger_set_log_level LOG_MAX_LEVEL_ERROR_WARNING_MESSAGE_DEBUG
    (set_log (\<lambda>l. l\<lparr>logger_func := Some Print_to_syslog\<rparr>) (?s1\<lparr>logFileFullName := []\<rparr>))"
  assume "fault (snd (logger_init E name (io0 fs))) = None"
  moreover have "os_le ?s2 (snd (logger_init E name (io0 fs)))"
    using assms
    by (simp add: logger_init_def logger_set_log_file_def Let_def split_beta LOG_FILE_NAME_MAX_LEN_def
        split: option.splits)
  ultimately have "fault ?s2 = None" by (rule os_le_no_fault [rotated])
  then have "fault ?s1 = None" by (simp add: logger_set_log_level_def)
  moreover have "log_name_fits (logFileFullName (io0 fs))"
    by (simp add: io0_def log_name_fits_def dir_part_def base_name_def LOG_FILE_NAME_MAX_LEN_def)
  ultimately show False
    by (simp add: log_error_def log_generic_add_def count_and_archive_fault log_generic_fault
        io0_def ready_target_def)
qed

lemma logger_init_long_name_faults_example:
  "fault (snd (logger_init quiet_env (replicate 81 (CHR ''a'')) (io0 (\<lambda>_. None)))) \<noteq> None"
  by (rule logger_init_long_name_faults) simp

end
