(* ===== verification/Timer.thy ===== *)
theory Timer
  imports Logger
begin

text \<open>
  \<^verbatim>\<open>timer.c\<close>: the 100 ms interval timer whose signal handler raises the three period flags the
  main loop polls.  The kernel's side of the timer (armed or not, handler installed or not) is
  part of the state, since no tick can arrive before both.
\<close>

definition TIMER_100mc :: int where "TIMER_100mc = 100000"
definition TIMER_1S :: int where "TIMER_1S = 10"
definition TIMER_1M :: int where "TIMER_1M = TIMER_1S * 60"

record timer_periods =
  period_1m :: bool
  period_1s :: bool
  period_100ms :: bool

record timer_t =
  t_period :: timer_periods
  timer_counter :: int
  handler_installed :: bool
  itimer_armed :: bool

definition timer0 :: timer_t where
  "timer0 = \<lparr>t_period = \<lparr>period_1m = False, period_1s = False, period_100ms = False\<rparr>,
     timer_counter = 0, handler_installed = False, itimer_armed = False\<rparr>"

definition timer_handler_100ms :: "timer_t \<Rightarrow> timer_t" where
  "timer_handler_100ms t =
     (let t = t\<lparr>t_period := (t_period t)\<lparr>period_100ms := True\<rparr>\<rparr>;
          t = t\<lparr>timer_counter := timer_counter t + 1\<rparr>;
          t = (if timer_counter t mod TIMER_1S = 0
               then t\<lparr>t_period := (t_period t)\<lparr>period_1s := True\<rparr>\<rparr> else t)
      in if timer_counter t = TIMER_1M
         then t\<lparr>t_period := (t_period t)\<lparr>period_1m := True\<rparr>, timer_counter := 0\<rparr> else t)"

text \<open>\<^verbatim>\<open>setitimer\<close> with the same first and repeat interval; zero disarms the timer.\<close>

definition timer_start :: "env \<Rightarrow> int \<Rightarrow> timer_t \<Rightarrow> io \<Rightarrow> int \<times> timer_t \<times> io" where
  "timer_start E timer_intr t s =
     (let (r, s) = ext E (Sys (C_setitimer timer_intr)) s in
      (r, if r = 0 then t\<lparr>itimer_armed := (timer_intr \<noteq> 0)\<rparr> else t, s))"

definition timer_stop :: "env \<Rightarrow> timer_t \<Rightarrow> io \<Rightarrow> int \<times> timer_t \<times> io" where
  "timer_stop E t s =
     (let (r, s) = ext E (Sys (C_setitimer 0)) s in
      (r, if r = 0 then t\<lparr>itimer_armed := False\<rparr> else t, s))"

definition timer_init :: "timer_t \<Rightarrow> io \<Rightarrow> timer_t \<times> io" where
  "timer_init t s = (t\<lparr>handler_installed := True\<rparr>, emit (Sys C_sigaction) s)"

section \<open>Properties\<close>

definition timer_wf :: "timer_t \<Rightarrow> bool" where
  "timer_wf t \<longleftrightarrow> 0 \<le> timer_counter t \<and> timer_counter t < TIMER_1M"

lemma timer_sel [frame, simp]:
  "fault (snd (snd (timer_start E n t s))) = fault s" "fault (snd (snd (timer_stop E t s))) = fault s"
  "fault (snd (timer_init t s)) = fault s"
  "timer_counter (fst (snd (timer_start E n t s))) = timer_counter t"
  "timer_counter (fst (snd (timer_stop E t s))) = timer_counter t"
  "timer_counter (fst (timer_init t s)) = timer_counter t"
  "t_period (fst (snd (timer_start E n t s))) = t_period t"
  "t_period (fst (snd (timer_stop E t s))) = t_period t"
  "t_period (fst (timer_init t s)) = t_period t"
  by (simp_all add: timer_start_def timer_stop_def timer_init_def Let_def split_beta)

lemma os_le_timer [simp, intro!]:
  "os_le s u \<Longrightarrow> os_le s (snd (snd (timer_start E n t u)))"
  "os_le s u \<Longrightarrow> os_le s (snd (snd (timer_stop E t u)))"
  "os_le s u \<Longrightarrow> os_le s (snd (timer_init t u))"
  by (simp_all add: timer_start_def timer_stop_def timer_init_def Let_def split_beta)

lemma handler_wf [wf_intros]: "timer_wf t \<Longrightarrow> timer_wf (timer_handler_100ms t)"
  by (auto simp: timer_wf_def timer_handler_100ms_def Let_def TIMER_1M_def TIMER_1S_def)

lemma handler_iterate_wf: "timer_wf t \<Longrightarrow> timer_wf ((timer_handler_100ms ^^ n) t)"
  by (induction n) (auto intro: handler_wf)

text \<open>One tick: the counter cycles, and each flag is raised at its own multiples.\<close>

lemma handler_step:
  assumes "timer_wf t"
  shows "timer_counter (timer_handler_100ms t) = (timer_counter t + 1) mod TIMER_1M"
    and "period_100ms (t_period (timer_handler_100ms t))"
    and "period_1s (t_period (timer_handler_100ms t))
       \<longleftrightarrow> period_1s (t_period t) \<or> (timer_counter t + 1) mod TIMER_1S = 0"
    and "period_1m (t_period (timer_handler_100ms t))
       \<longleftrightarrow> period_1m (t_period t) \<or> timer_counter t + 1 = TIMER_1M"
  using assms
  by (auto simp: timer_wf_def timer_handler_100ms_def Let_def TIMER_1M_def TIMER_1S_def)

lemma div_10_step:
  fixes c a :: int
  assumes "c \<le> a"
  shows "c div 10 < (a + 1) div 10 \<longleftrightarrow> c div 10 < a div 10 \<or> (a + 1) mod 10 = 0"
proof -
  define r where "r = a mod 10"
  have r: "0 \<le> r" "r < 10" by (simp_all add: r_def)
  have "(a + 1) div 10 = a div 10 + (r + 1) div 10"
    by (simp add: div_add1_eq [of a 1 10] r_def)
  moreover have "(a + 1) mod 10 = (r + 1) mod 10" by (simp add: r_def mod_simps)
  moreover have "(r + 1) div 10 = (if (r + 1) mod 10 = 0 then 1 else 0)"
  proof (cases "r = 9")
    case False
    with r have "0 \<le> r + 1" "r + 1 < 10" by simp_all
    then have "(r + 1) div 10 = 0" "(r + 1) mod 10 = r + 1"
      by (simp_all add: div_pos_pos_trivial mod_pos_pos_trivial)
    with r show ?thesis by simp
  qed simp
  moreover have "c div 10 \<le> a div 10" using assms by (rule zdiv_mono1) simp
  ultimately show ?thesis by auto
qed

text \<open>
  C17. After any number of 100 ms ticks the tick counter is the total modulo 600 and each period
  flag is up exactly when it was up before or a multiple of its period (1 tick, 10 ticks, 600
  ticks) has been passed since: no period is ever lost or raised early by the handler.
\<close>

theorem timer_ticks:
  fixes n :: nat
  assumes "timer_wf t"
  defines "c \<equiv> timer_counter t" and "t' \<equiv> (timer_handler_100ms ^^ n) t"
  shows "timer_counter t' = (c + int n) mod TIMER_1M
       \<and> (period_100ms (t_period t') \<longleftrightarrow> period_100ms (t_period t) \<or> 0 < n)
       \<and> (period_1s (t_period t') \<longleftrightarrow> period_1s (t_period t) \<or> c div TIMER_1S < (c + int n) div TIMER_1S)
       \<and> (period_1m (t_period t') \<longleftrightarrow> period_1m (t_period t) \<or> TIMER_1M \<le> c + int n)"
  unfolding c_def t'_def
proof (induction n)
  case 0
  then show ?case using assms(1) by (auto simp: timer_wf_def)
next
  case (Suc n)
  let ?t = "(timer_handler_100ms ^^ n) t"
  have wf: "timer_wf ?t" using assms(1) by (rule handler_iterate_wf)
  have c: "0 \<le> timer_counter t" "timer_counter t < 600"
    using assms(1) by (simp_all add: timer_wf_def TIMER_1M_def TIMER_1S_def)
  note IH = Suc.IH
  note step = handler_step [OF wf]
  have "timer_counter (timer_handler_100ms ?t) = (timer_counter t + int (Suc n)) mod TIMER_1M"
    using step(1) IH by (simp add: mod_simps ac_simps)
  moreover have "(timer_counter ?t + 1) mod TIMER_1S = (timer_counter t + int n + 1) mod TIMER_1S"
    using IH by (simp add: TIMER_1M_def TIMER_1S_def mod_mod_cancel mod_add_left_eq
        flip: mod_add_left_eq [of "_ mod 600" 10])
  moreover have "timer_counter t div TIMER_1S < (timer_counter t + int (Suc n)) div TIMER_1S
      \<longleftrightarrow> timer_counter t div TIMER_1S < (timer_counter t + int n) div TIMER_1S
        \<or> (timer_counter t + int n + 1) mod TIMER_1S = 0"
    using div_10_step [of "timer_counter t" "timer_counter t + int n"]
    by (simp add: TIMER_1S_def ac_simps)
  moreover have "timer_counter ?t + 1 = TIMER_1M \<or> TIMER_1M \<le> timer_counter t + int n
      \<longleftrightarrow> TIMER_1M \<le> timer_counter t + int (Suc n)"
    using IH c by (cases "600 \<le> timer_counter t + int n") (auto simp: TIMER_1M_def TIMER_1S_def)
  ultimately show ?case
    using step(2-4) IH by simp blast
qed

theorem timer_ticks_witness:
  "timer_counter ((timer_handler_100ms ^^ 1234) timer0) = 34
   \<and> period_1m (t_period ((timer_handler_100ms ^^ 1234) timer0))"
proof -
  have "timer_wf timer0" by (simp add: timer_wf_def timer0_def TIMER_1M_def TIMER_1S_def)
  from timer_ticks [OF this, of 1234] show ?thesis
    by (simp add: timer0_def TIMER_1M_def TIMER_1S_def)
qed

end
