(* ===== verification/Cdouble.thy ===== *)
theory Cdouble
  imports Prelude
begin

text \<open>
  The C type \<^verbatim>\<open>double\<close> as its 64 bits (IEEE 754 binary64), with the two operations the program
  needs: multiplication by a positive integer constant, rounded to nearest and ties to even, and
  the \<^verbatim>\<open>%f\<close> conversion of \<^verbatim>\<open>printf\<close>, which rounds the exact value to six decimals.
\<close>

type_synonym double = "64 word"

section \<open>Fields\<close>

definition dbl_sign :: "double \<Rightarrow> bool" where
  "dbl_sign w \<longleftrightarrow> 2 ^ 63 \<le> unat w"

definition dbl_exp :: "double \<Rightarrow> nat" where
  "dbl_exp w = unat w div 2 ^ 52 mod 2048"

definition dbl_frac :: "double \<Rightarrow> nat" where
  "dbl_frac w = unat w mod 2 ^ 52"

definition dbl_finite :: "double \<Rightarrow> bool" where
  "dbl_finite w \<longleftrightarrow> dbl_exp w \<noteq> 2047"

text \<open>A finite double is \<open>dbl_mant w * 2 powr dbl_scale w\<close>, up to its sign.\<close>

definition dbl_mant :: "double \<Rightarrow> nat" where
  "dbl_mant w = (if dbl_exp w = 0 then dbl_frac w else 2 ^ 52 + dbl_frac w)"

definition dbl_scale :: "double \<Rightarrow> int" where
  "dbl_scale w = (if dbl_exp w = 0 then 1 else int (dbl_exp w)) - 1075"

definition dbl_pack :: "bool \<Rightarrow> nat \<Rightarrow> nat \<Rightarrow> double" where
  "dbl_pack neg be frac = word_of_nat ((if neg then 2 ^ 63 else 0) + be * 2 ^ 52 + frac)"

section \<open>Rounding and multiplication\<close>

definition round_half_even :: "nat \<Rightarrow> nat \<Rightarrow> nat" where
  "round_half_even n d =
     (let q = n div d; r = n mod d
      in if d < 2 * r \<or> 2 * r = d \<and> odd q then q + 1 else q)"

fun bitlen :: "nat \<Rightarrow> nat" where
  "bitlen n = (if n = 0 then 0 else Suc (bitlen (n div 2)))"

declare bitlen.simps [simp del]

text \<open>The double nearest to \<open>m * 2 powr e\<close> for a positive \<open>m\<close>.\<close>

definition dbl_round :: "bool \<Rightarrow> nat \<Rightarrow> int \<Rightarrow> double" where
  "dbl_round neg m e =
     (let e1 = max (e + int (bitlen m) - 53) (-1074);
          q = (if e1 \<le> e then m * 2 ^ nat (e - e1) else round_half_even m (2 ^ nat (e1 - e)));
          q2 = (if q = 2 ^ 53 then 2 ^ 52 else q);
          e2 = (if q = 2 ^ 53 then e1 + 1 else e1)
      in if q2 < 2 ^ 52 then dbl_pack neg 0 q2
         else if 2047 \<le> e2 + 1075 then dbl_pack neg 2047 0
         else dbl_pack neg (nat (e2 + 1075)) (q2 - 2 ^ 52))"

definition dbl_of_nat :: "nat \<Rightarrow> double" where
  "dbl_of_nat n = (if n = 0 then 0 else dbl_round False n 0)"

text \<open>Infinities are kept, a NaN comes out quiet (top fraction bit set).\<close>

definition dbl_mul_nat :: "double \<Rightarrow> nat \<Rightarrow> double" where
  "dbl_mul_nat w k =
     (if \<not> dbl_finite w then
        (if dbl_frac w = 0 \<or> 2 ^ 51 \<le> dbl_frac w then w else w + 2 ^ 51)
      else if dbl_mant w = 0 then w
      else dbl_round (dbl_sign w) (dbl_mant w * k) (dbl_scale w))"

section \<open>The \<^verbatim>\<open>%f\<close> conversion\<close>

definition pad6 :: "nat \<Rightarrow> string" where
  "pad6 n = replicate (6 - length (dec_nat n)) (CHR ''0'') @ dec_nat n"

text \<open>The value times a million, rounded to an integer.\<close>

definition dbl_micros :: "double \<Rightarrow> nat" where
  "dbl_micros w =
     (if 0 \<le> dbl_scale w then dbl_mant w * 2 ^ nat (dbl_scale w) * 1000000
      else round_half_even (dbl_mant w * 1000000) (2 ^ nat (- dbl_scale w)))"

definition fmt_f :: "double \<Rightarrow> string" where
  "fmt_f w = (if dbl_sign w then ''-'' else [])
     @ (if dbl_finite w then
          dec_nat (dbl_micros w div 1000000) @ ''.'' @ pad6 (dbl_micros w mod 1000000)
        else if dbl_frac w = 0 then ''inf'' else ''nan'')"

end
