(* ===== verification/ModuleConst.thy ===== *)
theory ModuleConst
  imports Cdouble
begin

text \<open>
  \<^verbatim>\<open>ts_module_const.h\<close>: the limits, the enumerations and the structure \<^verbatim>\<open>ClientData\<close> shared by
  the components.  A structure is a record with the field names of the source (prefixed where
  two structures use the same name); \<^verbatim>\<open>int\<close> and \<^verbatim>\<open>DWORD\<close> values received from clients are kept
  at 32 bits, \<^verbatim>\<open>long\<close> and \<^verbatim>\<open>time_t\<close> at 64 bits (LP64).
\<close>

definition MAX_BUF :: nat where "MAX_BUF = 1024 * 3"

definition TS_BOOL :: int where "TS_BOOL = 1"
definition TS_INT :: int where "TS_INT = 2"
definition TS_DWORD :: int where "TS_DWORD = 3"
definition TS_LINT :: int where "TS_LINT = 4"
definition TS_DOUBLE :: int where "TS_DOUBLE = 5"
definition TS_TIME :: int where "TS_TIME = 6"
definition TS_ENUM :: int where "TS_ENUM = 7"
definition TS_CHAR :: int where "TS_CHAR = 8"

definition MAX_CLIENT_NUM :: nat where "MAX_CLIENT_NUM = 50"
definition MAX_CLIENT_NAME_LEN :: nat where "MAX_CLIENT_NAME_LEN = 80"
definition MAX_OPC_NODE_LEN :: nat where "MAX_OPC_NODE_LEN = 80"
definition MAX_OPC_STR_LEN :: nat where "MAX_OPC_STR_LEN = 500"

definition OPC_CERT_PATH :: string where "OPC_CERT_PATH = ''/etc/ts_module/opc_client_cert.der''"
definition OPC_KEY_PATH :: string where "OPC_KEY_PATH = ''/etc/ts_module/opc_client_key.der''"
definition OPC_APP_URI :: string where "OPC_APP_URI = ''urn:ts_owrt_module''"

type_synonym InnerIdx = int

datatype RefreshRate = RR_100ms | RR_1s | RR_1m

lemma all_rates: "(\<forall>r. P r) \<longleftrightarrow> P RR_100ms \<and> P RR_1s \<and> P RR_1m"
  by (metis RefreshRate.exhaust)

lemma any_rate: "(\<exists>r. P r) \<longleftrightarrow> P RR_100ms \<or> P RR_1s \<or> P RR_1m"
  by (metis RefreshRate.exhaust)

text \<open>The rates can be enumerated, so that statements about all of them compute.\<close>

instantiation RefreshRate :: enum
begin

definition enum_RefreshRate :: "RefreshRate list" where
  "enum_RefreshRate = [RR_100ms, RR_1s, RR_1m]"

definition enum_all_RefreshRate :: "(RefreshRate \<Rightarrow> bool) \<Rightarrow> bool" where
  "enum_all_RefreshRate P \<longleftrightarrow> P RR_100ms \<and> P RR_1s \<and> P RR_1m"

definition enum_ex_RefreshRate :: "(RefreshRate \<Rightarrow> bool) \<Rightarrow> bool" where
  "enum_ex_RefreshRate P \<longleftrightarrow> P RR_100ms \<or> P RR_1s \<or> P RR_1m"

instance
proof
  show "(UNIV :: RefreshRate set) = set enum_class.enum"
    by (auto simp: enum_RefreshRate_def intro: RefreshRate.exhaust)
  show "distinct (enum_class.enum :: RefreshRate list)" by (simp add: enum_RefreshRate_def)
  show "enum_class.enum_all P \<longleftrightarrow> Ball UNIV P" for P :: "RefreshRate \<Rightarrow> bool"
    by (simp add: enum_all_RefreshRate_def all_rates)
  show "enum_class.enum_ex P \<longleftrightarrow> Bex UNIV P" for P :: "RefreshRate \<Rightarrow> bool"
    by (simp add: enum_ex_RefreshRate_def any_rate)
qed

end

datatype DataType = MDT_BOOL | MDT_INT | MDT_DOUBLE | MDT_DWORD | MDT_TIME | MDT_ENUM | MDT_CHAR

text \<open>The number behind an enumeration constant, as a cast to \<^verbatim>\<open>int\<close> gives it.\<close>

fun dt_code :: "DataType \<Rightarrow> int" where
  "dt_code MDT_BOOL = 0" | "dt_code MDT_INT = 1" | "dt_code MDT_DOUBLE = 2"
| "dt_code MDT_DWORD = 3" | "dt_code MDT_TIME = 4" | "dt_code MDT_ENUM = 5"
| "dt_code MDT_CHAR = 6"

record ClientData =
  cd_dataType :: DataType
  data_bool :: bool
  data_int :: int32
  data_double :: double
  data_dword :: DWORD
  data_time :: long64
  data_enum :: int32
  data_char :: string

text \<open>All bytes zero, as static storage and \<^verbatim>\<open>memset\<close> leave it; \<^verbatim>\<open>MDT_BOOL\<close> is the constant 0.\<close>

definition ClientData_zero :: ClientData where
  "ClientData_zero = \<lparr>cd_dataType = MDT_BOOL, data_bool = False, data_int = 0, data_double = 0,
     data_dword = 0, data_time = 0, data_enum = 0, data_char = []\<rparr>"

end
