(* ===== verification/ClientQueue.thy ===== *)
theory ClientQueue
  imports Logger ModuleConst
begin

text \<open>
  \<^verbatim>\<open>client_queue.c\<close>: three arrays of client numbers, one per refresh rate, filled with -1 behind
  the clients, and a read position for each.  The arrays refine lists: adding appends, and
  reading from the first element to the end marker visits the list in order.
\<close>

section \<open>State and operations\<close>

record ClientQueue =
  pos_100ms :: int
  pos_1s :: int
  pos_1m :: int
  rate_100ms :: "int list"
  rate_1s :: "int list"
  rate_1m :: "int list"

definition queue0 :: ClientQueue where
  "queue0 = \<lparr>pos_100ms = 0, pos_1s = 0, pos_1m = 0, rate_100ms = replicate MAX_CLIENT_NUM 0,
     rate_1s = replicate MAX_CLIENT_NUM 0, rate_1m = replicate MAX_CLIENT_NUM 0\<rparr>"

definition queueCleen :: "ClientQueue \<Rightarrow> ClientQueue" where
  "queueCleen q = q\<lparr>pos_100ms := 0, pos_1m := 0, pos_1s := 0,
     rate_100ms := replicate MAX_CLIENT_NUM (-1), rate_1m := replicate MAX_CLIENT_NUM (-1),
     rate_1s := replicate MAX_CLIENT_NUM (-1)\<rparr>"

text \<open>
  The search for a free cell, the same loop in all three cases of \<^verbatim>\<open>queueAdd\<close>: \<open>None\<close> is the
  early return when the last cell is taken.
\<close>

function find_free :: "int list \<Rightarrow> nat \<Rightarrow> nat option" where
  "find_free rate pos =
     (if pos < MAX_CLIENT_NUM then
        (if rate ! pos = -1 then Some pos
         else if pos = MAX_CLIENT_NUM - 1 then None
         else find_free rate (pos + 1))
      else Some pos)"
  by pat_completeness auto
termination by (relation "measure (\<lambda>(r, p). MAX_CLIENT_NUM - p)") auto

declare find_free.simps [simp del]

definition queueAdd :: "env \<Rightarrow> RefreshRate \<Rightarrow> int \<Rightarrow> ClientQueue \<Rightarrow> io \<Rightarrow> bool \<times> ClientQueue \<times> io" where
  "queueAdd E rate clientId q s =
     (let too_many = ''Attempt to add too many clients to queue, client id '' @ dec_int clientId
      in case rate of
        RR_100ms \<Rightarrow> (case find_free (rate_100ms q) 0 of
            None \<Rightarrow> (False, q, log_error E ''client_queue.c'' 51 ''queueAdd'' too_many s)
          | Some pos \<Rightarrow> (True, q\<lparr>rate_100ms := (rate_100ms q)[pos := clientId]\<rparr>, s))
      | RR_1s \<Rightarrow> (case find_free (rate_1s q) 0 of
            None \<Rightarrow> (False, q, log_error E ''client_queue.c'' 71 ''queueAdd'' too_many s)
          | Some pos \<Rightarrow> (True, q\<lparr>rate_1s := (rate_1s q)[pos := clientId]\<rparr>, s))
      | RR_1m \<Rightarrow> (case find_free (rate_1m q) 0 of
            None \<Rightarrow> (False, q, log_error E ''client_queue.c'' 90 ''queueAdd'' too_many s)
          | Some pos \<Rightarrow> (True, q\<lparr>rate_1m := (rate_1m q)[pos := clientId]\<rparr>, s)))"

text \<open>A read outside the array is a fault and then counts as the end marker.\<close>

definition read_cell :: "int list \<Rightarrow> int \<Rightarrow> io \<Rightarrow> int \<times> io" where
  "read_cell cells i s =
     (if 0 \<le> i \<and> i < int MAX_CLIENT_NUM then (cells ! nat i, s) else (-1, ub Out_Of_Bounds s))"

definition queueGetFirst :: "RefreshRate \<Rightarrow> ClientQueue \<Rightarrow> io \<Rightarrow> int \<times> ClientQueue \<times> io" where
  "queueGetFirst rate q s = (case rate of
      RR_100ms \<Rightarrow> (let (i, s) = read_cell (rate_100ms q) 0 s in (i, q\<lparr>pos_100ms := 0\<rparr>, s))
    | RR_1s \<Rightarrow> (let (i, s) = read_cell (rate_1s q) 0 s in (i, q\<lparr>pos_1s := 0\<rparr>, s))
    | RR_1m \<Rightarrow> (let (i, s) = read_cell (rate_1m q) 0 s in (i, q\<lparr>pos_1m := 0\<rparr>, s)))"

definition queueGetNext :: "RefreshRate \<Rightarrow> ClientQueue \<Rightarrow> io \<Rightarrow> int \<times> ClientQueue \<times> io" where
  "queueGetNext rate q s = (case rate of
      RR_100ms \<Rightarrow>
        (let q = q\<lparr>pos_100ms := pos_100ms q + 1\<rparr> in
         if pos_100ms q = int MAX_CLIENT_NUM then (-1, q\<lparr>pos_100ms := 0\<rparr>, s)
         else (let (i, s) = read_cell (rate_100ms q) (pos_100ms q) s in (i, q, s)))
    | RR_1s \<Rightarrow>
        (let q = q\<lparr>pos_1s := pos_1s q + 1\<rparr> in
         if pos_1s q = int MAX_CLIENT_NUM then (-1, q\<lparr>pos_1s := 0\<rparr>, s)
         else (let (i, s) = read_cell (rate_1s q) (pos_1s q) s in (i, q, s)))
    | RR_1m \<Rightarrow>
        (let q = q\<lparr>pos_1m := pos_1m q + 1\<rparr> in
         if pos_1m q = int MAX_CLIENT_NUM then (-1, q\<lparr>pos_1m := 0\<rparr>, s)
         else (let (i, s) = read_cell (rate_1m q) (pos_1m q) s in (i, q, s))))"

section \<open>Abstraction to lists\<close>

definition cells :: "RefreshRate \<Rightarrow> ClientQueue \<Rightarrow> int list" where
  "cells r q = (case r of RR_100ms \<Rightarrow> rate_100ms q | RR_1s \<Rightarrow> rate_1s q | RR_1m \<Rightarrow> rate_1m q)"

definition rpos :: "RefreshRate \<Rightarrow> ClientQueue \<Rightarrow> int" where
  "rpos r q = (case r of RR_100ms \<Rightarrow> pos_100ms q | RR_1s \<Rightarrow> pos_1s q | RR_1m \<Rightarrow> pos_1m q)"

definition clients_at :: "RefreshRate \<Rightarrow> ClientQueue \<Rightarrow> int list" where
  "clients_at r q = takeWhile (\<lambda>i. i \<noteq> -1) (cells r q)"

text \<open>The clients first, then only end markers; the read position inside the array.\<close>

definition queue_wf :: "ClientQueue \<Rightarrow> bool" where
  "queue_wf q \<longleftrightarrow> (\<forall>r. length (clients_at r q) \<le> MAX_CLIENT_NUM
      \<and> cells r q = clients_at r q @ replicate (MAX_CLIENT_NUM - length (clients_at r q)) (-1)
      \<and> 0 \<le> rpos r q \<and> rpos r q < int MAX_CLIENT_NUM)"

lemma clients_at_le: "queue_wf q \<Longrightarrow> length (clients_at r q) \<le> MAX_CLIENT_NUM"
  unfolding queue_wf_def by blast

lemma cells_shape: "queue_wf q \<Longrightarrow>
    cells r q = clients_at r q @ replicate (MAX_CLIENT_NUM - length (clients_at r q)) (-1)"
  unfolding queue_wf_def by blast

lemma cells_length: "queue_wf q \<Longrightarrow> length (cells r q) = MAX_CLIENT_NUM"
  using clients_at_le [of q r] by (simp add: cells_shape)

lemma clients_at_no_marker: "-1 \<notin> set (clients_at r q)"
  by (auto simp: clients_at_def dest: set_takeWhileD)

lemma cells_nth:
  assumes "queue_wf q" and "i < MAX_CLIENT_NUM"
  shows "cells r q ! i = (if i < length (clients_at r q) then clients_at r q ! i else -1)"
proof -
  have "cells r q = clients_at r q @ replicate (MAX_CLIENT_NUM - length (clients_at r q)) (-1)"
    using assms(1) by (rule cells_shape)
  then have "cells r q ! i = (clients_at r q @ replicate (MAX_CLIENT_NUM - length (clients_at r q)) (-1)) ! i"
    by simp
  then show ?thesis using assms(2) by (simp add: nth_append)
qed

lemma queueCleen_wf [wf_intros, simp]: "queue_wf (queueCleen q)"
  by (simp add: queue_wf_def queueCleen_def cells_def rpos_def clients_at_def MAX_CLIENT_NUM_def
      split: RefreshRate.splits)

lemma queueCleen_empty [simp]: "clients_at r (queueCleen q) = []"
  by (simp add: clients_at_def cells_def queueCleen_def MAX_CLIENT_NUM_def split: RefreshRate.splits)

lemma find_free_from:
  assumes "length xs \<le> MAX_CLIENT_NUM" and "-1 \<notin> set xs" and "p \<le> length xs" and "p < MAX_CLIENT_NUM"
  shows "find_free (xs @ replicate (MAX_CLIENT_NUM - length xs) (-1)) p
       = (if length xs < MAX_CLIENT_NUM then Some (length xs) else None)"
  using assms(3,4)
proof (induction "MAX_CLIENT_NUM - p" arbitrary: p)
  case 0
  then show ?case by simp
next
  case (Suc k)
  let ?l = "xs @ replicate (MAX_CLIENT_NUM - length xs) (-1)"
  show ?case
  proof (cases "p = length xs")
    case True
    with Suc.prems show ?thesis by (subst find_free.simps) (simp add: nth_append)
  next
    case False
    with Suc.prems(1) have p: "p < length xs" by simp
    with assms(2) have "?l ! p \<noteq> -1" by (metis nth_append nth_mem)
    then show ?thesis
      using Suc p assms(1) by (subst find_free.simps) (auto simp: MAX_CLIENT_NUM_def)
  qed
qed

lemma find_free_queue:
  "queue_wf q \<Longrightarrow> find_free (cells r q) 0 =
     (if length (clients_at r q) < MAX_CLIENT_NUM then Some (length (clients_at r q)) else None)"
  using find_free_from [of "clients_at r q" 0] clients_at_le [of q r] clients_at_no_marker [of r q]
  unfolding queue_wf_def by (metis MAX_CLIENT_NUM_def le0 zero_less_numeral)

text \<open>The three cases of \<^verbatim>\<open>queueAdd\<close> as one.\<close>

definition set_cells :: "RefreshRate \<Rightarrow> int list \<Rightarrow> ClientQueue \<Rightarrow> ClientQueue" where
  "set_cells r xs q = (case r of RR_100ms \<Rightarrow> q\<lparr>rate_100ms := xs\<rparr> | RR_1s \<Rightarrow> q\<lparr>rate_1s := xs\<rparr>
     | RR_1m \<Rightarrow> q\<lparr>rate_1m := xs\<rparr>)"

definition set_rpos :: "RefreshRate \<Rightarrow> int \<Rightarrow> ClientQueue \<Rightarrow> ClientQueue" where
  "set_rpos r i q = (case r of RR_100ms \<Rightarrow> q\<lparr>pos_100ms := i\<rparr> | RR_1s \<Rightarrow> q\<lparr>pos_1s := i\<rparr>
     | RR_1m \<Rightarrow> q\<lparr>pos_1m := i\<rparr>)"

lemma cells_set [simp]:
  "cells r (set_cells r' xs q) = (if r = r' then xs else cells r q)"
  "rpos r (set_cells r' xs q) = rpos r q"
  "cells r (set_rpos r' i q) = cells r q"
  "rpos r (set_rpos r' i q) = (if r = r' then i else rpos r q)"
  by (cases r; cases r'; simp add: cells_def rpos_def set_cells_def set_rpos_def)+

lemma clients_at_set_rpos [simp]: "clients_at r (set_rpos r' i q) = clients_at r q"
  by (simp add: clients_at_def)

lemma set_rpos_wf [wf_intros]:
  "queue_wf q \<Longrightarrow> 0 \<le> i \<Longrightarrow> i < int MAX_CLIENT_NUM \<Longrightarrow> queue_wf (set_rpos r i q)"
  unfolding queue_wf_def by simp

lemma queueAdd_free:
  "find_free (cells r q) 0 = Some n \<Longrightarrow>
     queueAdd E r i q s = (True, set_cells r ((cells r q)[n := i]) q, s)"
  by (cases r) (simp_all add: queueAdd_def cells_def set_cells_def)

lemma queueAdd_full:
  "find_free (cells r q) 0 = None \<Longrightarrow>
     fst (queueAdd E r i q s) = False \<and> fst (snd (queueAdd E r i q s)) = q"
  by (cases r) (simp_all add: queueAdd_def cells_def)

lemma os_le_queueAdd [simp, intro!]: "os_le s t \<Longrightarrow> os_le s (snd (snd (queueAdd E r i q t)))"
  by (cases r) (auto simp: queueAdd_def split: option.splits)

lemma queueGetFirst_eq:
  "queueGetFirst r q s = (fst (read_cell (cells r q) 0 s), set_rpos r 0 q, snd (read_cell (cells r q) 0 s))"
  by (cases r) (simp_all add: queueGetFirst_def cells_def set_rpos_def split_beta Let_def)

lemma queueGetNext_eq:
  "queueGetNext r q s =
     (if rpos r q + 1 = int MAX_CLIENT_NUM then (-1, set_rpos r 0 q, s)
      else (fst (read_cell (cells r q) (rpos r q + 1) s), set_rpos r (rpos r q + 1) q,
            snd (read_cell (cells r q) (rpos r q + 1) s)))"
  by (cases r) (simp_all add: queueGetNext_def cells_def rpos_def set_rpos_def split_beta Let_def)

lemma queueAdd_result:
  assumes "queue_wf q" and "i \<noteq> -1" and "queueAdd E r i q s = (ok, q', s')"
  shows "ok \<longleftrightarrow> length (clients_at r q) < MAX_CLIENT_NUM"
    and "ok \<Longrightarrow> s' = s"
    and "queue_wf q'"
    and "clients_at r' q' = (if ok \<and> r' = r then clients_at r q @ [i] else clients_at r' q)"
proof -
  let ?c = "clients_at r q"
  note shape = cells_shape [OF assms(1)]
  have new: "(cells r q)[length ?c := i]
      = (?c @ [i]) @ replicate (MAX_CLIENT_NUM - length (?c @ [i])) (-1)"
    if "length ?c < MAX_CLIENT_NUM"
    by (subst shape) (use that in \<open>simp add: list_update_append_replicate\<close>)
  have taken: "takeWhile (\<lambda>x. x \<noteq> -1) ((?c @ [i]) @ replicate n (-1)) = ?c @ [i]" for n
    using assms(2) clients_at_no_marker [of r q]
    by (subst takeWhile_replicate_stop) (rule takeWhile_id, auto)
  note free = find_free_queue [OF assms(1), of r]
  show ok: "ok \<longleftrightarrow> length ?c < MAX_CLIENT_NUM"
    using assms(3) free queueAdd_free [of r q _ E i s] queueAdd_full [of r q E i s]
    by (cases "length ?c < MAX_CLIENT_NUM") auto
  show "ok \<Longrightarrow> s' = s" using assms(3) free queueAdd_free [of r q _ E i s] ok by auto
  have q': "q' = (if ok then set_cells r ((cells r q)[length ?c := i]) q else q)"
    using assms(3) free queueAdd_free [of r q _ E i s] queueAdd_full [of r q E i s] ok by auto
  show cl: "clients_at r' q' = (if ok \<and> r' = r then clients_at r q @ [i] else clients_at r' q)" for r'
    using ok new taken by (auto simp: q' clients_at_def)
  show "queue_wf q'"
  proof (cases ok)
    case True
    then have n: "length ?c < MAX_CLIENT_NUM" using ok by simp
    have "cells r' q' = (if r' = r then (?c @ [i]) @ replicate (MAX_CLIENT_NUM - length (?c @ [i])) (-1)
        else cells r' q)" for r'
      using True new [OF n] by (simp add: q')
    moreover have "rpos r' q' = rpos r' q" for r' using True by (simp add: q')
    ultimately show ?thesis
      unfolding queue_wf_def cl using True n assms(1) shape
      by (auto simp: queue_wf_def)
  next
    case False
    with q' assms(1) show ?thesis by simp
  qed
qed

text \<open>
  C14. Adding to a well-formed queue appends the client to the list of its rate and leaves the
  other rates alone, as long as that list has fewer than 50 clients; a full list is left
  unchanged and the refusal is reported.  Well-formedness is kept.
\<close>

theorem queueAdd_appends:
  assumes "queue_wf q" and "i \<noteq> -1"
  shows "case queueAdd E r i q s of (ok, q', s') \<Rightarrow>
      ok = (length (clients_at r q) < MAX_CLIENT_NUM) \<and> queue_wf q'
      \<and> (\<forall>r'. clients_at r' q' = (if ok \<and> r' = r then clients_at r q @ [i] else clients_at r' q))"
proof -
  obtain ok q' s' where run: "queueAdd E r i q s = (ok, q', s')" by (metis prod_cases3)
  show ?thesis using queueAdd_result(1,3,4) [OF assms run] by (auto simp: run)
qed

theorem queueAdd_appends_witness:
  "case queueAdd quiet_env RR_1s 3 (queueCleen queue0) (io0 (\<lambda>_. None)) of (ok, q', s') \<Rightarrow>
     ok \<and> clients_at RR_1s q' = [3] \<and> clients_at RR_1m q' = []"
  using queueAdd_appends [of "queueCleen queue0" 3 RR_1s quiet_env "io0 (\<lambda>_. None)"]
  by (auto simp: MAX_CLIENT_NUM_def)

section \<open>Visiting the clients of a rate\<close>

text \<open>
  The \<^verbatim>\<open>while(true)\<close> loops of \<^verbatim>\<open>main\<close> over a refresh rate: take the first client, then the next one
  until the end marker, and run the body for each.  The loop has no bound of its own, so it is
  a partial function: \<open>None\<close> would be a loop that does not end.
\<close>

partial_function (option) survey_loop ::
    "('q \<Rightarrow> io \<Rightarrow> int \<times> 'q \<times> io) \<Rightarrow> (int \<Rightarrow> 'x \<times> io \<Rightarrow> 'x \<times> io)
     \<Rightarrow> int \<Rightarrow> 'q \<Rightarrow> 'x \<times> io \<Rightarrow> ('q \<times> 'x \<times> io) option" where
  "survey_loop get_next body i q x =
     (if i = -1 then Some (q, x)
      else
        (let x' = body i x;
             (j, q', s') = get_next q (snd x')
         in survey_loop get_next body j q' (fst x', s')))"

definition survey :: "('q \<Rightarrow> io \<Rightarrow> int \<times> 'q \<times> io) \<Rightarrow> ('q \<Rightarrow> io \<Rightarrow> int \<times> 'q \<times> io)
    \<Rightarrow> (int \<Rightarrow> 'x \<times> io \<Rightarrow> 'x \<times> io) \<Rightarrow> 'q \<Rightarrow> 'x \<times> io \<Rightarrow> ('q \<times> 'x \<times> io) option" where
  "survey get_first get_next body q x =
     (let (i, q', s') = get_first q (snd x) in survey_loop get_next body i q' (fst x, s'))"

text \<open>What the loop relies on: a source that delivers the elements of a list one by one.\<close>

locale survey_source =
  fixes get_first get_next :: "'q \<Rightarrow> io \<Rightarrow> int \<times> 'q \<times> io"
    and items :: "'q \<Rightarrow> int list" and at :: "'q \<Rightarrow> nat" and ok :: "'q \<Rightarrow> bool" and obs :: "'q \<Rightarrow> 'o"
  assumes first: "ok q \<Longrightarrow> \<exists>q'. get_first q s = ((if items q = [] then -1 else items q ! 0), q', s)
        \<and> ok q' \<and> items q' = items q \<and> obs q' = obs q \<and> at q' = 0"
    and more: "ok q \<Longrightarrow> at q < length (items q) \<Longrightarrow>
        if Suc (at q) < length (items q)
        then \<exists>q'. get_next q s = (items q ! Suc (at q), q', s)
               \<and> ok q' \<and> items q' = items q \<and> obs q' = obs q \<and> at q' = Suc (at q)
        else \<exists>q'. get_next q s = (-1, q', s) \<and> ok q' \<and> items q' = items q \<and> obs q' = obs q"
    and no_marker: "-1 \<notin> set (items q)"
begin

lemma survey_loop_rest:
  "ok q \<Longrightarrow> at q < length (items q) \<Longrightarrow>
   \<exists>q'. survey_loop get_next body (items q ! at q) q x = Some (q', fold body (drop (at q) (items q)) x)
      \<and> ok q' \<and> obs q' = obs q"
proof (induction "length (items q) - at q" arbitrary: q x rule: less_induct)
  case less
  let ?i = "items q ! at q"
  let ?s = "snd (body ?i x)"
  have i: "?i \<noteq> -1" using no_marker [of q] less.prems(2) by (metis nth_mem)
  have unfold: "survey_loop get_next body ?i q x =
      (let (j, q', s') = get_next q ?s in survey_loop get_next body j q' (fst (body ?i x), s'))"
    using i by (subst survey_loop.simps) (simp add: Let_def)
  have split: "drop (at q) (items q) = ?i # drop (Suc (at q)) (items q)"
    using less.prems(2) by (simp add: Cons_nth_drop_Suc)
  show ?case
  proof (cases "Suc (at q) < length (items q)")
    case True
    then obtain q' where n: "get_next q ?s = (items q ! Suc (at q), q', ?s)"
      and q': "ok q'" "items q' = items q" "at q' = Suc (at q)" "obs q' = obs q"
      using more [OF less.prems] by meson
    from less.hyps [of q' "(fst (body ?i x), ?s)"] q' True
    show ?thesis by (auto simp: unfold n split)
  next
    case False
    then obtain q' where "get_next q ?s = (-1, q', ?s)" "ok q'" "obs q' = obs q"
      using more [OF less.prems] by meson
    with False show ?thesis
      by (auto simp: unfold split survey_loop.simps [of _ _ "-1"])
  qed
qed

lemma survey_visits_all:
  assumes "ok q"
  shows "\<exists>q'. survey get_first get_next body q x = Some (q', fold body (items q) x)
      \<and> ok q' \<and> obs q' = obs q"
proof -
  obtain q' where f: "get_first q (snd x) = ((if items q = [] then -1 else items q ! 0), q', snd x)"
    and q': "ok q'" "items q' = items q" "at q' = 0" "obs q' = obs q"
    using first [OF assms] by blast
  show ?thesis
  proof (cases "items q = []")
    case True
    then show ?thesis using f q' by (auto simp: survey_def survey_loop.simps)
  next
    case False
    then show ?thesis using survey_loop_rest [OF q'(1), of body x] f q' by (auto simp: survey_def)
  qed
qed

end

lemma read_cell_in [simp]:
  "0 \<le> i \<Longrightarrow> i < int MAX_CLIENT_NUM \<Longrightarrow> read_cell xs i s = (xs ! nat i, s)"
  by (simp add: read_cell_def)

interpretation rate: survey_source "queueGetFirst r" "queueGetNext r" "clients_at r"
    "\<lambda>q. nat (rpos r q)" queue_wf "\<lambda>q r'. clients_at r' q"
proof
  fix q s
  assume wf: "queue_wf q"
  show "\<exists>q'. queueGetFirst r q s = ((if clients_at r q = [] then -1 else clients_at r q ! 0), q', s)
      \<and> queue_wf q' \<and> clients_at r q' = clients_at r q
      \<and> (\<lambda>r'. clients_at r' q') = (\<lambda>r'. clients_at r' q) \<and> nat (rpos r q') = 0"
    using wf cells_nth [OF wf, of 0 r] set_rpos_wf [OF wf, of 0 r]
    by (simp add: queueGetFirst_eq MAX_CLIENT_NUM_def)
next
  fix q s
  assume wf: "queue_wf q" and at: "nat (rpos r q) < length (clients_at r q)"
  have p: "0 \<le> rpos r q" "rpos r q < int MAX_CLIENT_NUM" using wf by (simp_all add: queue_wf_def)
  have le: "length (clients_at r q) \<le> MAX_CLIENT_NUM" using wf by (rule clients_at_le)
  let ?p = "rpos r q + 1"
  have next_in: "queueGetNext r q s = (cells r q ! nat ?p, set_rpos r ?p q, s)"
    if "?p \<noteq> int MAX_CLIENT_NUM" using that p by (simp add: queueGetNext_eq)
  show "if Suc (nat (rpos r q)) < length (clients_at r q)
      then \<exists>q'. queueGetNext r q s = (clients_at r q ! Suc (nat (rpos r q)), q', s)
             \<and> queue_wf q' \<and> clients_at r q' = clients_at r q
             \<and> (\<lambda>r'. clients_at r' q') = (\<lambda>r'. clients_at r' q)
             \<and> nat (rpos r q') = Suc (nat (rpos r q))
      else \<exists>q'. queueGetNext r q s = (-1, q', s) \<and> queue_wf q' \<and> clients_at r q' = clients_at r q
             \<and> (\<lambda>r'. clients_at r' q') = (\<lambda>r'. clients_at r' q)"
    using next_in p le cells_nth [OF wf, of "nat ?p" r] set_rpos_wf [OF wf, of ?p r]
      set_rpos_wf [OF wf, of 0 r]
    by (cases "?p = int MAX_CLIENT_NUM")
      (auto simp: queueGetNext_eq nat_add_distrib MAX_CLIENT_NUM_def)
next
  fix q show "-1 \<notin> set (clients_at r q)" by (rule clients_at_no_marker)
qed

text \<open>
  The survey of a refresh rate ends, and it runs its body exactly once for every client of
  that rate, in the order in which the clients were added; the lists of all rates stay as they
  were.
\<close>

lemma survey_visits_each_client_once:
  assumes "queue_wf q"
  shows "\<exists>q'. survey (queueGetFirst r) (queueGetNext r) body q x
             = Some (q', fold body (clients_at r q) x)
           \<and> queue_wf q' \<and> (\<lambda>r'. clients_at r' q') = (\<lambda>r'. clients_at r' q)"
  using assms by (rule rate.survey_visits_all)

definition two_clients :: ClientQueue where
  "two_clients = (queueCleen queue0)\<lparr>rate_1s := [3, 5] @ replicate 48 (-1)\<rparr>"

lemma two_clients_sel [simp]:
  "clients_at RR_1s two_clients = [3, 5]" "clients_at RR_1m two_clients = []"
  "clients_at RR_100ms two_clients = []" "queue_wf two_clients"
  by code_simp+

lemma survey_visits_each_client_once_example:
  "\<exists>q'. survey (queueGetFirst RR_1s) (queueGetNext RR_1s) (\<lambda>i (l, s). (l @ [i], s)) two_clients
       ([], io0 (\<lambda>_. None)) = Some (q', ([3, 5], io0 (\<lambda>_. None)))"
  using survey_visits_each_client_once [of two_clients RR_1s "\<lambda>i (l, s). (l @ [i], s)"
      "([], io0 (\<lambda>_. None))"] by auto

end
