(* ===== verification/TsData.thy ===== *)
theory TsData
  imports Logger ModuleConst
begin

text \<open>
  \<^verbatim>\<open>ts_data.c\<close>: the records that are sent, and their rendering as one JSON object into a buffer
  of fixed size.  The unchecked \<^verbatim>\<open>sprintf\<close> calls are modelled with the buffer's capacity: a
  write past its end is a fault.
\<close>

section \<open>Data\<close>

definition DATA_ERR_SUCCESS :: int where "DATA_ERR_SUCCESS = 0"
definition DATA_ERR_CONF_LOOKUP :: int where "DATA_ERR_CONF_LOOKUP = 1"
definition DATA_ERR_COUNT :: int where "DATA_ERR_COUNT = 2"
definition DATA_ERR_JSON :: int where "DATA_ERR_JSON = 3"
definition DATA_ERR_TYPE :: int where "DATA_ERR_TYPE = 4"
definition DATA_ERR_BUF :: int where "DATA_ERR_BUF = 5"
definition DATA_MAX_LINE_LEN :: int where "DATA_MAX_LINE_LEN = 100"

record t_data =
  td_alias :: "string option"
  td_type :: int
  b_data :: bool
  i_data :: int32
  l_data :: long64
  d_data :: double
  ch_data :: string

definition t_data_zero :: t_data where
  "t_data_zero = \<lparr>td_alias = None, td_type = 0, b_data = False, i_data = 0, l_data = 0, d_data = 0,
     ch_data = []\<rparr>"

section \<open>Reading the data section of the configuration\<close>

definition init_count :: "config_t \<Rightarrow> int \<Rightarrow> int \<times> int" where
  "init_count cfg count = (case config_lookup cfg ''data'' of
      Some data_conf \<Rightarrow> (DATA_ERR_SUCCESS, config_setting_length cfg data_conf)
    | None \<Rightarrow> (DATA_ERR_CONF_LOOKUP, count))"

fun parse_type_alias :: "string \<Rightarrow> int option" where
  "parse_type_alias s =
     (if s = ''bool'' then Some TS_BOOL
      else if s = ''int'' then Some TS_INT
      else if s = ''long int'' then Some TS_LINT
      else if s = ''double'' then Some TS_DOUBLE
      else if s = ''*char'' then Some TS_CHAR
      else None)"

text \<open>
  The loop keeps the pointer \<^verbatim>\<open>type_alias\<close> from round to round: a missing type repeats the
  previous one, and reads an uninitialised pointer in the first round.
\<close>

fun init_data_loop :: "config_t \<Rightarrow> config_setting_t \<Rightarrow> nat \<Rightarrow> nat \<Rightarrow> string option
    \<Rightarrow> t_data list \<Rightarrow> io \<Rightarrow> int \<times> t_data list \<times> io" where
  "init_data_loop cfg data_conf i 0 type_alias data s = (DATA_ERR_SUCCESS, data, s)"
| "init_data_loop cfg data_conf i (Suc n) type_alias data s =
     (let data_one = config_setting_get_elem cfg data_conf (int i);
          s = ub_if (length data \<le> i) Out_Of_Bounds s;
          (a, s) = lookup_string cfg data_one ''alias'' s;
          data = (if a = None then data else data[i := (data ! i)\<lparr>td_alias := a\<rparr>]);
          (ta, s) = lookup_string cfg data_one ''type'' s;
          type_alias = (if ta = None then type_alias else ta)
      in case type_alias of
           None \<Rightarrow> (DATA_ERR_TYPE, data, ub Uninitialised s)
         | Some t \<Rightarrow> (case parse_type_alias t of
               None \<Rightarrow> (DATA_ERR_TYPE, data, s)
             | Some k \<Rightarrow> init_data_loop cfg data_conf (Suc i) n type_alias
                 (data[i := (data ! i)\<lparr>td_type := k\<rparr>]) s))"

definition init_data :: "config_t \<Rightarrow> t_data list \<Rightarrow> io \<Rightarrow> int \<times> t_data list \<times> io" where
  "init_data cfg data s = (case config_lookup cfg ''data'' of
      Some data_conf \<Rightarrow>
        (let count = config_setting_length cfg data_conf in
         if count = 0 then (DATA_ERR_COUNT, data, s)
         else init_data_loop cfg data_conf 0 (nat count) None data s)
    | None \<Rightarrow> (DATA_ERR_CONF_LOOKUP, data, s))"

section \<open>Rendering\<close>

definition QUOTE :: string where "QUOTE = [CHR 0x22]"

text \<open>What one \<^verbatim>\<open>sprintf\<close> of the loop writes; \<open>None\<close> is the default case of the switch.\<close>

definition json_field :: "t_data \<Rightarrow> string option" where
  "json_field d =
     (let key = QUOTE @ str_or_null (td_alias d) @ QUOTE @ '':'' in
      if td_type d = TS_BOOL then Some (key @ (if b_data d then ''1'' else ''0'') @ '','')
      else if td_type d = TS_INT then Some (key @ fmt_d (i_data d) @ '','')
      else if td_type d = TS_LINT then Some (key @ fmt_d (l_data d) @ '','')
      else if td_type d = TS_DOUBLE then Some (key @ QUOTE @ fmt_f (d_data d) @ QUOTE @ '','')
      else if td_type d = TS_CHAR then Some (key @ QUOTE @ ch_data d @ QUOTE @ '','')
      else None)"

fun json_loop :: "env \<Rightarrow> nat \<Rightarrow> t_data list \<Rightarrow> string \<Rightarrow> io \<Rightarrow> int \<times> string \<times> io" where
  "json_loop E buf_len [] buf s =
     (let buf = take (length buf - 1) buf @ ''}''
      in (DATA_ERR_SUCCESS, buf, ub_if (buf_len < length buf + 1) Buffer_Overflow s))"
| "json_loop E buf_len (d # ds) buf s = (case json_field d of
      None \<Rightarrow> (3, buf, s)
    | Some t \<Rightarrow>
        (let s = ub_if (td_type d = TS_CHAR \<and> length (ch_data d) = MAX_OPC_STR_LEN) Out_Of_Bounds s;
             buf = buf @ t;
             s = ub_if (buf_len < length buf + 1) Buffer_Overflow s
         in if int buf_len - DATA_MAX_LINE_LEN \<le> int (length buf) \<and> ds \<noteq> [] then
              (DATA_ERR_BUF, buf, log_info E (''Too small buff, got '' @ dec_int (int buf_len)
                 @ '', need '' @ dec_int (int buf_len + DATA_MAX_LINE_LEN)) s)
            else json_loop E buf_len ds buf s))"

definition get_json :: "env \<Rightarrow> nat \<Rightarrow> t_data list \<Rightarrow> int \<Rightarrow> io \<Rightarrow> int \<times> string \<times> io" where
  "get_json E buf_len data count s =
     json_loop E buf_len (take (nat count) data) ''{''
       (ub_if (int (length data) < count) Out_Of_Bounds s)"

section \<open>The JSON object\<close>

text \<open>The text a reader expects: the members separated by commas between braces.\<close>

definition json_item :: "t_data \<Rightarrow> string" where
  "json_item d = butlast (the (json_field d))"

fun commas :: "string list \<Rightarrow> string" where
  "commas [] = []"
| "commas [x] = x"
| "commas (x # y # zs) = x @ '','' @ commas (y # zs)"

definition json_object :: "t_data list \<Rightarrow> string" where
  "json_object ds = ''{'' @ commas (map json_item ds) @ ''}''"

definition json_typed :: "t_data \<Rightarrow> bool" where
  "json_typed d \<longleftrightarrow> json_field d \<noteq> None"

lemma json_field_item: "json_field d = Some t \<Longrightarrow> t = json_item d @ '',''"
  by (auto simp: json_item_def json_field_def Let_def butlast_append split: if_splits)

lemma commas_terminated:
  "ds \<noteq> [] \<Longrightarrow> concat (map (\<lambda>d. json_item d @ '','') ds) = commas (map json_item ds) @ '',''"
proof (induction ds)
  case (Cons d ds)
  then show ?case by (cases ds) simp_all
qed simp

text \<open>What the loop has written when it comes to its end.\<close>

lemma json_loop_success:
  "json_loop E n ds buf s = (r, buf', s') \<Longrightarrow> r = DATA_ERR_SUCCESS \<Longrightarrow>
   (\<forall>d \<in> set ds. json_typed d)
   \<and> buf' = butlast (buf @ concat (map (\<lambda>d. json_item d @ '','') ds)) @ ''}''"
proof (induction ds arbitrary: buf s)
  case Nil
  then show ?case by (simp add: butlast_conv_take Let_def)
next
  case (Cons d ds)
  from Cons.prems obtain t where t: "json_field d = Some t"
    by (auto simp: DATA_ERR_SUCCESS_def split: option.splits)
  with Cons.prems obtain s1 where "json_loop E n ds (buf @ t) s1 = (r, buf', s')"
    by (auto simp: Let_def DATA_ERR_SUCCESS_def DATA_ERR_BUF_def split: if_splits)
  from Cons.IH [OF this Cons.prems(2)] t json_field_item [OF t] show ?case
    by (simp add: json_typed_def)
qed

lemma json_loop_completes:
  assumes "\<forall>d \<in> set ds. json_typed d"
    and "int (length (buf @ concat (map (\<lambda>d. json_item d @ '','') ds))) < int n - DATA_MAX_LINE_LEN"
  shows "fst (json_loop E n ds buf s) = DATA_ERR_SUCCESS"
  using assms
proof (induction ds arbitrary: buf s)
  case Nil
  then show ?case by (simp add: Let_def)
next
  case (Cons d ds)
  from Cons.prems obtain t where t: "json_field d = Some t" by (auto simp: json_typed_def)
  then have "t = json_item d @ '',''" by (rule json_field_item)
  with Cons t show ?case by (simp add: Let_def)
qed

lemma json_loop_no_fault:
  assumes "\<forall>d \<in> set ds. length (json_item d) < nat DATA_MAX_LINE_LEN
      \<and> length (ch_data d) < MAX_OPC_STR_LEN"
    and "length buf + 101 \<le> n" and "buf \<noteq> []" and "fault s = None"
    and "fst (json_loop E n ds buf s) \<noteq> DATA_ERR_BUF"
  shows "fault (snd (snd (json_loop E n ds buf s))) = None"
  using assms
proof (induction ds arbitrary: buf s)
  case Nil
  then show ?case by (simp add: Let_def)
next
  case (Cons d ds)
  show ?case
  proof (cases "json_field d")
    case None
    with Cons.prems show ?thesis by simp
  next
    case (Some t)
    then have t: "length t \<le> 100"
      using json_field_item [OF Some] Cons.prems(1) by (simp add: DATA_MAX_LINE_LEN_def)
    let ?s = "ub_if (td_type d = TS_CHAR \<and> length (ch_data d) = MAX_OPC_STR_LEN) Out_Of_Bounds s"
    have clean: "fault (ub_if (n < length (buf @ t) + 1) Buffer_Overflow ?s) = None"
      using Cons.prems(1,2,4) t by auto
    show ?thesis
    proof (cases "int n - DATA_MAX_LINE_LEN \<le> int (length (buf @ t)) \<and> ds \<noteq> []")
      case True
      with Cons.prems(5) Some show ?thesis by (simp add: Let_def)
    next
      case stop: False
      then have run: "json_loop E n (d # ds) buf s
          = json_loop E n ds (buf @ t) (ub_if (n < length (buf @ t) + 1) Buffer_Overflow ?s)"
        using Some by (auto simp: Let_def)
      show ?thesis
      proof (cases "ds = []")
        case True
        with run clean Cons.prems(2,3) t show ?thesis by (simp add: Let_def)
      next
        case False
        with stop have "length (buf @ t) + 101 \<le> n" by (simp add: DATA_MAX_LINE_LEN_def)
        from Cons.IH [OF _ this _ clean] Cons.prems(1,3,5)
        show ?thesis unfolding run by simp
      qed
    qed
  qed
qed

text \<open>
  C24. Whenever \<^verbatim>\<open>get_json\<close> reports success on at least one record, every record had a known type
  and the buffer holds exactly the JSON object of the records, members in order and separated by
  single commas.
\<close>

theorem get_json_success:
  assumes "0 < count" and "data \<noteq> []"
    and "get_json E buf_len data count s = (DATA_ERR_SUCCESS, buf, s')"
  shows "buf = json_object (take (nat count) data) \<and> (\<forall>d \<in> set (take (nat count) data). json_typed d)"
proof -
  let ?ds = "take (nat count) data"
  have "?ds \<noteq> []" using assms(1,2) by simp
  then have "concat (map (\<lambda>d. json_item d @ '','') ?ds) = commas (map json_item ?ds) @ '',''"
    by (rule commas_terminated)
  with json_loop_success [OF assms(3) [unfolded get_json_def] refl] show ?thesis
    by (simp add: json_object_def butlast_append)
qed

definition sample_data :: "t_data list" where
  "sample_data = [t_data_zero\<lparr>td_alias := Some ''run'', td_type := TS_INT, i_data := 42\<rparr>,
     t_data_zero\<lparr>td_alias := Some ''snr'', td_type := TS_CHAR, ch_data := ''X1''\<rparr>]"

lemma sample_json:
  "get_json quiet_env 1000 sample_data 2 (io0 (\<lambda>_. None))
     = (0, ''{'' @ QUOTE @ ''run'' @ QUOTE @ '':42,'' @ QUOTE @ ''snr'' @ QUOTE @ '':'' @ QUOTE
        @ ''X1'' @ QUOTE @ ''}'', io0 (\<lambda>_. None))"
  by (simp add: get_json_def sample_data_def json_field_def t_data_zero_def Let_def QUOTE_def
      TS_INT_def TS_BOOL_def TS_LINT_def TS_DOUBLE_def TS_CHAR_def MAX_OPC_STR_LEN_def
      DATA_MAX_LINE_LEN_def DATA_ERR_SUCCESS_def str_or_null_def fmt_d_def dec_int_def
      dec_nat.simps digit_char_def ub_if_def)

theorem get_json_success_witness:
  "json_object sample_data
     = ''{'' @ QUOTE @ ''run'' @ QUOTE @ '':42,'' @ QUOTE @ ''snr'' @ QUOTE @ '':'' @ QUOTE @ ''X1'' @ QUOTE @ ''}''"
  using get_json_success [of 2 sample_data quiet_env 1000 "io0 (\<lambda>_. None)", unfolded DATA_ERR_SUCCESS_def,
      OF _ _ sample_json]
  by (simp add: sample_data_def)



definition long_text :: t_data where
  "long_text = t_data_zero\<lparr>td_alias := Some ''snr'', td_type := TS_CHAR, ch_data := replicate 486 (CHR ''x'')\<rparr>"

lemma long_text_field: "\<exists>t. json_field long_text = Some t \<and> length t = 495"
  by (simp add: long_text_def json_field_def Let_def str_or_null_def QUOTE_def
      TS_INT_def TS_BOOL_def TS_LINT_def TS_DOUBLE_def TS_CHAR_def)

lemma long_text_step:
  assumes "length buf \<le> 2476" and "ds \<noteq> []"
  shows "\<exists>t. length t = 495 \<and> json_loop E MAX_BUF (long_text # ds) buf s = json_loop E MAX_BUF ds (buf @ t) s"
proof -
  obtain t where t: "json_field long_text = Some t" "length t = 495" using long_text_field by blast
  have "length (ch_data long_text) \<noteq> MAX_OPC_STR_LEN" by (simp add: long_text_def MAX_OPC_STR_LEN_def)
  with t assms show ?thesis
    by (intro exI [of _ t]) (auto simp: MAX_BUF_def DATA_MAX_LINE_LEN_def)
qed

lemma long_text_run:
  assumes "length buf + 495 * n \<le> 2971" and "ds \<noteq> []"
  shows "\<exists>b. length b = length buf + 495 * n
      \<and> json_loop E MAX_BUF (replicate n long_text @ ds) buf s = json_loop E MAX_BUF ds b s"
  using assms(1)
proof (induction n arbitrary: buf)
  case (Suc n)
  have "length buf \<le> 2476" "replicate n long_text @ ds \<noteq> []" using Suc.prems assms(2) by simp_all
  then obtain t where t: "length t = 495"
    "json_loop E MAX_BUF (long_text # (replicate n long_text @ ds)) buf s
       = json_loop E MAX_BUF (replicate n long_text @ ds) (buf @ t) s"
    using long_text_step by blast
  moreover obtain b where "length b = length (buf @ t) + 495 * n"
    "json_loop E MAX_BUF (replicate n long_text @ ds) (buf @ t) s = json_loop E MAX_BUF ds b s"
    using Suc.IH [of "buf @ t"] Suc.prems t by auto
  ultimately show ?case
    by (intro exI [of _ b]) (simp del: json_loop.simps)
qed auto

lemma long_text_last:
  assumes "length buf = 2971" and "fault s = None"
  shows "fault (snd (snd (json_loop E MAX_BUF [long_text] buf s))) = Some Buffer_Overflow"
proof -
  obtain t where t: "json_field long_text = Some t" "length t = 495" using long_text_field by blast
  have "length (ch_data long_text) \<noteq> MAX_OPC_STR_LEN" by (simp add: long_text_def MAX_OPC_STR_LEN_def)
  with t assms show ?thesis by (simp add: Let_def MAX_BUF_def ub_if_def ub_def)
qed

text \<open>
  The line allowance of 100 characters does not cover text members, which may have 499
  characters: seven records with a 486 character text, each far below the limit of
  \<^verbatim>\<open>MAX_OPC_STR_LEN\<close>, overflow the 3072 characters of \<^verbatim>\<open>send_buf\<close>, because the check
  only runs after a line that still fitted.
\<close>

lemma get_json_overflows:
  "fault (snd (snd (get_json E MAX_BUF (replicate 6 long_text @ [long_text]) 7 (io0 fs)))) = Some Buffer_Overflow"
proof -
  obtain b where "length b = 2971"
    "json_loop E MAX_BUF (replicate 6 long_text @ [long_text]) ''{'' (io0 fs)
       = json_loop E MAX_BUF [long_text] b (io0 fs)"
    using long_text_run [of "''{''" 6 "[long_text]" E "io0 fs"] by auto
  moreover have "fault (io0 fs) = None" by (simp add: io0_def)
  ultimately show ?thesis by (simp add: get_json_def long_text_last del: json_loop.simps)
qed

end
