(* ===== verification/MqttConnect.thy ===== *)
theory MqttConnect
  imports Logger ModuleConst
begin

text \<open>
  \<^verbatim>\<open>mqtt_connect.c\<close>: the connection to the MQTT broker through libmosquitto.  The settings are
  read into a local structure that is not initialised; a lookup that fails leaves its member
  unset, which is \<open>None\<close> here, and passing it on is a fault.
\<close>

section \<open>State\<close>

record mqtt_t =
  mosq :: "nat option"
  pMqttTopic :: "string option"

definition mqtt0 :: mqtt_t where
  "mqtt0 = \<lparr>mosq = None, pMqttTopic = None\<rparr>"

record mqttServerSetting =
  host :: "string option"
  port :: "int option"
  login :: "string option"
  passwd :: "string option"
  ssl_crt :: "string option"

definition unset_setting :: mqttServerSetting where
  "unset_setting = \<lparr>host = None, port = None, login = None, passwd = None, ssl_crt = None\<rparr>"

section \<open>Operations\<close>

definition read_setting :: "config_t \<Rightarrow> mqtt_t \<Rightarrow> io \<Rightarrow> mqttServerSetting \<times> mqtt_t \<times> io" where
  "read_setting cfg m s = (case config_lookup cfg ''mqtt'' of
      None \<Rightarrow> (unset_setting, m, s)
    | Some mqtt_conf \<Rightarrow>
        (let count = config_setting_length cfg mqtt_conf;
             s = printf_c (''mqtt_conf '' @ dec_int count @ [NL]) s;
             cloud = config_setting_get_elem cfg mqtt_conf 0;
             (h, s) = lookup_string cfg cloud ''host'' s;
             (l, s) = lookup_string cfg cloud ''login'' s;
             (p, s) = lookup_string cfg cloud ''passwd'' s;
             (c, s) = lookup_string cfg cloud ''ssl_crt'' s;
             (n, s) = lookup_int cfg cloud ''port'' s;
             (t, s) = lookup_string cfg cloud ''topic'' s
         in (\<lparr>host = h, port = n, login = l, passwd = p, ssl_crt = c\<rparr>,
             if t = None then m else m\<lparr>pMqttTopic := t\<rparr>, s)))"

definition the_or :: "'a \<Rightarrow> 'a option \<Rightarrow> 'a" where
  "the_or d v = (case v of None \<Rightarrow> d | Some x \<Rightarrow> x)"

definition mqtt_connect_steps :: "env \<Rightarrow> nat \<Rightarrow> mqttServerSetting \<Rightarrow> io \<Rightarrow> int \<times> io" where
  "mqtt_connect_steps E h st s =
     (let s = ub_if (login st = None \<or> passwd st = None) Uninitialised s;
          s = emit (Mosq (C_mosquitto_username_pw_set h (the_or [] (login st)) (the_or [] (passwd st)))) s;
          s = ub_if (ssl_crt st = None) Uninitialised s;
          (r, s) = ext E (Mosq (C_mosquitto_tls_set h (the_or [] (ssl_crt st)))) s
      in if r \<noteq> 0 then (1, printf_c (''set ssl failed '' @ dec_int r @ [NL]) s)
         else
           (let (r, s) = ext E (Mosq (C_mosquitto_tls_insecure_set h)) s in
            if r \<noteq> 0 then (1, printf_c (''set insecure failed '' @ dec_int r @ [NL]) s)
            else
              (let s = ub_if (host st = None \<or> port st = None) Uninitialised s;
                   (r, s) = ext E (Mosq (C_mosquitto_connect h (the_or [] (host st)) (the_or 0 (port st)) 60)) s
               in if r \<noteq> 0 then (1, printf_c (''MQTT: Unable to connect.'' @ [NL]) s)
                  else
                    (let (r, s) = ext E (Mosq (C_mosquitto_loop_start h)) s in
                     if r \<noteq> 0 then (1, printf_c (''Unable to start loop: '' @ dec_int r @ [NL]) s)
                     else (0, s)))))"

definition mqtt_init :: "env \<Rightarrow> config_t \<Rightarrow> mqtt_t \<Rightarrow> io \<Rightarrow> int \<times> mqtt_t \<times> io" where
  "mqtt_init E cfg m s =
     (let (st, m, s) = read_setting cfg m s;
          s = emit (Mosq C_mosquitto_lib_init) s;
          (h, s) = ext_new E (Mosq C_mosquitto_new) s;
          m = m\<lparr>mosq := h\<rparr>
      in case h of
           None \<Rightarrow> (1, m, printf_c (''Error: Out of memory.'' @ [NL]) s)
         | Some x \<Rightarrow> (let (r, s) = mqtt_connect_steps E x st s in (r, m, s)))"

definition mqtt_send_topic :: "env \<Rightarrow> mqtt_t \<Rightarrow> string \<Rightarrow> string \<Rightarrow> io \<Rightarrow> int \<times> io" where
  "mqtt_send_topic E m msg topic s =
     (let (r, s) = ext E (Mosq (C_mosquitto_publish (mosq m) (Some topic) msg)) s
      in (r, printf_c (''mqtt_send error='' @ dec_int r @ [NL]) s))"

definition mqtt_send :: "env \<Rightarrow> mqtt_t \<Rightarrow> string \<Rightarrow> io \<Rightarrow> int \<times> io" where
  "mqtt_send E m msg s =
     (let (r, s) = ext E (Mosq (C_mosquitto_publish (mosq m) (pMqttTopic m) msg)) s
      in (r, printf_c (''mqtt_send error='' @ dec_int r @ [NL]) s))"

section \<open>Properties\<close>

lemma os_le_mqtt [simp, intro!]:
  "os_le u s \<Longrightarrow> os_le u (printf_c t s)"
  "os_le u s \<Longrightarrow> os_le u (snd (mqtt_send E m msg s))"
  "os_le u s \<Longrightarrow> os_le u (snd (mqtt_connect_steps E h st s))"
  by (simp_all add: printf_c_def mqtt_send_def mqtt_connect_steps_def Let_def split_beta)

lemma dev_calls_mqtt [simp]: "dev_calls (printf_c t s) = dev_calls s"
  by (simp add: printf_c_def)

text \<open>
  Without an \<^verbatim>\<open>mqtt\<close> section in the configuration, \<^verbatim>\<open>mqtt_init\<close> does not fail but goes on
  with the settings it never initialised, as soon as libmosquitto can allocate a client.
\<close>

lemma mqtt_init_without_section:
  assumes "config_lookup cfg ''mqtt'' = None"
    and "rc E (Mosq C_mosquitto_new # Mosq C_mosquitto_lib_init # calls s) \<noteq> 0"
  shows "fault (snd (snd (mqtt_init E cfg m s))) \<noteq> None"
proof -
  let ?s1 = "emit (Mosq C_mosquitto_new) (emit (Mosq C_mosquitto_lib_init) s)"
  obtain x where x: "ext_new E (Mosq C_mosquitto_new) (emit (Mosq C_mosquitto_lib_init) s) = (Some x, ?s1)"
    using assms(2) by (simp add: ext_new_def)
  have "mqtt_init E cfg m s = (let (r, s) = mqtt_connect_steps E x unset_setting ?s1
      in (r, m\<lparr>mosq := Some x\<rparr>, s))"
    using assms(1) by (simp add: mqtt_init_def read_setting_def x)
  moreover have "os_le (ub Uninitialised ?s1) (snd (mqtt_connect_steps E x unset_setting ?s1))"
    by (simp add: mqtt_connect_steps_def unset_setting_def ub_if_def Let_def split_beta)
  then have "fault (snd (mqtt_connect_steps E x unset_setting ?s1)) \<noteq> None"
    using os_le_no_fault ub_sel(4) by metis
  ultimately show ?thesis by (simp add: split_beta)
qed

definition no_sections :: config_t where
  "no_sections = \<lparr>config_lookup = (\<lambda>_. None), config_setting_length = (\<lambda>_. 0),
     config_setting_get_elem = (\<lambda>_ _. None), config_setting_lookup_int = (\<lambda>_ _. None),
     config_setting_lookup_string = (\<lambda>_ _. None)\<rparr>"

lemma mqtt_init_without_section_example:
  "fault (snd (snd (mqtt_init quiet_env no_sections mqtt0 (io0 (\<lambda>_. None))))) \<noteq> None"
  by (rule mqtt_init_without_section) (simp_all add: no_sections_def)

end
