(* ===== verification/ModbusConnect.thy ===== *)
theory ModbusConnect
  imports Logger ModuleConst
begin

text \<open>
  \<^verbatim>\<open>modbus_connect.c\<close>: one Modbus client over TCP or RTU.  The libmodbus context is a handle; what
  libmodbus, the sockets and the peers answer is up to the environment.
\<close>

section \<open>Data\<close>

definition MAX_RCV_DATA_LEN :: nat where "MAX_RCV_DATA_LEN = 10"

record ModbusData =
  md_len :: int
  md_data :: "uint16 list"

datatype ModbusProtocolType = MPT_TCP | MPT_RTU

record ModbusClient =
  mb_id :: int
  mb_port :: int
  mb_offset :: int
  registersToRead :: int
  baudRate :: int
  dataBit :: int
  stopBit :: int
  ipAdress :: "string option"
  device :: "string option"
  parity :: "string option"
  mb_context :: "nat option"
  protocolType :: ModbusProtocolType

definition ModbusClient_zero :: ModbusClient where
  "ModbusClient_zero = \<lparr>mb_id = 0, mb_port = 0, mb_offset = 0, registersToRead = 0, baudRate = 0,
     dataBit = 0, stopBit = 0, ipAdress = None, device = None, parity = None, mb_context = None,
     protocolType = MPT_TCP\<rparr>"

definition mb_LOG_E :: "env \<Rightarrow> int \<Rightarrow> string \<Rightarrow> string \<Rightarrow> io \<Rightarrow> io" where
  "mb_LOG_E E line fn message = log_error E ''modbus_connect.c'' line fn message"

text \<open>The two ways the messages name a client.\<close>

definition tcp_name :: "ModbusClient \<Rightarrow> string" where
  "tcp_name c = ''ip: '' @ str_or_null (ipAdress c) @ '', port: '' @ dec_int (mb_port c)"

definition rtu_name :: "ModbusClient \<Rightarrow> string" where
  "rtu_name c = ''device: '' @ str_or_null (device c) @ '', baud: '' @ dec_int (baudRate c)"

section \<open>Operations\<close>

text \<open>The probe of the server: a TCP connection that is opened and shut down, not closed.\<close>

definition checkServer :: "env \<Rightarrow> string option \<Rightarrow> int \<Rightarrow> io \<Rightarrow> bool \<times> io" where
  "checkServer E pIpAdress port s =
     (let (sockfd, s) = ext E (Sys C_socket) s in
      if sockfd < 0 then (False, mb_LOG_E E 28 ''checkServer'' ''Could not create socket'' s)
      else
        (let (r, s) = ext E (Sys (C_inet_pton pIpAdress)) (ub_if (pIpAdress = None) Null_Deref s) in
         if r \<le> 0 then (False, mb_LOG_E E 39 ''checkServer'' ''inet_pton error occured'' s)
         else
           (let (r, s) = ext E (Sys (C_connect sockfd pIpAdress port)) s in
            if r < 0 then (False, mb_LOG_E E 45 ''checkServer'' ''Socket connection fail'' s)
            else (True, emit (Sys (C_shutdown sockfd)) s))))"

definition modbus_strerror :: "env \<Rightarrow> io \<Rightarrow> string \<times> io" where
  "modbus_strerror E s = ext_str E (Modbus C_modbus_strerror) s"

definition modbusConnect_tcp :: "env \<Rightarrow> ModbusClient \<Rightarrow> io \<Rightarrow> bool \<times> ModbusClient \<times> io" where
  "modbusConnect_tcp E c s =
     (let (ctx, s) = ext_new E (Modbus (C_modbus_new_tcp (ipAdress c) (mb_port c))) s;
          c = c\<lparr>mb_context := ctx\<rparr>
      in case ctx of
           None \<Rightarrow> (False, c, mb_LOG_E E 73 ''modbusConnect''
                (''Unable to allocate libmodbus context for '' @ tcp_name c) s)
         | Some x \<Rightarrow>
             (let (up, s) = checkServer E (ipAdress c) (mb_port c) s in
              if \<not> up then
                (False, c, mb_LOG_E E 83 ''modbusConnect'' (''No connection to '' @ tcp_name c) s)
              else
                (let (r, s) = ext E (Modbus (C_modbus_connect x)) s;
                     s = (if r \<noteq> 0 then
                            (let (e, s) = modbus_strerror E s in
                             mb_LOG_E E 90 ''modbusConnect'' (''Modbus protocol connection error: ''
                               @ e @ '', for '' @ tcp_name c) s)
                          else s)
                 in (True, c, emit (Modbus (C_modbus_set_slave x (mb_id c))) s))))"

definition modbusConnect_rtu :: "env \<Rightarrow> ModbusClient \<Rightarrow> io \<Rightarrow> bool \<times> ModbusClient \<times> io" where
  "modbusConnect_rtu E c s =
     (let s = ub_if (parity c = None) Null_Deref s;
          par = (case parity c of Some (p # ps) \<Rightarrow> p | _ \<Rightarrow> NUL);
          (ctx, s) = ext_new E (Modbus (C_modbus_new_rtu (device c) (baudRate c) par (dataBit c) (stopBit c))) s;
          c = c\<lparr>mb_context := ctx\<rparr>
      in case ctx of
           None \<Rightarrow> (False, c, mb_LOG_E E 108 ''modbusConnect''
                (''Unable to allocate libmodbus context for '' @ rtu_name c) s)
         | Some x \<Rightarrow>
             (let s = emit (Modbus (C_modbus_set_slave x (mb_id c))) s;
                  (r, s) = ext E (Modbus (C_modbus_connect x)) s;
                  s = (if r \<noteq> 0 then
                         (let (e, s) = modbus_strerror E s in
                          mb_LOG_E E 121 ''modbusConnect'' (''Connection failed error: '' @ e
                            @ '', for mb client id: '' @ dec_int (mb_id c) @ '', '' @ rtu_name c) s)
                       else s)
              in (True, c, s)))"

definition modbusConnect :: "env \<Rightarrow> ModbusClient \<Rightarrow> io \<Rightarrow> bool \<times> ModbusClient \<times> io" where
  "modbusConnect E pClient s =
     (let pClient = pClient\<lparr>mb_context := None\<rparr> in
      case protocolType pClient of
        MPT_TCP \<Rightarrow> modbusConnect_tcp E pClient s
      | MPT_RTU \<Rightarrow> modbusConnect_rtu E pClient s)"

text \<open>
  The answer registers go into a zeroed array of 10; libmodbus answers -1 on a null context.
\<close>

definition modbusReceiveData :: "env \<Rightarrow> ModbusClient \<Rightarrow> io \<Rightarrow> bool \<times> ModbusData \<times> io" where
  "modbusReceiveData E c s =
     (let zeros = \<lparr>md_len = 0, md_data = replicate MAX_RCV_DATA_LEN 0\<rparr>;
          n = nat (registersToRead c);
          (r, regs, s) = (case mb_context c of
              None \<Rightarrow> (-1, [], s)
            | Some x \<Rightarrow>
                (let cl = Modbus (C_modbus_read_registers x (mb_offset c) (registersToRead c));
                     (r, s') = ext E cl s
                 in (r, take n (registers_r E (cl # calls s)), s')))
      in if r < 0 then
           (let (e, s) = modbus_strerror E s in
            (False, zeros,
             (case protocolType c of
                MPT_TCP \<Rightarrow> mb_LOG_E E 154 ''modbusReceiveData''
                  (''Recive data error: '' @ e @ '', from '' @ tcp_name c) s
              | MPT_RTU \<Rightarrow> mb_LOG_E E 160 ''modbusReceiveData''
                  (''Recive data error: '' @ e @ '', mb client id: '' @ dec_int (mb_id c) @ '', ''
                   @ rtu_name c @ '', offset: '' @ dec_int (mb_offset c)) s)))
         else
           (True, \<lparr>md_len = registersToRead c,
                   md_data = regs @ replicate (MAX_RCV_DATA_LEN - length regs) 0\<rparr>,
            ub_if (MAX_RCV_DATA_LEN < n) Buffer_Overflow s))"

definition modbusReconnect :: "env \<Rightarrow> ModbusClient \<Rightarrow> io \<Rightarrow> bool \<times> io" where
  "modbusReconnect E c s = (case mb_context c of
      Some x \<Rightarrow>
        (let (up, s) = (if protocolType c = MPT_TCP then checkServer E (ipAdress c) (mb_port c) s
                        else (True, s))
         in if \<not> up then
              (False, mb_LOG_E E 192 ''modbusReconnect'' (''No connection to '' @ tcp_name c) s)
            else
              (let (r, s) = ext E (Modbus (C_modbus_connect x)) s in
               if r \<noteq> 0 then
                 (let (e, s) = modbus_strerror E s in
                  (False, (case protocolType c of
                     MPT_TCP \<Rightarrow> mb_LOG_E E 202 ''modbusReconnect''
                       (''Modbus protocol connection failed: '' @ e @ '', for '' @ tcp_name c) s
                   | MPT_RTU \<Rightarrow> mb_LOG_E E 208 ''modbusReconnect''
                       (''Connection failed: '' @ e @ '', for mb client id '' @ dec_int (mb_id c)
                        @ '', '' @ rtu_name c) s)))
               else (True, emit (Modbus (C_modbus_set_slave x (mb_id c))) s)))
    | None \<Rightarrow>
        (False, (case protocolType c of
           MPT_TCP \<Rightarrow> mb_LOG_E E 224 ''modbusReconnect''
             (''No context, need reinit, client '' @ tcp_name c) s
         | MPT_RTU \<Rightarrow> mb_LOG_E E 230 ''modbusReconnect''
             (''No context, need reinit mb client id '' @ dec_int (mb_id c) @ '', '' @ rtu_name c) s)))"

definition modbusCloseConnection :: "ModbusClient \<Rightarrow> io \<Rightarrow> ModbusClient \<times> io" where
  "modbusCloseConnection c s = (case mb_context c of
      None \<Rightarrow> (c, s)
    | Some x \<Rightarrow> (c\<lparr>mb_context := None\<rparr>,
        emit (Modbus (C_modbus_free x)) (emit (Modbus (C_modbus_close x)) s)))"

section \<open>Properties\<close>

lemma os_le_modbus [simp, intro!]:
  "os_le u s \<Longrightarrow> os_le u (mb_LOG_E E line fn m s)"
  "os_le u s \<Longrightarrow> os_le u (snd (modbus_strerror E s))"
  "os_le u s \<Longrightarrow> os_le u (snd (checkServer E a p s))"
  by (simp_all add: mb_LOG_E_def modbus_strerror_def checkServer_def Let_def split_beta)

lemma os_le_modbus_ops [simp, intro!]:
  "os_le u s \<Longrightarrow> os_le u (snd (snd (modbusConnect E c s)))"
  "os_le u s \<Longrightarrow> os_le u (snd (snd (modbusReceiveData E c s)))"
  "os_le u s \<Longrightarrow> os_le u (snd (modbusReconnect E c s))"
  "os_le u s \<Longrightarrow> os_le u (snd (modbusCloseConnection c s))"
  by (simp_all add: modbusConnect_def modbusConnect_tcp_def modbusConnect_rtu_def modbusReceiveData_def
      modbusReconnect_def modbusCloseConnection_def Let_def split_beta
      split: option.splits ModbusProtocolType.splits list.splits)

lemma mb_dev_calls [simp]:
  "dev_calls (mb_LOG_E E line fn m s) = dev_calls s"
  "dev_calls (snd (modbus_strerror E s)) = Modbus C_modbus_strerror # dev_calls s"
  by (simp_all add: mb_LOG_E_def modbus_strerror_def)

text \<open>The probes answer, seen from the state the context was made in.\<close>

definition probe_ok :: "env \<Rightarrow> ModbusClient \<Rightarrow> io \<Rightarrow> bool" where
  "probe_ok E c s \<longleftrightarrow> (protocolType c = MPT_TCP \<longrightarrow> fst (checkServer E (ipAdress c) (mb_port c) s))"

definition after_probe :: "env \<Rightarrow> ModbusClient \<Rightarrow> io \<Rightarrow> io" where
  "after_probe E c s =
     (if protocolType c = MPT_TCP then snd (checkServer E (ipAdress c) (mb_port c) s) else s)"

lemma modbusConnect_context: "modbusConnect E c s = (ok, c', s') \<Longrightarrow> \<exists>x. c' = c\<lparr>mb_context := x\<rparr>"
  by (auto simp: modbusConnect_def modbusConnect_tcp_def modbusConnect_rtu_def Let_def split_beta
      split: option.splits ModbusProtocolType.splits if_splits)

text \<open>
  C35. \<^verbatim>\<open>modbusConnect\<close> succeeds exactly when a context could be allocated and, over TCP, the
  probe of the server succeeded: the answer of \<^verbatim>\<open>modbus_connect\<close> itself is only logged, so a
  serial line that cannot be opened counts as connected.
\<close>

theorem modbusConnect_result:
  "case modbusConnect E c s of (ok, c', s') \<Rightarrow>
     ok = (mb_context c' \<noteq> None
       \<and> probe_ok E c (emit (Modbus (C_modbus_new_tcp (ipAdress c) (mb_port c))) s))
     \<and> c' = c\<lparr>mb_context := mb_context c'\<rparr>"
  by (simp add: modbusConnect_def modbusConnect_tcp_def modbusConnect_rtu_def probe_ok_def Let_def split_beta
      split: option.splits ModbusProtocolType.splits)

text \<open>
  Reconnecting, in contrast, succeeds exactly when the client has a context, the probe over
  TCP succeeds and \<^verbatim>\<open>modbus_connect\<close> answers 0; a client that never got a context cannot be
  reconnected at all.
\<close>

lemma modbusReconnect_result:
  "fst (modbusReconnect E c s) = (case mb_context c of None \<Rightarrow> False
     | Some x \<Rightarrow> probe_ok E c s
         \<and> rc E (Modbus (C_modbus_connect x) # calls (after_probe E c s)) = 0)"
  by (simp add: modbusReconnect_def probe_ok_def after_probe_def Let_def split_beta split: option.splits)

text \<open>
  C34. Receiving into the answer buffer is safe for every register count up to 10: a success reads
  from the client's own context, fills the first registers, leaves the rest zero, reports the
  count asked for and adds no undefined behaviour.
\<close>

theorem modbusReceiveData_in_bounds:
  assumes "0 \<le> registersToRead c" and "registersToRead c \<le> int MAX_RCV_DATA_LEN"
    and "modbusReceiveData E c s = (True, d, s')"
  shows "length (md_data d) = MAX_RCV_DATA_LEN \<and> md_len d = registersToRead c
     \<and> (\<forall>i. nat (registersToRead c) \<le> i \<and> i < MAX_RCV_DATA_LEN \<longrightarrow> md_data d ! i = 0)
     \<and> fault s' = fault s
     \<and> (\<exists>x. mb_context c = Some x
          \<and> dev_calls s' = Modbus (C_modbus_read_registers x (mb_offset c) (registersToRead c)) # dev_calls s)"
proof -
  let ?n = "nat (registersToRead c)"
  obtain x where x: "mb_context c = Some x"
    using assms(3) by (cases "mb_context c") (auto simp: modbusReceiveData_def Let_def split_beta)
  let ?cl = "Modbus (C_modbus_read_registers x (mb_offset c) (registersToRead c))"
  let ?regs = "take ?n (registers_r E (?cl # calls s))"
  have n: "?n \<le> MAX_RCV_DATA_LEN" "length ?regs \<le> ?n" using assms(1,2) by simp_all
  have d: "d = \<lparr>md_len = registersToRead c, md_data = ?regs @ replicate (MAX_RCV_DATA_LEN - length ?regs) 0\<rparr>"
    and s': "s' = emit ?cl s"
    using assms(3) n by (auto simp: modbusReceiveData_def x Let_def split_beta split: if_splits)
  show ?thesis using x n by (auto simp: d s' nth_append)
qed

definition plc :: ModbusClient where
  "plc = ModbusClient_zero\<lparr>mb_id := 1, registersToRead := 2, ipAdress := Some ''10.0.0.1'', mb_port := 502,
     mb_context := Some 4\<rparr>"

theorem modbusReceiveData_in_bounds_witness:
  "case modbusReceiveData quiet_env plc (io0 (\<lambda>_. None)) of (ok, d, s') \<Rightarrow>
     ok \<and> length (md_data d) = 10 \<and> md_data d ! 5 = 0"
proof -
  obtain ok d s' where run: "modbusReceiveData quiet_env plc (io0 (\<lambda>_. None)) = (ok, d, s')"
    by (metis prod_cases3)
  have ok: "ok = True"
    using run by (auto simp: modbusReceiveData_def plc_def ext_def)
  show ?thesis
    unfolding run using modbusReceiveData_in_bounds [OF _ _ run [unfolded ok]]
    by (simp add: ok plc_def MAX_RCV_DATA_LEN_def)
qed

section \<open>Descriptors\<close>

definition sockets :: "io \<Rightarrow> nat" where
  "sockets s = length (filter (\<lambda>c. c = Sys C_socket) (dev_calls s))"

definition closes :: "io \<Rightarrow> nat" where
  "closes s = length (filter (\<lambda>c. \<exists>fd. c = Sys (C_close fd)) (dev_calls s))"

lemma checkServer_sockets:
  "sockets (snd (checkServer E a p s)) = Suc (sockets s)" "closes (snd (checkServer E a p s)) = closes s"
  by (simp_all add: checkServer_def sockets_def closes_def Let_def split_beta)

lemma modbusReconnect_sockets:
  assumes "protocolType c = MPT_TCP" and "mb_context c \<noteq> None"
  shows "sockets (snd (modbusReconnect E c s)) = Suc (sockets s)"
    and "closes (snd (modbusReconnect E c s)) = closes s"
proof -
  obtain x where "mb_context c = Some x" using assms(2) by auto
  moreover have "sockets (emit (Modbus m) t) = sockets t" "closes (emit (Modbus m) t) = closes t"
    "sockets (mb_LOG_E E l f g t) = sockets t" "closes (mb_LOG_E E l f g t) = closes t"
    "sockets (snd (modbus_strerror E t)) = sockets t" "closes (snd (modbus_strerror E t)) = closes t"
    for m t l f g by (simp_all add: sockets_def closes_def)
  ultimately show "sockets (snd (modbusReconnect E c s)) = Suc (sockets s)"
    "closes (snd (modbusReconnect E c s)) = closes s"
    using assms(1) by (simp_all add: modbusReconnect_def Let_def split_beta checkServer_sockets)
qed

text \<open>
  C36. Every reconnection attempt of a TCP client opens one more socket for the probe and never
  closes one: \<^verbatim>\<open>shutdown\<close> does not release the descriptor, so \<open>n\<close> attempts cost \<open>n\<close> descriptors.
\<close>

theorem modbusReconnect_leaks:
  assumes "protocolType c = MPT_TCP" and "mb_context c \<noteq> None"
  shows "sockets (((\<lambda>t. snd (modbusReconnect E c t)) ^^ n) s) = sockets s + n
       \<and> closes (((\<lambda>t. snd (modbusReconnect E c t)) ^^ n) s) = closes s"
  by (induction n) (simp_all add: modbusReconnect_sockets [OF assms])

theorem modbusReconnect_leaks_witness:
  "sockets (((\<lambda>t. snd (modbusReconnect quiet_env plc t)) ^^ 1024) (io0 (\<lambda>_. None))) = 1024
   \<and> closes (((\<lambda>t. snd (modbusReconnect quiet_env plc t)) ^^ 1024) (io0 (\<lambda>_. None))) = 0"
  using modbusReconnect_leaks [of plc 1024 quiet_env "io0 (\<lambda>_. None)"]
  by (simp add: plc_def ModbusClient_zero_def sockets_def closes_def dev_calls_def io0_def)

end
