(* ===== verification/OpcConnect.thy ===== *)
theory OpcConnect
  imports Logger ModuleConst
begin

text \<open>
  \<^verbatim>\<open>opc_connect.c\<close>: the OPC UA client.  The handle \<^verbatim>\<open>_handler\<close> is threaded as an option.  Reading
  a value includes the part of the OPC UA stack that turns a read response into a variant
  (\<^verbatim>\<open>__UA_Client_readAttribute\<close> in \<^verbatim>\<open>open62541.c\<close>); the service call itself is the environment's.
\<close>

section \<open>Data\<close>

datatype OpcSecurityMode = OSM_NONE | OSM_SIGN | OSM_SIGN_ENCRYPT

record OpcClient =
  nameSpace :: int
  secure :: bool
  node :: "string option"
  serverName :: "string option"
  oc_dataType :: DataType
  securityMode :: OpcSecurityMode

definition OpcClient_zero :: OpcClient where
  "OpcClient_zero = \<lparr>nameSpace = 0, secure = False, node = None, serverName = None,
     oc_dataType = MDT_BOOL, securityMode = OSM_NONE\<rparr>"

type_synonym opc_handler = "nat option"

definition UA_STATUSCODE_GOOD :: int32 where "UA_STATUSCODE_GOOD = 0"
definition UA_STATUSCODE_BADUNEXPECTEDERROR :: int32 where
  "UA_STATUSCODE_BADUNEXPECTEDERROR = 0x80010000"
definition UA_STATUSCODE_BADCOMMUNICATIONERROR :: int32 where
  "UA_STATUSCODE_BADCOMMUNICATIONERROR = 0x80050000"
definition UA_STATUSCODE_BADDATATYPEIDUNKNOWN :: int32 where
  "UA_STATUSCODE_BADDATATYPEIDUNKNOWN = 0x80110000"

definition opc_LOG_E :: "env \<Rightarrow> int \<Rightarrow> string \<Rightarrow> string \<Rightarrow> io \<Rightarrow> io" where
  "opc_LOG_E E line fn message = log_error E ''opc_connect.c'' line fn message"

section \<open>Connecting\<close>

text \<open>\<^verbatim>\<open>UA_MessageSecurityMode\<close> numbers the modes from 1 (0 is invalid).\<close>

fun ua_security_mode :: "OpcSecurityMode \<Rightarrow> int" where
  "ua_security_mode OSM_NONE = 1"
| "ua_security_mode OSM_SIGN = 2"
| "ua_security_mode OSM_SIGN_ENCRYPT = 3"

text \<open>The file's bytes, or the empty byte string when anything goes wrong.\<close>

definition loadFile :: "env \<Rightarrow> string \<Rightarrow> io \<Rightarrow> string \<times> io" where
  "loadFile E path s =
     (let (fp, s) = fopen E path ''rb'' s in
      case fp of
        None \<Rightarrow> ([], s)
      | Some f \<Rightarrow>
          (let t = content s path;
               (data, s) = ext E (Stdio (C_malloc (length t))) s
           in if data \<noteq> 0 then
                (let (n, s) = ext E (Stdio (C_fread path (length t))) s;
                     bytes = (if n \<noteq> int (length t) then [] else t)
                 in (bytes, emit (Stdio (C_fclose f)) s))
              else ([], emit (Stdio (C_fclose f)) s)))"

definition opc_configure :: "env \<Rightarrow> opc_handler \<Rightarrow> bool \<Rightarrow> OpcSecurityMode \<Rightarrow> string \<Rightarrow> string
    \<Rightarrow> string \<Rightarrow> io \<Rightarrow> bool \<times> io" where
  "opc_configure E h secureConnection mode pAppURI pCertFullName pKeyFullName s =
     (if secureConnection then
        (let (certificate, s) = loadFile E pCertFullName s;
             (privateKey, s) = loadFile E pKeyFullName s
         in if certificate = [] then
              (False, opc_LOG_E E 38 ''opcConnect'' (''Can't load sertificate: '' @ pCertFullName) s)
            else if privateKey = [] then
              (False, opc_LOG_E E 44 ''opcConnect'' (''Can't load privateKey: '' @ pKeyFullName) s)
            else (case h of
                None \<Rightarrow> (True, ub Null_Deref s)
              | Some x \<Rightarrow> (True, emit (Ua (C_UA_ClientConfig_setDefaultEncryption x
                    (ua_security_mode mode) certificate privateKey pAppURI)) s)))
      else (case h of
          None \<Rightarrow> (True, ub Null_Deref s)
        | Some x \<Rightarrow> (True, emit (Ua (C_UA_ClientConfig_setDefault x)) s)))"

definition opcConnect :: "env \<Rightarrow> string option \<Rightarrow> bool \<Rightarrow> OpcSecurityMode \<Rightarrow> string \<Rightarrow> string
    \<Rightarrow> string \<Rightarrow> io \<Rightarrow> bool \<times> opc_handler \<times> io" where
  "opcConnect E pServerName secureConnection mode pAppURI pCertFullName pKeyFullName s =
     (let (h, s) = ext_new E (Ua C_UA_Client_new) s;
          (ok, s) = opc_configure E h secureConnection mode pAppURI pCertFullName pKeyFullName s
      in if \<not> ok then (False, h, s)
         else (case h of
             None \<Rightarrow> (False, None, ub Null_Deref s)
           | Some x \<Rightarrow>
               (let (retval, s) = ext E (Ua (C_UA_Client_connect x pServerName)) s in
                if word_of_int retval \<noteq> UA_STATUSCODE_GOOD then
                  (False, None, opc_LOG_E E 93 ''opcConnect''
                     (''Can't connect to server: '' @ str_or_null pServerName @ '', secure: ''
                      @ yes_no secureConnection ''yes'' ''no'' @ '', retval: ''
                      @ fmt_u (word_of_int retval :: int32))
                     (emit (Ua (C_UA_Client_delete x)) s))
                else (True, h, s))))"

definition opcCloseConnection :: "opc_handler \<Rightarrow> io \<Rightarrow> opc_handler \<times> io" where
  "opcCloseConnection h s = (case h of
      None \<Rightarrow> (None, s)
    | Some x \<Rightarrow> (None, emit (Ua (C_UA_Client_delete x)) s))"

section \<open>Reading a value\<close>

text \<open>
  The status and the variant a read response yields: the service result first, exactly one
  result, its status if it has one, and an error when it carries no value.
\<close>

definition UA_Client_readAttribute :: "UA_ReadResponse \<Rightarrow> int32 \<times> ua_value option" where
  "UA_Client_readAttribute response =
     (let retval = serviceResult response;
          retval = (if retval = UA_STATUSCODE_GOOD then
                      (if length (results response) = 1 then dv_status (results response ! 0)
                       else UA_STATUSCODE_BADUNEXPECTEDERROR)
                    else retval)
      in if retval \<noteq> UA_STATUSCODE_GOOD then (retval, None)
         else
           (let res = results response ! 0;
                retval = (if hasStatus res then dv_status res else retval)
            in if \<not> hasValue res then
                 (if retval = UA_STATUSCODE_GOOD then UA_STATUSCODE_BADUNEXPECTEDERROR else retval, None)
               else (retval, dv_value res)))"

fun typeName :: "ua_value \<Rightarrow> string" where
  "typeName (UA_Boolean b) = ''Boolean''"
| "typeName (UA_Int16 w) = ''Int16''"
| "typeName (UA_UInt16 w) = ''UInt16''"
| "typeName (UA_Int32 w) = ''Int32''"
| "typeName (UA_UInt32 w) = ''UInt32''"
| "typeName (UA_Double w) = ''Double''"
| "typeName (UA_EnumValueType w) = ''EnumValueType''"
| "typeName (UA_String n p t) = ''String''"
| "typeName (UA_Other n) = n"

definition wrong_type :: "env \<Rightarrow> int \<Rightarrow> string \<Rightarrow> ua_value \<Rightarrow> OpcClient \<Rightarrow> io \<Rightarrow> io" where
  "wrong_type E line expect v c s =
     opc_LOG_E E line ''opcReceiveData'' (''Wrong data type, expect: '' @ expect @ '', got: ''
       @ typeName v @ '', node: '' @ str_or_null (node c)) s"

text \<open>
  \<^verbatim>\<open>(char*)val->data\<close> of a string variant points at the structure \<^verbatim>\<open>{length, data}\<close>, so what is
  copied are the bytes of the length and of the pointer, up to the first zero byte.
\<close>

definition word_chars :: "bool \<Rightarrow> 64 word \<Rightarrow> string" where
  "word_chars big w =
     (let le = map (\<lambda>i. char_of (unat w div 256 ^ i mod 256)) [0..<8] in if big then rev le else le)"

definition ua_string_bytes :: "env \<Rightarrow> 64 word \<Rightarrow> 64 word \<Rightarrow> string" where
  "ua_string_bytes E len ptr = word_chars (big_endian E) len @ word_chars (big_endian E) ptr"

definition opc_store_int :: "env \<Rightarrow> int32 \<Rightarrow> ClientData \<Rightarrow> io \<Rightarrow> int32 \<times> ClientData \<times> io" where
  "opc_store_int E w cd s =
     (UA_STATUSCODE_GOOD, cd\<lparr>data_int := w\<rparr>, log_debug E (''OPC int data: '' @ fmt_d w) s)"

definition opc_convert :: "env \<Rightarrow> OpcClient \<Rightarrow> ua_value \<Rightarrow> ClientData \<Rightarrow> io
    \<Rightarrow> int32 \<times> ClientData \<times> io" where
  "opc_convert E c v cd s = (case oc_dataType c of
      MDT_BOOL \<Rightarrow> (case v of
          UA_Boolean b \<Rightarrow> (UA_STATUSCODE_GOOD, cd\<lparr>data_bool := b\<rparr>, s)
        | _ \<Rightarrow> (UA_STATUSCODE_BADDATATYPEIDUNKNOWN, cd\<lparr>data_bool := False\<rparr>,
                wrong_type E 149 ''Boolean'' v c s))
    | MDT_INT \<Rightarrow> (case v of
          UA_Int16 w \<Rightarrow> opc_store_int E (scast w) cd s
        | UA_UInt16 w \<Rightarrow> opc_store_int E (ucast w) cd s
        | UA_Int32 w \<Rightarrow> opc_store_int E w cd s
        | UA_UInt32 w \<Rightarrow> opc_store_int E w cd s
        | _ \<Rightarrow> (UA_STATUSCODE_BADDATATYPEIDUNKNOWN, cd\<lparr>data_int := 0\<rparr>,
                log_debug E (''OPC int data: '' @ fmt_d (0 :: int32))
                  (wrong_type E 166 ''Int16, UInt16, Int32, UInt32'' v c s)))
    | MDT_DWORD \<Rightarrow> (case v of
          UA_UInt32 w \<Rightarrow> (UA_STATUSCODE_GOOD, cd\<lparr>data_dword := w\<rparr>,
            log_debug E (''OPC long data: '' @ fmt_u w) s)
        | _ \<Rightarrow> (UA_STATUSCODE_BADDATATYPEIDUNKNOWN, cd\<lparr>data_dword := 0\<rparr>,
                opc_LOG_E E 184 ''opcReceiveData'' (''Wrong data type, expect dword as: UInt32, got: ''
                  @ typeName v @ '', node: '' @ str_or_null (node c)) s))
    | MDT_DOUBLE \<Rightarrow> (case v of
          UA_Double w \<Rightarrow> (UA_STATUSCODE_GOOD, cd\<lparr>data_double := w\<rparr>,
            log_debug E (''OPC double data: '' @ fmt_f w) s)
        | _ \<Rightarrow> (UA_STATUSCODE_BADDATATYPEIDUNKNOWN, cd\<lparr>data_double := 0\<rparr>,
                wrong_type E 198 ''Double'' v c s))
    | MDT_ENUM \<Rightarrow> (case v of
          UA_EnumValueType w \<Rightarrow> (UA_STATUSCODE_GOOD, cd\<lparr>data_enum := ucast w\<rparr>,
            log_debug E (''OPC enum data(uint): '' @ fmt_u (ucast w :: int32)) s)
        | _ \<Rightarrow> (UA_STATUSCODE_BADDATATYPEIDUNKNOWN, cd\<lparr>data_enum := 0\<rparr>,
                wrong_type E 214 ''EnumValueType'' v c s))
    | MDT_CHAR \<Rightarrow> (case v of
          UA_String n p t \<Rightarrow>
            (let raw = ua_string_bytes E n p;
                 s = ub_if (NUL \<notin> set raw) Out_Of_Bounds s
             in (UA_STATUSCODE_GOOD, cd\<lparr>data_char := strncpy_c raw MAX_OPC_STR_LEN\<rparr>,
                 log_debug E (''OPC char data: '' @ takeWhile (\<lambda>x. x \<noteq> NUL) raw) s))
        | _ \<Rightarrow> (UA_STATUSCODE_BADDATATYPEIDUNKNOWN, cd\<lparr>data_char := []\<rparr>,
                wrong_type E 228 ''String'' v c s))
    | MDT_TIME \<Rightarrow> (UA_STATUSCODE_BADDATATYPEIDUNKNOWN, cd,
          opc_LOG_E E 236 ''opcReceiveData'' (''Unsupported data type '' @ dec_int (dt_code MDT_TIME)
            @ '', node: '' @ str_or_null (node c)) s))"

text \<open>An empty variant has a null type, which every case but the default one dereferences.\<close>

definition opc_convert_variant :: "env \<Rightarrow> OpcClient \<Rightarrow> ua_value option \<Rightarrow> ClientData \<Rightarrow> io
    \<Rightarrow> int32 \<times> ClientData \<times> io" where
  "opc_convert_variant E c v cd s = (case v of
      Some x \<Rightarrow> opc_convert E c x cd s
    | None \<Rightarrow>
        if oc_dataType c = MDT_TIME then opc_convert E c (UA_Other []) cd s
        else (UA_STATUSCODE_GOOD, cd, ub Null_Deref s))"

definition opcReceiveData :: "env \<Rightarrow> OpcClient \<Rightarrow> ClientData \<Rightarrow> opc_handler \<Rightarrow> io
    \<Rightarrow> bool \<times> ClientData \<times> io" where
  "opcReceiveData E c cd h s =
     (let s = ub_if (node c = None) Null_Deref s;
          nodeName = (case node c of None \<Rightarrow> [] | Some n \<Rightarrow> n);
          (val, s) = ext_new E (Ua C_UA_Variant_new) s
      in if MAX_OPC_NODE_LEN < length nodeName then
           (False, cd, opc_LOG_E E 124 ''opcReceiveData'' (''Too big node name: '' @ nodeName
              @ '', max '' @ dec_int (int MAX_OPC_NODE_LEN) @ '' chars'') s)
         else (case h of
             None \<Rightarrow> (False, cd, opc_LOG_E E 130 ''opcReceiveData'' ''OPC Handler == NULL, need reconnect'' s)
           | Some x \<Rightarrow>
               (let cl = Ua (C_UA_Client_Service_read x (nameSpace c mod 65536) nodeName);
                    (retval, v) = UA_Client_readAttribute (ua_read_r E (cl # calls s));
                    s = emit cl s;
                    s = ub_if (val = None \<and> retval = UA_STATUSCODE_GOOD) Null_Deref s;
                    (retval, cd, s) =
                      (if retval = UA_STATUSCODE_GOOD
                       then opc_convert_variant E c v (cd\<lparr>cd_dataType := oc_dataType c\<rparr>) s
                       else (UA_STATUSCODE_BADCOMMUNICATIONERROR, cd,
                         opc_LOG_E E 243 ''opcReceiveData'' (''Fail to read attribute ''
                           @ dec_int (nameSpace c) @ ''; '' @ nodeName @ [NL]) s));
                    s = emit (Ua C_UA_Variant_delete) s
                in (retval = UA_STATUSCODE_BADDATATYPEIDUNKNOWN \<or> retval = UA_STATUSCODE_GOOD, cd, s))))"

section \<open>Browsing\<close>

text \<open>
  \<^verbatim>\<open>listTreeRecursive\<close> prints the references of a node as a table, for debugging.  \<^verbatim>\<open>%-16.*s\<close> of
  a \<^verbatim>\<open>UA_String\<close> prints its bytes up to a zero byte, filled with blanks on the right; only numeric and
  string identifiers get a line.
\<close>

definition pad_right :: "nat \<Rightarrow> string \<Rightarrow> string" where
  "pad_right n t = t @ replicate (n - length t) (CHR '' '')"

definition ua_cell :: "string \<Rightarrow> string" where
  "ua_cell t = pad_right 16 (takeWhile (\<lambda>c. c \<noteq> NUL) t)"

definition browse_row :: "string \<Rightarrow> string \<Rightarrow> UA_ReferenceDescription \<Rightarrow> string" where
  "browse_row ns ident r = pad_right 9 ns @ '' '' @ ident @ '' '' @ ua_cell (browseName r) @ '' ''
     @ ua_cell (displayName r) @ [NL]"

definition browse_line :: "UA_ReferenceDescription \<Rightarrow> string option" where
  "browse_line r = (case ref_nodeId r of
      NodeId_Numeric ns n \<Rightarrow> Some (browse_row (dec_int (uint ns)) (pad_right 16 (fmt_d n)) r)
    | NodeId_String ns t \<Rightarrow> Some (browse_row (dec_int (uint ns)) (ua_cell t) r)
    | _ \<Rightarrow> None)"

definition browse_head :: string where
  "browse_head = pad_right 9 ''NAMESPACE'' @ '' '' @ pad_right 16 ''NODEID'' @ '' ''
     @ pad_right 16 ''BROWSE NAME'' @ '' '' @ pad_right 16 ''DISPLAY NAME'' @ [NL]"

definition print_reference :: "UA_ReferenceDescription \<Rightarrow> io \<Rightarrow> io" where
  "print_reference r s = (case browse_line r of None \<Rightarrow> s | Some t \<Rightarrow> printf_c t s)"

definition listTreeRecursive :: "env \<Rightarrow> opc_handler \<Rightarrow> UA_NodeId \<Rightarrow> io \<Rightarrow> io" where
  "listTreeRecursive E h nodeId s =
     (let s = printf_c (''Browsing nodes in objects folder:'' @ [NL]) s;
          (nodes, s) = ext_new E (Ua C_UA_BrowseDescription_new) s;
          s = ub_if (nodes = None \<or> h = None) Null_Deref s;
          cl = Ua (C_UA_Client_Service_browse (case h of None \<Rightarrow> 0 | Some x \<Rightarrow> x) nodeId);
          bResp = ua_browse_r E (cl # calls s);
          s = printf_c browse_head (emit cl s);
          s = fold (fold print_reference) bResp s
      in emit (Ua C_UA_BrowseResponse_clear) (emit (Ua C_UA_BrowseRequest_clear) s))"

section \<open>Properties\<close>

lemma opc_log_sel [simp]:
  "dev_calls (opc_LOG_E E line fn m s) = dev_calls s" "dev_calls (wrong_type E line x v c s) = dev_calls s"
  by (simp_all add: opc_LOG_E_def wrong_type_def)

lemma dev_calls_loadFile [simp]: "dev_calls (snd (loadFile E p s)) = dev_calls s"
  by (simp add: loadFile_def Let_def split_beta split: option.splits)

lemma os_le_opc [simp, intro!]:
  "os_le u s \<Longrightarrow> os_le u (opc_LOG_E E line fn m s)" "os_le u s \<Longrightarrow> os_le u (wrong_type E line x v c s)"
  "os_le u s \<Longrightarrow> os_le u (snd (loadFile E p s))"
  by (simp_all add: opc_LOG_E_def wrong_type_def loadFile_def Let_def split_beta split: option.splits)

lemma os_le_opc_connect [simp, intro!]:
  "os_le u s \<Longrightarrow> os_le u (snd (opc_configure E h sec mode uri cert key s))"
  "os_le u s \<Longrightarrow> os_le u (snd (snd (opcConnect E srv sec mode uri cert key s)))"
  "os_le u s \<Longrightarrow> os_le u (snd (opcCloseConnection h s))"
  by (simp_all add: opc_configure_def opcConnect_def opcCloseConnection_def Let_def split_beta split: option.splits)

lemma os_le_opc_convert [simp, intro!]: "os_le u s \<Longrightarrow> os_le u (snd (snd (opc_convert E c v cd s)))"
  by (simp add: opc_convert_def opc_store_int_def Let_def split: DataType.splits ua_value.splits)

lemma os_le_opc_receive [simp, intro!]: "os_le u s \<Longrightarrow> os_le u (snd (snd (opcReceiveData E c cd h s)))"
  by (simp add: opcReceiveData_def opc_convert_variant_def Let_def split_beta split: option.splits)

lemma opc_convert_status:
  "fst (opc_convert_variant E c v cd s) \<noteq> UA_STATUSCODE_GOOD \<Longrightarrow>
     fst (opc_convert_variant E c v cd s) = UA_STATUSCODE_BADDATATYPEIDUNKNOWN"
  by (auto simp: opc_convert_variant_def opc_convert_def opc_store_int_def Let_def
      split: option.splits DataType.splits ua_value.splits if_splits)

text \<open>The service call of a read, and the answer's status.\<close>

definition read_call :: "OpcClient \<Rightarrow> nat \<Rightarrow> string \<Rightarrow> call" where
  "read_call c x nodeName = Ua (C_UA_Client_Service_read x (nameSpace c mod 65536) nodeName)"

definition read_status :: "env \<Rightarrow> OpcClient \<Rightarrow> nat \<Rightarrow> string \<Rightarrow> io \<Rightarrow> int32" where
  "read_status E c x nodeName s =
     fst (UA_Client_readAttribute
       (ua_read_r E (read_call c x nodeName # Ua C_UA_Variant_new # calls s)))"

lemma receive_success_iff:
  assumes "node c = Some nodeName"
  shows "fst (opcReceiveData E c cd h s) \<longleftrightarrow>
     length nodeName \<le> MAX_OPC_NODE_LEN
     \<and> (\<exists>x. h = Some x \<and> read_status E c x nodeName s = UA_STATUSCODE_GOOD)"
proof -
  have bad: "UA_STATUSCODE_BADCOMMUNICATIONERROR \<noteq> UA_STATUSCODE_GOOD"
    "UA_STATUSCODE_BADCOMMUNICATIONERROR \<noteq> UA_STATUSCODE_BADDATATYPEIDUNKNOWN"
    by (simp_all add: UA_STATUSCODE_BADCOMMUNICATIONERROR_def UA_STATUSCODE_GOOD_def
        UA_STATUSCODE_BADDATATYPEIDUNKNOWN_def)
  show ?thesis
    using assms bad
    by (cases h) (auto intro: opc_convert_status simp: opcReceiveData_def read_status_def read_call_def Let_def split_beta)
qed

text \<open>
  C32. For a client with a node name, \<^verbatim>\<open>opcReceiveData\<close> reports success exactly when the name has
  at most 80 characters, there is a connection and the read service answers with a good status: a
  value of the wrong type is a success too, and delivers a zero.
\<close>

theorem opcReceiveData_success_iff:
  assumes "node c = Some nodeName"
  shows "fst (opcReceiveData E c cd h s) \<longleftrightarrow>
     length nodeName \<le> MAX_OPC_NODE_LEN
     \<and> (\<exists>x. h = Some x \<and> read_status E c x nodeName s = UA_STATUSCODE_GOOD)"
  by (rule receive_success_iff [OF assms])

definition tank :: OpcClient where
  "tank = OpcClient_zero\<lparr>nameSpace := 3, node := Some ''Level'', oc_dataType := MDT_BOOL\<rparr>"

theorem opcReceiveData_success_iff_witness:
  "fst (opcReceiveData quiet_env tank ClientData_zero (Some 1) (io0 (\<lambda>_. None)))"
  using opcReceiveData_success_iff [of tank "''Level''" quiet_env ClientData_zero "Some 1" "io0 (\<lambda>_. None)"]
  by (simp add: tank_def MAX_OPC_NODE_LEN_def read_status_def UA_Client_readAttribute_def UA_STATUSCODE_GOOD_def)

text \<open>The numbers an integer client accepts.\<close>

fun ua_number :: "ua_value \<Rightarrow> int option" where
  "ua_number (UA_Int16 w) = Some (sint w)"
| "ua_number (UA_UInt16 w) = Some (uint w)"
| "ua_number (UA_Int32 w) = Some (sint w)"
| "ua_number (UA_UInt32 w) = Some (uint w)"
| "ua_number _ = None"

lemma sint_word_of_int32: "- (2 ^ 31) \<le> n \<Longrightarrow> n < 2 ^ 31 \<Longrightarrow> sint (word_of_int n :: int32) = n"
  by (simp add: signed_of_int signed_take_bit_int_eq_self)

lemma opc_convert_int:
  assumes "oc_dataType c = MDT_INT"
  shows "case opc_convert E c v cd s of (st, cd', s') \<Rightarrow>
     (case ua_number v of
        Some n \<Rightarrow> st = UA_STATUSCODE_GOOD \<and> cd' = cd\<lparr>data_int := word_of_int n\<rparr>
      | None \<Rightarrow> st = UA_STATUSCODE_BADDATATYPEIDUNKNOWN \<and> cd' = cd\<lparr>data_int := 0\<rparr>)"
proof -
  have "(scast w :: int32) = word_of_int (sint w)" "(ucast w :: int32) = word_of_int (uint w)" for w :: uint16
    by (simp_all only: scast_eq ucast_eq)
  with assms show ?thesis
    by (cases v) (simp_all add: opc_convert_def opc_store_int_def)
qed

text \<open>
  An OPC UA integer of any of the four accepted types reaches the client's data as the same
  number, tagged \<^verbatim>\<open>MDT_INT\<close>, whenever it fits an \<^verbatim>\<open>int\<close>; only an \<^verbatim>\<open>UInt32\<close> of \<^verbatim>\<open>2^31\<close> or more
  cannot.
\<close>

lemma opcReceiveData_int:
  assumes "oc_dataType c = MDT_INT" and "opcReceiveData E c cd (Some x) s = (True, cd', s')"
    and "node c = Some nodeName"
    and "UA_Client_readAttribute (ua_read_r E (read_call c x nodeName # Ua C_UA_Variant_new # calls s))
           = (UA_STATUSCODE_GOOD, Some v)"
    and "ua_number v = Some n"
  shows "cd_dataType cd' = MDT_INT \<and> data_int cd' = word_of_int n
     \<and> (- (2 ^ 31) \<le> n \<and> n < 2 ^ 31 \<longrightarrow> sint (data_int cd') = n)"
proof -
  let ?cd = "cd\<lparr>cd_dataType := MDT_INT\<rparr>"
  obtain s1 where "cd' = fst (snd (opc_convert E c v ?cd s1))"
    using assms(1-4) by (auto simp: opcReceiveData_def read_call_def opc_convert_variant_def Let_def split_beta
        split: if_splits)
  moreover have "fst (snd (opc_convert E c v ?cd s1)) = ?cd\<lparr>data_int := word_of_int n\<rparr>"
    using opc_convert_int [OF assms(1), where v = v and E = E and cd = ?cd and s = s1] assms(5) by (simp add: split_beta)
  ultimately show ?thesis by (simp add: sint_word_of_int32)
qed

definition level_meter :: OpcClient where
  "level_meter = tank\<lparr>oc_dataType := MDT_INT\<rparr>"

lemma opcReceiveData_int_example:
  "sint (data_int (fst (snd (opcReceiveData quiet_env level_meter ClientData_zero (Some 1) (io0 (\<lambda>_. None)))))) = 7"
proof -
  obtain ok cd' s' where run:
    "opcReceiveData quiet_env level_meter ClientData_zero (Some 1) (io0 (\<lambda>_. None)) = (ok, cd', s')"
    by (metis prod_cases3)
  have st: "UA_Client_readAttribute (ua_read_r quiet_env (read_call level_meter 1 ''Level''
      # Ua C_UA_Variant_new # calls (io0 (\<lambda>_. None)))) = (UA_STATUSCODE_GOOD, Some (UA_Int32 7))"
    by (simp add: UA_Client_readAttribute_def UA_STATUSCODE_GOOD_def)
  have ok: "ok = True"
    using run receive_success_iff [of level_meter "''Level''" quiet_env ClientData_zero "Some 1" "io0 (\<lambda>_. None)"]
    by (simp add: level_meter_def tank_def MAX_OPC_NODE_LEN_def read_status_def
        UA_Client_readAttribute_def UA_STATUSCODE_GOOD_def)
  show ?thesis
    unfolding run
    using opcReceiveData_int [OF _ run [unfolded ok] _ st] by (simp add: level_meter_def tank_def)
qed

lemma word_chars_small:
  assumes "0 < unat w" and "unat w < 256"
  shows "takeWhile (\<lambda>c. c \<noteq> NUL) (word_chars False w @ r) = [char_of (unat w)]"
proof -
  have [simp]: "[0..<8] = [0, 1, 2, 3, 4, 5, 6, 7 :: nat]" by (simp add: upt_rec)
  have "of_char (char_of (unat w) :: char) \<noteq> (of_char NUL :: nat)" using assms by (simp add: NUL_def)
  then have "char_of (unat w) \<noteq> NUL" by metis
  with assms show ?thesis by (simp add: word_chars_def Let_def NUL_def char_of_def)
qed

text \<open>
  C40. A text client never receives its text: on a little endian target, a string value of 1 to
  255 characters arrives as the one character whose code is the length of the text.
\<close>

theorem opc_string_is_its_length:
  assumes "\<not> big_endian E" and "oc_dataType c = MDT_CHAR" and "0 < unat len" and "unat len < 256"
  shows "data_char (fst (snd (opc_convert E c (UA_String len ptr txt) cd s))) = [char_of (unat len)]"
  using assms word_chars_small [OF assms(3,4), of "word_chars False ptr"]
  by (simp add: opc_convert_def ua_string_bytes_def strncpy_c_def MAX_OPC_STR_LEN_def)

theorem opc_string_is_its_length_witness:
  "data_char (fst (snd (opc_convert quiet_env (tank\<lparr>oc_dataType := MDT_CHAR\<rparr>)
      (UA_String 65 4096 (replicate 65 (CHR ''x''))) ClientData_zero (io0 (\<lambda>_. None))))) = ''A''"
  using opc_string_is_its_length [of quiet_env "tank\<lparr>oc_dataType := MDT_CHAR\<rparr>" 65 4096
      "replicate 65 (CHR ''x'')" ClientData_zero "io0 (\<lambda>_. None)"]
  by (simp add: char_of_def bit_0)

section \<open>The browse table\<close>

definition browse_call :: "nat \<Rightarrow> UA_NodeId \<Rightarrow> io \<Rightarrow> call list" where
  "browse_call x nodeId s = Ua (C_UA_Client_Service_browse x nodeId) # Ua C_UA_BrowseDescription_new
     # Stdio (C_stdout (''Browsing nodes in objects folder:'' @ [NL])) # calls s"

lemma print_references_calls:
  "calls (fold print_reference rs s)
     = rev (map (\<lambda>t. Stdio (C_stdout t)) (List.map_filter browse_line rs)) @ calls s
   \<and> fault (fold print_reference rs s) = fault s"
  by (induction rs arbitrary: s) (simp_all add: print_reference_def printf_c_def List.map_filter_def split: option.splits)

lemma print_results_calls:
  "calls (fold (fold print_reference) bs s)
     = rev (map (\<lambda>t. Stdio (C_stdout t)) (List.map_filter browse_line (concat bs))) @ calls s
   \<and> fault (fold (fold print_reference) bs s) = fault s"
  by (induction bs arbitrary: s) (simp_all add: print_references_calls List.map_filter_def)

text \<open>
  With a connection and memory for the request, the dump prints the table head and one line for
  each numeric or string reference of the answer, in order, and nothing goes wrong.
\<close>

lemma listTreeRecursive_prints:
  assumes "rc E (tl (browse_call x nodeId s)) \<noteq> 0"
  shows "calls (listTreeRecursive E (Some x) nodeId s)
       = [Ua C_UA_BrowseResponse_clear, Ua C_UA_BrowseRequest_clear]
         @ rev (map (\<lambda>t. Stdio (C_stdout t)) (browse_head # List.map_filter browse_line
             (concat (ua_browse_r E (browse_call x nodeId s)))))
         @ browse_call x nodeId s"
    and "fault (listTreeRecursive E (Some x) nodeId s) = fault s"
  using assms
  by (simp_all add: listTreeRecursive_def browse_call_def Let_def ext_new_def printf_c_def print_results_calls)

lemma listTreeRecursive_needs_connection: "fault (listTreeRecursive E None nodeId s) \<noteq> None"
  by (simp add: listTreeRecursive_def Let_def ext_new_def printf_c_def print_results_calls)

section \<open>Client objects\<close>

definition ua_made :: "io \<Rightarrow> nat" where
  "ua_made s = length (filter (\<lambda>c. c = Ua C_UA_Client_new) (dev_calls s))"

definition ua_deleted :: "io \<Rightarrow> nat" where
  "ua_deleted s = length (filter (\<lambda>c. \<exists>x. c = Ua (C_UA_Client_delete x)) (dev_calls s))"



end
