(* ===== verification/ClientManager.thy ===== *)
theory ClientManager
  imports ModbusConnect OpcConnect
begin

text \<open>
  \<^verbatim>\<open>client_manager.c\<close>: the table of clients read from the configuration, their connections, and
  receiving data with one reconnection attempt.  The table has 51 entries as in the source; an
  index outside it is a fault.
\<close>

section \<open>State\<close>

datatype ClientProtocol = CP_MODBUS | CP_OPC

datatype CounterType = CT_NONE | CT_DIFFERENCE | CT_CUMUL_NOT_100 | CT_CUMUL

datatype LocalCompType = LCT_NONE | LCT_MUL_60 | LCT_MUL_60000000 | LCT_MUL_1000

record ClientSettings =
  cs_name :: "string option"
  cs_unit :: "string option"
  connected :: bool
  innerIdx :: InnerIdx
  refreshRate :: RefreshRate
  protocol :: ClientProtocol
  cs_dataType :: DataType
  counter :: CounterType
  computation :: LocalCompType
  modbus :: ModbusClient
  opc :: OpcClient

definition ClientSettings_zero :: ClientSettings where
  "ClientSettings_zero = \<lparr>cs_name = None, cs_unit = None, connected = False, innerIdx = 0,
     refreshRate = RR_100ms, protocol = CP_MODBUS, cs_dataType = MDT_BOOL, counter = CT_NONE,
     computation = LCT_NONE, modbus = ModbusClient_zero, opc = OpcClient_zero\<rparr>"

text \<open>The first ten members of the message; the clients follow.\<close>

definition SF_BAT :: nat where "SF_BAT = 0"
definition SF_SIG :: nat where "SF_SIG = 1"
definition SF_VER :: nat where "SF_VER = 2"
definition SF_TS :: nat where "SF_TS = 3"
definition SF_ID :: nat where "SF_ID = 4"
definition SF_EP :: nat where "SF_EP = 5"
definition SF_TYPE :: nat where "SF_TYPE = 6"
definition SF_LON :: nat where "SF_LON = 7"
definition SF_LAT :: nat where "SF_LAT = 8"
definition SF_LOC :: nat where "SF_LOC = 9"
definition SF_CLIENT_POS :: nat where "SF_CLIENT_POS = 10"

text \<open>The globals of the file, with the handle of \<^verbatim>\<open>opc_connect.c\<close>, which only the manager uses.\<close>

record manager_t =
  clientsCnt :: int
  sendInterval :: int
  clientSettings :: "ClientSettings list"
  opc_handle :: opc_handler

definition manager0 :: manager_t where
  "manager0 = \<lparr>clientsCnt = 0, sendInterval = 0,
     clientSettings = replicate (MAX_CLIENT_NUM + 1) ClientSettings_zero, opc_handle = None\<rparr>"

definition cm_LOG_E :: "env \<Rightarrow> int \<Rightarrow> string \<Rightarrow> string \<Rightarrow> io \<Rightarrow> io" where
  "cm_LOG_E E line fn message = log_error E ''client_manager.c'' line fn message"

definition client :: "manager_t \<Rightarrow> InnerIdx \<Rightarrow> ClientSettings" where
  "client m i = clientSettings m ! nat i"

definition put_client :: "InnerIdx \<Rightarrow> ClientSettings \<Rightarrow> manager_t \<Rightarrow> manager_t" where
  "put_client i c m = m\<lparr>clientSettings := (clientSettings m)[nat i := c]\<rparr>"

definition in_table :: "InnerIdx \<Rightarrow> bool" where
  "in_table i \<longleftrightarrow> 0 \<le> i \<and> i < int MAX_CLIENT_NUM + 1"

definition name_of :: "manager_t \<Rightarrow> InnerIdx \<Rightarrow> string" where
  "name_of m i = str_or_null (cs_name (client m i))"

section \<open>Connection status\<close>

text \<open>All OPC clients share one connection: the loop sets each of the first \<open>n\<close> entries.\<close>

fun set_opc_status :: "nat \<Rightarrow> bool \<Rightarrow> ClientSettings list \<Rightarrow> ClientSettings list" where
  "set_opc_status 0 status cs = cs"
| "set_opc_status (Suc n) status [] = []"
| "set_opc_status (Suc n) status (c # cs) =
     (if protocol c = CP_OPC then c\<lparr>connected := status\<rparr> else c) # set_opc_status n status cs"

definition setConnectStatus :: "InnerIdx \<Rightarrow> bool \<Rightarrow> manager_t \<Rightarrow> manager_t" where
  "setConnectStatus i status m = (case protocol (client m i) of
      CP_MODBUS \<Rightarrow> put_client i ((client m i)\<lparr>connected := status\<rparr>) m
    | CP_OPC \<Rightarrow> m\<lparr>clientSettings := set_opc_status (nat (clientsCnt m)) status (clientSettings m)\<rparr>)"

section \<open>Register data to client data\<close>

text \<open>
  Memory as bytes in the target's order.  On a big endian target the registers are reversed
  into \<^verbatim>\<open>serviceData\<close> first, on a little endian one they are copied as they are; then the bytes
  are copied into the field.
\<close>

type_synonym byte = "8 word"

definition reg_bytes :: "env \<Rightarrow> uint16 \<Rightarrow> byte list" where
  "reg_bytes E w = (let lo = ucast w; hi = ucast (drop_bit 8 w)
     in if big_endian E then [hi, lo] else [lo, hi])"

fun le_nat :: "byte list \<Rightarrow> nat" where
  "le_nat [] = 0"
| "le_nat (b # bs) = unat b + 256 * le_nat bs"

definition word_of_mem :: "env \<Rightarrow> byte list \<Rightarrow> 'a::len word" where
  "word_of_mem E bs = word_of_nat (le_nat (if big_endian E then rev bs else bs))"

definition service_bytes :: "env \<Rightarrow> nat \<Rightarrow> uint16 list \<Rightarrow> byte list" where
  "service_bytes E numToCopy d =
     concat (map (reg_bytes E)
       (if big_endian E then rev (take numToCopy d) else take numToCopy d))"

text \<open>
  In the double case the eight bytes are copied to the address of \<^verbatim>\<open>data_dword\<close>: four of them
  land in it and four in the padding before \<^verbatim>\<open>data_time\<close>; \<^verbatim>\<open>data_double\<close> is not written.
\<close>

definition modbusToClientData :: "env \<Rightarrow> ModbusData \<Rightarrow> DataType \<Rightarrow> ClientData \<Rightarrow> io
    \<Rightarrow> bool \<times> ClientData \<times> io" where
  "modbusToClientData E d dt cd s =
     (let cd = cd\<lparr>cd_dataType := dt\<rparr>; regs = md_data d in
      case dt of
        MDT_BOOL \<Rightarrow> (True, cd\<lparr>data_bool := (regs ! 0 \<noteq> 0)\<rparr>, s)
      | MDT_INT \<Rightarrow> (True, cd\<lparr>data_int := word_of_mem E (service_bytes E 2 regs)\<rparr>, s)
      | MDT_DWORD \<Rightarrow> (True, cd\<lparr>data_dword := word_of_mem E (service_bytes E 2 regs)\<rparr>, s)
      | MDT_DOUBLE \<Rightarrow> (True, cd\<lparr>data_dword := word_of_mem E (take 4 (service_bytes E 4 regs))\<rparr>, s)
      | MDT_TIME \<Rightarrow> (True, cd\<lparr>data_time := word_of_mem E (service_bytes E 4 regs)\<rparr>, s)
      | MDT_ENUM \<Rightarrow> (True, cd\<lparr>data_enum := word_of_mem E (service_bytes E 2 regs)\<rparr>, s)
      | MDT_CHAR \<Rightarrow> (False, cd, cm_LOG_E E 135 ''modbusToClientData'' ''Wrong data type'' s))"

section \<open>Reading the configuration\<close>

text \<open>A lookup whose failure is logged and ends the function.\<close>

definition need_string :: "env \<Rightarrow> config_t \<Rightarrow> config_setting_t option \<Rightarrow> string \<Rightarrow> int \<Rightarrow> string
    \<Rightarrow> io \<Rightarrow> string option \<times> io" where
  "need_string E cfg el name line msg s =
     (let (v, s) = lookup_string cfg el name s in
      case v of None \<Rightarrow> (None, cm_LOG_E E line ''manager_init_config'' msg s) | Some x \<Rightarrow> (v, s))"

definition need_int :: "env \<Rightarrow> config_t \<Rightarrow> config_setting_t option \<Rightarrow> string \<Rightarrow> int \<Rightarrow> string
    \<Rightarrow> io \<Rightarrow> int option \<times> io" where
  "need_int E cfg el name line msg s =
     (let (v, s) = lookup_int cfg el name s in
      case v of None \<Rightarrow> (None, cm_LOG_E E line ''manager_init_config'' msg s) | Some x \<Rightarrow> (v, s))"

fun parse_security_mode :: "string \<Rightarrow> OpcSecurityMode option" where
  "parse_security_mode t =
     (if t = ''none'' then Some OSM_NONE
      else if t = ''sign'' then Some OSM_SIGN
      else if t = ''sign_encrypt'' then Some OSM_SIGN_ENCRYPT
      else None)"

fun parse_refresh_rate :: "string \<Rightarrow> RefreshRate option" where
  "parse_refresh_rate t =
     (if t = ''100ms'' then Some RR_100ms
      else if t = ''1s'' then Some RR_1s
      else if t = ''1m'' then Some RR_1m
      else None)"

fun parse_data_type :: "string \<Rightarrow> DataType option" where
  "parse_data_type t =
     (if t = ''int'' then Some MDT_INT
      else if t = ''dword'' then Some MDT_DWORD
      else if t = ''double'' then Some MDT_DOUBLE
      else if t = ''bool'' then Some MDT_BOOL
      else if t = ''time'' then Some MDT_TIME
      else if t = ''enum'' then Some MDT_ENUM
      else if t = ''char'' then Some MDT_CHAR
      else None)"

fun parse_protocol :: "string \<Rightarrow> ClientProtocol option" where
  "parse_protocol t =
     (if t = ''modbus'' then Some CP_MODBUS
      else if t = ''opc'' then Some CP_OPC
      else None)"

fun parse_counter_type :: "string \<Rightarrow> CounterType option" where
  "parse_counter_type t =
     (if t = ''none'' then Some CT_NONE
      else if t = ''difference'' then Some CT_DIFFERENCE
      else if t = ''cumulated_not_100'' then Some CT_CUMUL_NOT_100
      else if t = ''cumulated'' then Some CT_CUMUL
      else None)"

fun parse_computation :: "string \<Rightarrow> LocalCompType option" where
  "parse_computation t =
     (if t = ''none'' then Some LCT_NONE
      else if t = ''mul_60'' then Some LCT_MUL_60
      else if t = ''mul_60000000'' then Some LCT_MUL_60000000
      else if t = ''mul_1000'' then Some LCT_MUL_1000
      else None)"

text \<open>The registers a Modbus client reads; \<open>None\<close> is a type Modbus does not support.\<close>

fun registers_for :: "DataType \<Rightarrow> int option" where
  "registers_for MDT_INT = Some 2"
| "registers_for MDT_DWORD = Some 4"
| "registers_for MDT_DOUBLE = Some 4"
| "registers_for MDT_BOOL = Some 1"
| "registers_for MDT_TIME = Some 4"
| "registers_for MDT_ENUM = Some 2"
| "registers_for MDT_CHAR = None"

definition read_common :: "env \<Rightarrow> config_t \<Rightarrow> manager_t \<Rightarrow> io \<Rightarrow> bool \<times> manager_t \<times> io" where
  "read_common E cfg m s = (case config_lookup cfg ''common'' of
      None \<Rightarrow> (False, m, cm_LOG_E E 184 ''manager_init_config'' ''No section: common'' s)
    | Some commonConf \<Rightarrow>
        (let el = config_setting_get_elem cfg commonConf 0;
             (v, s) = need_int E cfg el ''send_interval_min'' 178
                ''Wrong parameter send_interval_min, section: common'' s
         in case v of None \<Rightarrow> (False, m, s) | Some n \<Rightarrow> (True, m\<lparr>sendInterval := n\<rparr>, s)))"

record opc_conf =
  oc_server :: string
  oc_secure :: bool
  oc_mode :: OpcSecurityMode

text \<open>The section is optional: no section is success without OPC settings.\<close>

definition read_opc_ua :: "env \<Rightarrow> config_t \<Rightarrow> io \<Rightarrow> bool \<times> opc_conf option \<times> io" where
  "read_opc_ua E cfg s = (case config_lookup cfg ''opc_ua'' of
      None \<Rightarrow> (True, None, s)
    | Some conf \<Rightarrow>
        (let el = config_setting_get_elem cfg conf 0;
             (sv, s) = need_string E cfg el ''server'' 195 ''Wrong parameter: server, section: opc_ua'' s
         in case sv of None \<Rightarrow> (False, None, s) | Some server \<Rightarrow>
        (let (sc, s) = need_string E cfg el ''secure'' 200 ''Wrong parameter: secure, section: opc_ua'' s
         in case sc of None \<Rightarrow> (False, None, s) | Some sec \<Rightarrow>
        (let (sm, s) = need_string E cfg el ''security_mode'' 205 ''Wrong parameter: security_mode, section: opc_ua'' s
         in case sm of None \<Rightarrow> (False, None, s) | Some mode \<Rightarrow>
        (case parse_security_mode mode of
            None \<Rightarrow> (False, None, cm_LOG_E E 221 ''manager_init_config''
               (''Wrong security mode: '' @ mode @ '', section: opc_ua'') s)
          | Some md \<Rightarrow> (True, Some \<lparr>oc_server = server, oc_secure = (sec = ''Y''), oc_mode = md\<rparr>, s))))))"

text \<open>The strings every client must have, in the order of the lookups.\<close>

record raw_client =
  r_protocol :: string
  r_refresh :: string
  r_type :: string
  r_counter :: string
  r_computation :: string

definition lookup_client :: "env \<Rightarrow> config_t \<Rightarrow> config_setting_t option \<Rightarrow> int \<Rightarrow> ClientSettings
    \<Rightarrow> io \<Rightarrow> raw_client option \<times> ClientSettings \<times> io" where
  "lookup_client E cfg el i c s =
     (let c = c\<lparr>innerIdx := i\<rparr>;
          (v, s) = need_string E cfg el ''name'' 261 (''Wrong parameter name, client counter '' @ dec_int i) s
      in case v of None \<Rightarrow> (None, c, s) | Some name \<Rightarrow>
     (let c = c\<lparr>cs_name := Some name\<rparr>;
          (v, s) = need_string E cfg el ''protocol'' 266 (''Wrong parameter protocol, client: '' @ name) s
      in case v of None \<Rightarrow> (None, c, s) | Some pProtocol \<Rightarrow>
     (let (v, s) = need_string E cfg el ''refresh_rate'' 271 (''Wrong parameter refresh_rate, client: '' @ name) s
      in case v of None \<Rightarrow> (None, c, s) | Some pRefreshRate \<Rightarrow>
     (let (v, s) = need_string E cfg el ''data_type'' 276 (''Wrong parameter data_type, client: '' @ name) s
      in case v of None \<Rightarrow> (None, c, s) | Some pDataType \<Rightarrow>
     (let (v, s) = need_string E cfg el ''unit'' 281 (''Wrong parameter unit, client: '' @ name) s
      in case v of None \<Rightarrow> (None, c, s) | Some u \<Rightarrow>
     (let c = c\<lparr>cs_unit := Some u\<rparr>;
          (v, s) = need_string E cfg el ''counter'' 286 (''Wrong parameter counter, client: '' @ name) s
      in case v of None \<Rightarrow> (None, c, s) | Some pCounterType \<Rightarrow>
     (let (v, s) = need_string E cfg el ''computation'' 291 (''Wrong parameter computation, client: '' @ name) s
      in case v of None \<Rightarrow> (None, c, s) | Some pComputationType \<Rightarrow>
     (if MAX_CLIENT_NAME_LEN < length name then
        (None, c, cm_LOG_E E 297 ''manager_init_config''
           (''Client name too big, max '' @ dec_int (int MAX_CLIENT_NAME_LEN)) s)
      else (Some \<lparr>r_protocol = pProtocol, r_refresh = pRefreshRate, r_type = pDataType,
              r_counter = pCounterType, r_computation = pComputationType\<rparr>, c, s)))))))))"

definition parse_client :: "env \<Rightarrow> raw_client \<Rightarrow> ClientSettings \<Rightarrow> io
    \<Rightarrow> bool \<times> ClientSettings \<times> io" where
  "parse_client E r c s =
     (let name = str_or_null (cs_name c);
          bad = (\<lambda>line what v. cm_LOG_E E line ''manager_init_config'' (what @ v @ '', client: '' @ name) s)
      in case parse_refresh_rate (r_refresh r) of
           None \<Rightarrow> (False, c, bad 310 ''Wrong refresh rate: '' (r_refresh r))
         | Some rr \<Rightarrow>
     (let c = c\<lparr>refreshRate := rr\<rparr> in case parse_data_type (r_type r) of
           None \<Rightarrow> (False, c, bad 339 ''Wrong data type: '' (r_type r))
         | Some dt \<Rightarrow>
     (let c = c\<lparr>cs_dataType := dt\<rparr> in case parse_protocol (r_protocol r) of
           None \<Rightarrow> (False, c, bad 355 ''Wrong protocol type: '' (r_protocol r))
         | Some pr \<Rightarrow>
     (let c = c\<lparr>protocol := pr\<rparr> in case parse_counter_type (r_counter r) of
           None \<Rightarrow> (False, c, bad 375 ''Wrong counter type: '' (r_counter r))
         | Some ct \<Rightarrow>
     (let c = c\<lparr>counter := ct\<rparr> in case parse_computation (r_computation r) of
           None \<Rightarrow> (False, c, bad 395 ''Wrong computation type: '' (r_counter r))
         | Some lc \<Rightarrow> (True, c\<lparr>computation := lc\<rparr>, s))))))"

definition set_modbus :: "(ModbusClient \<Rightarrow> ModbusClient) \<Rightarrow> ClientSettings \<Rightarrow> ClientSettings" where
  "set_modbus f c = c\<lparr>modbus := f (modbus c)\<rparr>"

definition read_modbus_tcp :: "env \<Rightarrow> config_t \<Rightarrow> config_setting_t option \<Rightarrow> ClientSettings \<Rightarrow> io
    \<Rightarrow> bool \<times> ClientSettings \<times> io" where
  "read_modbus_tcp E cfg el c s =
     (let name = str_or_null (cs_name c);
          c = set_modbus (\<lambda>b. b\<lparr>protocolType := MPT_TCP\<rparr>) c;
          (v, s) = need_int E cfg el ''mb_port'' 424 (''Wrong parameter mb_port, client: '' @ name) s
      in case v of None \<Rightarrow> (False, c, s) | Some p \<Rightarrow>
     (let c = set_modbus (\<lambda>b. b\<lparr>mb_port := p\<rparr>) c;
          (v, s) = need_string E cfg el ''mb_ip'' 429 (''Wrong parameter mb_ip, client: '' @ name) s
      in case v of None \<Rightarrow> (False, c, s) | Some ip \<Rightarrow>
     (True, set_modbus (\<lambda>b. b\<lparr>ipAdress := Some ip\<rparr>) c, s)))"

definition read_modbus_rtu :: "env \<Rightarrow> config_t \<Rightarrow> config_setting_t option \<Rightarrow> ClientSettings \<Rightarrow> io
    \<Rightarrow> bool \<times> ClientSettings \<times> io" where
  "read_modbus_rtu E cfg el c s =
     (let name = str_or_null (cs_name c);
          c = set_modbus (\<lambda>b. b\<lparr>protocolType := MPT_RTU\<rparr>) c;
          (v, s) = need_string E cfg el ''mb_device'' 437 (''Wrong parameter mb_device, client: '' @ name) s
      in case v of None \<Rightarrow> (False, c, s) | Some d \<Rightarrow>
     (let c = set_modbus (\<lambda>b. b\<lparr>device := Some d\<rparr>) c;
          (v, s) = need_string E cfg el ''mb_parity'' 442 (''Wrong parameter mb_parity, client: '' @ name) s
      in case v of None \<Rightarrow> (False, c, s) | Some p \<Rightarrow>
     (let c = set_modbus (\<lambda>b. b\<lparr>parity := Some p\<rparr>) c;
          (v, s) = need_int E cfg el ''mb_baud_rate'' 447 (''Wrong parameter mb_baud_rate, client: '' @ name) s
      in case v of None \<Rightarrow> (False, c, s) | Some b \<Rightarrow>
     (let c = set_modbus (\<lambda>x. x\<lparr>baudRate := b\<rparr>) c;
          (v, s) = need_int E cfg el ''mb_data_bit'' 452 (''Wrong parameter mb_data_bit, client: '' @ name) s
      in case v of None \<Rightarrow> (False, c, s) | Some n \<Rightarrow>
     (let c = set_modbus (\<lambda>x. x\<lparr>dataBit := n\<rparr>) c;
          (v, s) = need_int E cfg el ''mb_stop_bit'' 457 (''Wrong parameter mb_stop_bit, client: '' @ name) s
      in case v of None \<Rightarrow> (False, c, s) | Some k \<Rightarrow>
     (True, set_modbus (\<lambda>x. x\<lparr>stopBit := k\<rparr>) c, s))))))"

text \<open>A type other than \<^verbatim>\<open>TCP\<close> and \<^verbatim>\<open>RTU\<close> reads no address and is not refused.\<close>

definition read_modbus_address :: "env \<Rightarrow> config_t \<Rightarrow> config_setting_t option \<Rightarrow> string
    \<Rightarrow> ClientSettings \<Rightarrow> io \<Rightarrow> bool \<times> ClientSettings \<times> io" where
  "read_modbus_address E cfg el pModbusType c s =
     (if pModbusType = ''TCP'' then read_modbus_tcp E cfg el c s
      else if pModbusType = ''RTU'' then read_modbus_rtu E cfg el c s
      else (True, c, s))"

definition set_registers :: "env \<Rightarrow> string \<Rightarrow> ClientSettings \<Rightarrow> io \<Rightarrow> bool \<times> ClientSettings \<times> io" where
  "set_registers E pDataType c s = (case registers_for (cs_dataType c) of
      Some n \<Rightarrow> (True, set_modbus (\<lambda>b. b\<lparr>registersToRead := n\<rparr>) c, s)
    | None \<Rightarrow> (False, c, cm_LOG_E E 483 ''manager_init_config''
        (''Wrong data type for modbus, client: '' @ pDataType) s))"

definition read_modbus :: "env \<Rightarrow> config_t \<Rightarrow> config_setting_t option \<Rightarrow> string \<Rightarrow> ClientSettings
    \<Rightarrow> io \<Rightarrow> bool \<times> ClientSettings \<times> io" where
  "read_modbus E cfg el pDataType c s =
     (let name = str_or_null (cs_name c);
          (v, s) = need_int E cfg el ''mb_id'' 405 (''Wrong parameter mb_id, client: '' @ name) s
      in case v of None \<Rightarrow> (False, c, s) | Some n \<Rightarrow>
     (let c = set_modbus (\<lambda>b. b\<lparr>mb_id := n\<rparr>) c;
          (v, s) = need_int E cfg el ''mb_offset'' 410 (''Wrong parameter mb_offset, client: '' @ name) s
      in case v of None \<Rightarrow> (False, c, s) | Some off \<Rightarrow>
     (let c = set_modbus (\<lambda>b. b\<lparr>mb_offset := off\<rparr>) c;
          (v, s) = need_string E cfg el ''mb_type'' 415 (''Wrong parameter mb_type, client: '' @ name) s
      in case v of None \<Rightarrow> (False, c, s) | Some pModbusType \<Rightarrow>
     (let (ok, c, s) = read_modbus_address E cfg el pModbusType c s
      in if \<not> ok then (False, c, s) else set_registers E pDataType c s))))"

definition read_opc :: "env \<Rightarrow> config_t \<Rightarrow> config_setting_t option \<Rightarrow> opc_conf option
    \<Rightarrow> ClientSettings \<Rightarrow> io \<Rightarrow> bool \<times> ClientSettings \<times> io" where
  "read_opc E cfg el oconf c s =
     (let name = str_or_null (cs_name c) in
      case oconf of
        None \<Rightarrow> (False, c, cm_LOG_E E 495 ''manager_init_config''
           (''client: '' @ name @ '' protocol = opc, but no opc settings in file'') s)
      | Some oc \<Rightarrow>
     (let (v, s) = need_int E cfg el ''opc_ns'' 500 (''Wrong parameter opc_ns, client: '' @ name) s
      in case v of None \<Rightarrow> (False, c, s) | Some ns \<Rightarrow>
     (let c = c\<lparr>opc := (opc c)\<lparr>nameSpace := ns\<rparr>\<rparr>;
          (v, s) = need_string E cfg el ''opc_node'' 505 (''Wrong parameter opc_node, client: '' @ name) s
      in case v of None \<Rightarrow> (False, c, s) | Some nd \<Rightarrow>
     (True, c\<lparr>opc := (opc c)\<lparr>node := Some nd, serverName := Some (oc_server oc),
        secure := oc_secure oc, securityMode := oc_mode oc, oc_dataType := cs_dataType c\<rparr>\<rparr>, s))))"

definition init_client :: "env \<Rightarrow> config_t \<Rightarrow> config_setting_t option \<Rightarrow> opc_conf option \<Rightarrow> int
    \<Rightarrow> ClientSettings \<Rightarrow> io \<Rightarrow> bool \<times> ClientSettings \<times> io" where
  "init_client E cfg el oconf i c s =
     (let (r, c, s) = lookup_client E cfg el i c s in
      case r of
        None \<Rightarrow> (False, c, s)
      | Some raw \<Rightarrow>
          (let (ok, c, s) = parse_client E raw c s in
           if \<not> ok then (False, c, s)
           else (case protocol c of
               CP_MODBUS \<Rightarrow> read_modbus E cfg el (r_type raw) c s
             | CP_OPC \<Rightarrow> read_opc E cfg el oconf c s)))"

fun init_clients :: "env \<Rightarrow> config_t \<Rightarrow> config_setting_t \<Rightarrow> opc_conf option \<Rightarrow> nat \<Rightarrow> int
    \<Rightarrow> manager_t \<Rightarrow> io \<Rightarrow> bool \<times> manager_t \<times> io" where
  "init_clients E cfg clientsConf oconf 0 i m s = (True, m, s)"
| "init_clients E cfg clientsConf oconf (Suc n) i m s =
     (let (ok, c, s) = init_client E cfg (config_setting_get_elem cfg clientsConf i) oconf i (client m i) s;
          m = put_client i c m
      in if \<not> ok then (False, m, s) else init_clients E cfg clientsConf oconf n (i + 1) m s)"

definition read_clients :: "env \<Rightarrow> config_t \<Rightarrow> opc_conf option \<Rightarrow> manager_t \<Rightarrow> io
    \<Rightarrow> bool \<times> manager_t \<times> io" where
  "read_clients E cfg oconf m s = (case config_lookup cfg ''clients'' of
      None \<Rightarrow> (False, m, cm_LOG_E E 234 ''manager_init_config'' ''No client settings'' s)
    | Some clientsConf \<Rightarrow>
        (let m = m\<lparr>clientsCnt := config_setting_length cfg clientsConf\<rparr> in
         if clientsCnt m = 0 then
           (False, m, cm_LOG_E E 242 ''manager_init_config'' ''No clients in settings file'' s)
         else if int MAX_CLIENT_NUM < clientsCnt m then
           (False, m, cm_LOG_E E 248 ''manager_init_config'' (''Too many clients, got ''
              @ dec_int (clientsCnt m) @ '', max '' @ dec_int (int MAX_CLIENT_NUM)) s)
         else init_clients E cfg clientsConf oconf (nat (clientsCnt m)) 0 m s))"

definition manager_init_config :: "env \<Rightarrow> config_t \<Rightarrow> manager_t \<Rightarrow> io \<Rightarrow> bool \<times> manager_t \<times> io" where
  "manager_init_config E cfg m s =
     (let (ok, m, s) = read_common E cfg m s in
      if \<not> ok then (False, m, s)
      else
        (let (ok, oconf, s) = read_opc_ua E cfg s in
         if \<not> ok then (False, m, s) else read_clients E cfg oconf m s))"

section \<open>Connections\<close>

definition connect_modbus :: "env \<Rightarrow> InnerIdx \<Rightarrow> manager_t \<Rightarrow> io \<Rightarrow> bool \<times> manager_t \<times> io" where
  "connect_modbus E i m s =
     (let c = client m i;
          (ok, mb, s) = modbusConnect E (modbus c) s;
          m = put_client i (c\<lparr>modbus := mb, connected := ok\<rparr>) m
      in (ok, m,
          if ok then log_info E (''Client: '' @ name_of m i @ '', new modbus connection'') s
          else (case protocolType mb of
              MPT_TCP \<Rightarrow> cm_LOG_E E 549 ''manager_init_connections'' (''Client: '' @ name_of m i
                @ '', connection FAIL, for ip: '' @ str_or_null (ipAdress mb) @ '', port ''
                @ dec_int (mb_port mb)) s
            | MPT_RTU \<Rightarrow> cm_LOG_E E 554 ''manager_init_connections'' (''Client: '' @ name_of m i
                @ '', connection FAIL, device: '' @ str_or_null (device mb) @ '', baud: ''
                @ dec_int (baudRate mb)) s)))"

definition connect_opc :: "env \<Rightarrow> InnerIdx \<Rightarrow> manager_t \<Rightarrow> io \<Rightarrow> bool \<times> manager_t \<times> io" where
  "connect_opc E i m s =
     (let c = opc (client m i);
          (ok, h, s) = opcConnect E (serverName c) (secure c) (securityMode c) OPC_APP_URI
                         OPC_CERT_PATH OPC_KEY_PATH s
      in (ok, m\<lparr>opc_handle := h\<rparr>, s))"

text \<open>The locals of the loop: all connected so far, first OPC client still to come, OPC connected.\<close>

fun connect_loop :: "env \<Rightarrow> nat \<Rightarrow> InnerIdx \<Rightarrow> bool \<Rightarrow> bool \<Rightarrow> bool \<Rightarrow> manager_t \<Rightarrow> io
    \<Rightarrow> bool \<times> manager_t \<times> io" where
  "connect_loop E 0 i allClientsConnected opcFirstConnection opcConnected m s =
     (allClientsConnected, m, s)"
| "connect_loop E (Suc n) i allClientsConnected opcFirstConnection opcConnected m s =
     (case protocol (client m i) of
        CP_MODBUS \<Rightarrow>
          (let (ok, m, s) = connect_modbus E i m s in
           connect_loop E n (i + 1) (allClientsConnected \<and> ok) opcFirstConnection opcConnected m s)
      | CP_OPC \<Rightarrow>
          (let (ok, m, s) = (if opcFirstConnection then connect_opc E i m s else (opcConnected, m, s));
               s = (if opcFirstConnection then
                      (if ok then log_info E (''Client: '' @ name_of m i @ '', connected OK'') s
                       else cm_LOG_E E 581 ''manager_init_connections''
                              (''Client: '' @ name_of m i @ '', connection FAIL'') s)
                    else s);
               m = put_client i ((client m i)\<lparr>connected := ok\<rparr>) m
           in connect_loop E n (i + 1) (allClientsConnected \<and> (opcFirstConnection \<longrightarrow> ok)) False ok m s))"

definition manager_init_connections :: "env \<Rightarrow> manager_t \<Rightarrow> io \<Rightarrow> bool \<times> manager_t \<times> io" where
  "manager_init_connections E m s = connect_loop E (nat (clientsCnt m)) 0 True True False m s"

definition manager_get_client :: "InnerIdx \<Rightarrow> manager_t \<Rightarrow> ClientSettings option" where
  "manager_get_client i m = (if i < 0 \<or> clientsCnt m - 1 < i then None else Some (client m i))"

text \<open>The refusal of a bad index formats the name at that index: outside the table a fault.\<close>

definition wrong_index :: "env \<Rightarrow> int \<Rightarrow> string \<Rightarrow> InnerIdx \<Rightarrow> manager_t \<Rightarrow> io \<Rightarrow> io" where
  "wrong_index E line fn i m s =
     cm_LOG_E E line fn (''Wrong innerIdx: '' @ dec_int i @ '', min 0, max '' @ dec_int (clientsCnt m - 1)
       @ '', client: '' @ (if in_table i then name_of m i else [])) (ub_if (\<not> in_table i) Out_Of_Bounds s)"

definition manager_receive_data_simple :: "env \<Rightarrow> InnerIdx \<Rightarrow> ClientData \<Rightarrow> manager_t \<Rightarrow> io
    \<Rightarrow> bool \<times> ClientData \<times> manager_t \<times> io" where
  "manager_receive_data_simple E i cd m s =
     (if i < 0 \<or> clientsCnt m - 1 < i then
        (False, cd, m, wrong_index E 625 ''manager_receive_data_simple'' i m s)
      else if \<not> connected (client m i) then
        (False, cd, m, cm_LOG_E E 632 ''manager_receive_data_simple''
           (''Client: '' @ name_of m i @ '' not connected, need reconnect'') s)
      else (case protocol (client m i) of
          CP_MODBUS \<Rightarrow>
            (let (got, d, s) = modbusReceiveData E (modbus (client m i)) s in
             if got then
               (let (ok, cd, s) = modbusToClientData E d (cs_dataType (client m i)) cd s in
                if \<not> ok then (False, cd, m, cm_LOG_E E 646 ''manager_receive_data_simple''
                     (''Can't convert data, client: '' @ name_of m i) s)
                else (True, cd, m, s))
             else (False, cd, setConnectStatus i False m,
               cm_LOG_E E 652 ''manager_receive_data_simple''
                 (''Can't receive data, client: '' @ name_of m i) s))
        | CP_OPC \<Rightarrow>
            (let (ok, cd, s) = opcReceiveData E (opc (client m i)) cd (opc_handle m) s in
             if \<not> ok then (False, cd, setConnectStatus i False m,
               cm_LOG_E E 661 ''manager_receive_data_simple''
                 (''Can't receive data, client: '' @ name_of m i) s)
             else (True, cd, m, s))))"

definition manager_reconnect :: "env \<Rightarrow> InnerIdx \<Rightarrow> manager_t \<Rightarrow> io \<Rightarrow> bool \<times> manager_t \<times> io" where
  "manager_reconnect E i m s =
     (if i < 0 \<or> clientsCnt m - 1 < i then
        (False, m, wrong_index E 685 ''manager_reconnect'' i m s)
      else (case protocol (client m i) of
          CP_MODBUS \<Rightarrow>
            (let (ok, s) = modbusReconnect E (modbus (client m i)) s in
             if ok then (True, setConnectStatus i True m,
               log_info E (''client: '' @ name_of m i @ '', modbus reconnected'') s)
             else (False, setConnectStatus i False m,
               cm_LOG_E E 700 ''manager_reconnect'' (''Can't reconnect, client: '' @ name_of m i) s))
        | CP_OPC \<Rightarrow>
            (let (h, s) = opcCloseConnection (opc_handle m) s;
                 (ok, m, s) = connect_opc E i (m\<lparr>opc_handle := h\<rparr>) s
             in if ok then (True, setConnectStatus i True m,
               log_info E (''client: '' @ name_of m i @ '', reconnected OK'') s)
             else (False, setConnectStatus i False m,
               cm_LOG_E E 721 ''manager_reconnect'' (''Can't reconnect, client: '' @ name_of m i) s))))"

text \<open>The second half: what happens when the first attempt to receive has failed.\<close>

definition receive_again :: "env \<Rightarrow> InnerIdx \<Rightarrow> ClientData \<Rightarrow> manager_t \<Rightarrow> io
    \<Rightarrow> bool \<times> ClientData \<times> manager_t \<times> io" where
  "receive_again E i cd m s =
     (let s = cm_LOG_E E 768 ''manager_receive_data''
                (''Error receiving data, client: '' @ name_of m i @ '', try to reconnect'') s;
          m = setConnectStatus i False m;
          (re, m, s) = manager_reconnect E i m s
      in if \<not> re then (False, cd, m, cm_LOG_E E 774 ''manager_receive_data''
           (''Reconnection error, client: '' @ name_of m i) s)
         else
           (let (ok, cd, m, s) = manager_receive_data_simple E i cd m s in
            if \<not> ok then (False, cd, m, cm_LOG_E E 781 ''manager_receive_data''
              (''Error receiving data, client: '' @ name_of m i) s)
            else (True, cd, setConnectStatus i True m, s)))"

text \<open>The first half: a client that is not connected is reconnected before anything is read.\<close>

definition ensure_connected :: "env \<Rightarrow> InnerIdx \<Rightarrow> manager_t \<Rightarrow> io \<Rightarrow> bool \<times> manager_t \<times> io" where
  "ensure_connected E i m s =
     (if connected (client m i) then (True, m, s)
      else
        (let s = cm_LOG_E E 755 ''manager_receive_data''
                   (''Client: '' @ name_of m i @ '' not connected, try to reconnect'') s;
             (re, m, s) = manager_reconnect E i m s
         in (re, m, if re then s else cm_LOG_E E 760 ''manager_receive_data''
               (''Reconnection error, client: '' @ name_of m i) s)))"

definition manager_receive_data :: "env \<Rightarrow> InnerIdx \<Rightarrow> ClientData \<Rightarrow> manager_t \<Rightarrow> io
    \<Rightarrow> bool \<times> ClientData \<times> manager_t \<times> io" where
  "manager_receive_data E i cd m s =
     (if i < 0 \<or> clientsCnt m - 1 < i then
        (False, cd, m, wrong_index E 747 ''manager_receive_data'' i m s)
      else
        (let (ready, m, s) = ensure_connected E i m s in
         if \<not> ready then (False, cd, m, s)
         else
           (let (ok, cd, m, s) = manager_receive_data_simple E i cd m s in
            if ok then (True, cd, m, s) else receive_again E i cd m s)))"

fun close_loop :: "nat \<Rightarrow> InnerIdx \<Rightarrow> bool \<Rightarrow> manager_t \<Rightarrow> io \<Rightarrow> manager_t \<times> io" where
  "close_loop 0 i opcClose m s = (m, s)"
| "close_loop (Suc n) i opcClose m s = (case protocol (client m i) of
      CP_MODBUS \<Rightarrow>
        (let (mb, s) = modbusCloseConnection (modbus (client m i)) s in
         close_loop n (i + 1) opcClose
           (put_client i ((client m i)\<lparr>modbus := mb, connected := False\<rparr>) m) s)
    | CP_OPC \<Rightarrow>
        (let (h, s) = (if opcClose then (opc_handle m, s) else opcCloseConnection (opc_handle m) s);
             m = m\<lparr>opc_handle := h\<rparr>
         in close_loop n (i + 1) True (put_client i ((client m i)\<lparr>connected := False\<rparr>) m) s))"

definition manager_close_all_connections :: "manager_t \<Rightarrow> io \<Rightarrow> manager_t \<times> io" where
  "manager_close_all_connections m s = close_loop (nat (clientsCnt m)) 0 False m s"

definition manager_get_send_interval :: "env \<Rightarrow> manager_t \<Rightarrow> io \<Rightarrow> int \<times> io" where
  "manager_get_send_interval E m s =
     (sendInterval m,
      if sendInterval m \<le> 0 then cm_LOG_E E 833 ''manager_get_send_interval''
        (''Wrong _sendInterval: '' @ dec_int (sendInterval m) @ '', need reinit'') s
      else s)"

definition manager_get_clients_count :: "manager_t \<Rightarrow> int" where
  "manager_get_clients_count m = clientsCnt m"

section \<open>What never changes after the configuration is read\<close>

text \<open>A client without its connection state.\<close>

definition static :: "ClientSettings \<Rightarrow> ClientSettings" where
  "static c = c\<lparr>connected := False, modbus := (modbus c)\<lparr>mb_context := None\<rparr>\<rparr>"

definition same_table :: "manager_t \<Rightarrow> manager_t \<Rightarrow> bool" where
  "same_table m m' \<longleftrightarrow> clientsCnt m' = clientsCnt m \<and> sendInterval m' = sendInterval m
     \<and> map static (clientSettings m') = map static (clientSettings m)"

lemma same_table_refl [simp]: "same_table m m"
  by (simp add: same_table_def)

lemma same_table_trans [trans]: "same_table m m' \<Longrightarrow> same_table m' m'' \<Longrightarrow> same_table m m''"
  by (simp add: same_table_def)

lemma same_table_length: "same_table m m' \<Longrightarrow> length (clientSettings m') = length (clientSettings m)"
  unfolding same_table_def by (metis length_map)

lemma same_table_static:
  assumes "same_table m m'" and "nat i < length (clientSettings m)"
  shows "static (client m' i) = static (client m i)"
  using assms same_table_length [OF assms(1)] unfolding same_table_def client_def by (metis nth_map)

lemma static_fields:
  assumes "static c' = static c"
  shows "cs_name c' = cs_name c" "cs_unit c' = cs_unit c" "innerIdx c' = innerIdx c"
    "refreshRate c' = refreshRate c" "protocol c' = protocol c" "cs_dataType c' = cs_dataType c"
    "counter c' = counter c" "computation c' = computation c" "opc c' = opc c"
    "(modbus c')\<lparr>mb_context := None\<rparr> = (modbus c)\<lparr>mb_context := None\<rparr>"
  using assms by (cases c; cases c'; simp add: static_def)+

lemma client_put [simp]:
  "nat i < length (clientSettings m) \<Longrightarrow>
     client (put_client i c m) j = (if nat j = nat i then c else client m j)"
  by (simp add: client_def put_client_def)

lemma put_client_sel [simp]:
  "clientsCnt (put_client i c m) = clientsCnt m" "sendInterval (put_client i c m) = sendInterval m"
  "opc_handle (put_client i c m) = opc_handle m"
  "length (clientSettings (put_client i c m)) = length (clientSettings m)"
  by (simp_all add: put_client_def)

lemma client_handle [simp]: "client (m\<lparr>opc_handle := h\<rparr>) i = client m i"
  by (simp add: client_def)

lemma same_table_handle [simp]: "same_table m (m'\<lparr>opc_handle := h\<rparr>) = same_table m m'"
  by (simp add: same_table_def)

lemma same_table_put:
  assumes "same_table m0 m" and "static c = static (client m i)"
  shows "same_table m0 (put_client i c m)"
proof -
  have "map static ((clientSettings m)[nat i := c]) = map static (clientSettings m)"
    by (rule map_list_update_same) (use assms(2) in \<open>simp add: client_def\<close>)
  with assms(1) show ?thesis by (simp add: same_table_def put_client_def)
qed

lemma set_opc_status_static [simp]:
  "map static (set_opc_status n b cs) = map static cs" "length (set_opc_status n b cs) = length cs"
  by (induction n b cs rule: set_opc_status.induct) (simp_all add: static_def)

lemma set_opc_status_nth:
  "i < length cs \<Longrightarrow> set_opc_status n b cs ! i =
     (if i < n \<and> protocol (cs ! i) = CP_OPC then (cs ! i)\<lparr>connected := b\<rparr> else cs ! i)"
proof (induction n b cs arbitrary: i rule: set_opc_status.induct)
  case (3 n b c cs)
  then show ?case by (cases i) auto
qed auto

lemma same_table_status: "same_table m0 m \<Longrightarrow> same_table m0 (setConnectStatus i b m)"
  by (auto simp: setConnectStatus_def same_table_def static_def split: ClientProtocol.splits
      intro!: same_table_put [unfolded same_table_def, THEN conjunct2, THEN conjunct2])

lemma status_sel [simp]:
  "clientsCnt (setConnectStatus i b m) = clientsCnt m" "opc_handle (setConnectStatus i b m) = opc_handle m"
  "sendInterval (setConnectStatus i b m) = sendInterval m"
  "length (clientSettings (setConnectStatus i b m)) = length (clientSettings m)"
  by (simp_all add: setConnectStatus_def split: ClientProtocol.splits)

text \<open>The client itself always gets the status, and with an OPC client all OPC clients.\<close>

lemma client_status:
  assumes "nat i < length (clientSettings m)" and "nat j < length (clientSettings m)" and "0 \<le> i" "0 \<le> j"
    and "i < clientsCnt m"
  shows "client (setConnectStatus i b m) j =
     (if j = i \<or> protocol (client m i) = CP_OPC \<and> protocol (client m j) = CP_OPC \<and> j < clientsCnt m
      then (client m j)\<lparr>connected := b\<rparr> else client m j)"
  using assms
  by (auto simp: setConnectStatus_def client_def set_opc_status_nth put_client_def nth_list_update
      eq_nat_nat_iff split: ClientProtocol.splits)

section \<open>The operations keep the table\<close>

lemma connect_modbus_table:
  assumes "connect_modbus E i m s = (ok, m', s')" and "nat i < length (clientSettings m)"
  shows "same_table m m'" "connected (client m' i) = ok" "opc_handle m' = opc_handle m"
    and "nat j \<noteq> nat i \<Longrightarrow> client m' j = client m j"
proof -
  obtain mb s1 where mb: "modbusConnect E (modbus (client m i)) s = (ok, mb, s1)"
    using assms(1) by (auto simp: connect_modbus_def Let_def split_beta prod_eq_iff)
  have m': "m' = put_client i ((client m i)\<lparr>modbus := mb, connected := ok\<rparr>) m"
    using assms(1) by (auto simp: connect_modbus_def mb Let_def)
  obtain x where x: "mb = (modbus (client m i))\<lparr>mb_context := x\<rparr>"
    using modbusConnect_context [OF mb] by blast
  have "static ((client m i)\<lparr>modbus := mb, connected := ok\<rparr>) = static (client m i)"
    by (simp add: static_def x)
  then show "same_table m m'" unfolding m' by (intro same_table_put) simp_all
  show "connected (client m' i) = ok" "opc_handle m' = opc_handle m"
    "nat j \<noteq> nat i \<Longrightarrow> client m' j = client m j"
    using assms(2) by (simp_all add: m')
qed

text \<open>A connection attempt of one OPC client leaves the table alone but for the shared handle.\<close>

lemma connect_opc_sel:
  assumes "connect_opc E i m s = (ok, m', s')"
  shows "m' = m\<lparr>opc_handle := opc_handle m'\<rparr>" "ok \<Longrightarrow> opc_handle m' \<noteq> None"
  using assms
  by (auto simp: connect_opc_def opcConnect_def Let_def split_beta split: option.splits if_splits)

definition in_range :: "manager_t \<Rightarrow> InnerIdx \<Rightarrow> bool" where
  "in_range m i \<longleftrightarrow> 0 \<le> i \<and> i < clientsCnt m"

definition sized :: "manager_t \<Rightarrow> bool" where
  "sized m \<longleftrightarrow> length (clientSettings m) = MAX_CLIENT_NUM + 1 \<and> clientsCnt m \<le> int MAX_CLIENT_NUM"

lemma sized_index [simp]:
  assumes "sized m" and "in_range m i"
  shows "nat i < length (clientSettings m)"
proof -
  have "length (clientSettings m) = MAX_CLIENT_NUM + 1" "clientsCnt m \<le> int MAX_CLIENT_NUM"
    using assms(1) unfolding sized_def by blast+
  moreover have "0 \<le> i" "i < clientsCnt m" using assms(2) unfolding in_range_def by blast+
  ultimately show ?thesis by linarith
qed

lemma same_table_sized: "same_table m m' \<Longrightarrow> sized m' = sized m"
  by (frule same_table_length) (simp add: sized_def same_table_def)

lemma same_table_range: "same_table m m' \<Longrightarrow> in_range m' i = in_range m i"
  by (simp add: in_range_def same_table_def)

lemma same_table_fields:
  assumes "same_table m m'" and "sized m" and "in_range m i"
  shows "cs_name (client m' i) = cs_name (client m i)" "innerIdx (client m' i) = innerIdx (client m i)"
    "refreshRate (client m' i) = refreshRate (client m i)" "protocol (client m' i) = protocol (client m i)"
    "cs_dataType (client m' i) = cs_dataType (client m i)" "counter (client m' i) = counter (client m i)"
    "computation (client m' i) = computation (client m i)" "opc (client m' i) = opc (client m i)"
    "(modbus (client m' i))\<lparr>mb_context := None\<rparr> = (modbus (client m i))\<lparr>mb_context := None\<rparr>"
  using static_fields [OF same_table_static [OF assms(1) sized_index [OF assms(2,3)]]] by simp_all

text \<open>All OPC clients of the table have the same status.\<close>

definition opc_status :: "bool \<Rightarrow> manager_t \<Rightarrow> bool" where
  "opc_status b m \<longleftrightarrow> (\<forall>i. in_range m i \<and> protocol (client m i) = CP_OPC \<longrightarrow> connected (client m i) = b)"

definition opc_shared :: "manager_t \<Rightarrow> bool" where
  "opc_shared m \<longleftrightarrow> (\<exists>b. opc_status b m)"

lemma status_shared:
  assumes "sized m" and "in_range m i" and "opc_shared m"
  shows "opc_shared (setConnectStatus i b m)"
proof -
  have c: "client (setConnectStatus i b m) j = (if j = i \<or> protocol (client m i) = CP_OPC
      \<and> protocol (client m j) = CP_OPC \<and> j < clientsCnt m
      then (client m j)\<lparr>connected := b\<rparr> else client m j)" if "in_range m j" for j
    using assms(1,2) that by (intro client_status) (auto simp: in_range_def)
  have r: "in_range (setConnectStatus i b m) j = in_range m j" for j by (simp add: in_range_def)
  show ?thesis
  proof (cases "protocol (client m i) = CP_OPC")
    case True
    then have "opc_status b (setConnectStatus i b m)"
      using c r by (auto simp: opc_status_def in_range_def)
    then show ?thesis by (auto simp: opc_shared_def)
  next
    case False
    from assms(3) obtain b' where "opc_status b' m" by (auto simp: opc_shared_def)
    then have "opc_status b' (setConnectStatus i b m)"
      using c r False by (auto simp: opc_status_def)
    then show ?thesis by (auto simp: opc_shared_def)
  qed
qed

lemma opc_shared_handle [simp]: "opc_shared (m\<lparr>opc_handle := h\<rparr>) = opc_shared m"
  by (simp add: opc_shared_def opc_status_def in_range_def)

text \<open>What every step of receiving keeps, and what it says about the client in question.\<close>

definition kept :: "manager_t \<Rightarrow> manager_t \<Rightarrow> bool" where
  "kept m m' \<longleftrightarrow> same_table m m' \<and> (opc_shared m \<longrightarrow> opc_shared m')"

lemma kept_refl [simp]: "kept m m"
  by (simp add: kept_def)

lemma kept_trans [trans]: "kept m m' \<Longrightarrow> kept m' m'' \<Longrightarrow> kept m m''"
  unfolding kept_def by (meson same_table_trans)

lemma kept_handle [simp]: "kept m (m\<lparr>opc_handle := h\<rparr>)"
  by (simp add: kept_def)

lemma kept_status: "sized m \<Longrightarrow> in_range m i \<Longrightarrow> kept m (setConnectStatus i b m)"
  by (simp add: kept_def same_table_status status_shared)

lemma connected_status: "sized m \<Longrightarrow> in_range m i \<Longrightarrow> connected (client (setConnectStatus i b m) i) = b"
  using client_status [of i m i b] by (auto simp: in_range_def)

lemma kept_connect_opc: "connect_opc E i m s = (ok, m', s') \<Longrightarrow> kept m m'"
  using connect_opc_sel(1) by (metis kept_handle)

lemma reconnect_result:
  assumes "sized m" and "in_range m i" and "manager_reconnect E i m s = (ok, m', s')"
  shows "kept m m'" "connected (client m' i) = ok"
    and "protocol (client m i) = CP_OPC \<Longrightarrow> ok \<Longrightarrow> opc_handle m' \<noteq> None"
    and "protocol (client m i) = CP_MODBUS \<Longrightarrow> opc_handle m' = opc_handle m"
proof -
  have i: "\<not> (i < 0 \<or> clientsCnt m - 1 < i)" using assms(2) by (auto simp: in_range_def)
  obtain h s1 ok2 m2 s2 where c: "opcCloseConnection (opc_handle m) s = (h, s1)"
    and o: "connect_opc E i (m\<lparr>opc_handle := h\<rparr>) s1 = (ok2, m2, s2)" by (metis prod_cases3 surj_pair)
  have m2: "m2 = m\<lparr>opc_handle := opc_handle m2\<rparr>" "ok2 \<Longrightarrow> opc_handle m2 \<noteq> None"
    using connect_opc_sel [OF o] by simp_all
  have s2: "sized m2" "in_range m2 i" by (subst m2(1), use assms in \<open>simp add: sized_def in_range_def\<close>)+
  have k2: "kept m m2" by (subst m2(1)) simp
  have "m' = (case protocol (client m i) of CP_MODBUS \<Rightarrow> setConnectStatus i ok m | CP_OPC \<Rightarrow> setConnectStatus i ok m2)
      \<and> (protocol (client m i) = CP_OPC \<longrightarrow> ok = ok2)"
    using assms(3) i by (auto simp: manager_reconnect_def c o Let_def split_beta split: ClientProtocol.splits if_splits)
  then show "kept m m'" "connected (client m' i) = ok"
    "protocol (client m i) = CP_OPC \<Longrightarrow> ok \<Longrightarrow> opc_handle m' \<noteq> None"
    "protocol (client m i) = CP_MODBUS \<Longrightarrow> opc_handle m' = opc_handle m"
    using assms(1,2) s2 m2(2) kept_status kept_trans [OF k2]
    by (auto simp: connected_status split: ClientProtocol.splits)
qed

section \<open>Well-formed tables\<close>

definition client_ok :: "ClientSettings \<Rightarrow> bool" where
  "client_ok c \<longleftrightarrow> (\<exists>n. cs_name c = Some n \<and> length n \<le> MAX_CLIENT_NAME_LEN) \<and> cs_unit c \<noteq> None
     \<and> (case protocol c of
          CP_MODBUS \<Rightarrow> registers_for (cs_dataType c) = Some (registersToRead (modbus c))
        | CP_OPC \<Rightarrow> node (opc c) \<noteq> None \<and> serverName (opc c) \<noteq> None \<and> oc_dataType (opc c) = cs_dataType c)"

definition table_wf :: "manager_t \<Rightarrow> bool" where
  "table_wf m \<longleftrightarrow> sized m \<and> 1 \<le> clientsCnt m
     \<and> (\<forall>i. in_range m i \<longrightarrow> innerIdx (client m i) = i \<and> client_ok (client m i))"

lemma table_wf_sized: "table_wf m \<Longrightarrow> sized m"
  by (simp add: table_wf_def)

lemma table_wf_client: "table_wf m \<Longrightarrow> in_range m i \<Longrightarrow> innerIdx (client m i) = i \<and> client_ok (client m i)"
  by (simp add: table_wf_def)

lemma registers_same:
  "b\<lparr>mb_context := None\<rparr> = c\<lparr>mb_context := None\<rparr> \<Longrightarrow> registersToRead b = registersToRead c"
  by (cases b; cases c) simp

lemma same_table_wf:
  assumes "same_table m m'" and "table_wf m"
  shows "table_wf m'"
proof -
  have s: "sized m" using assms(2) by (rule table_wf_sized)
  have "innerIdx (client m' i) = i \<and> client_ok (client m' i)" if "in_range m' i" for i
  proof -
    have i: "in_range m i" using that same_table_range [OF assms(1)] by simp
    note f = same_table_fields [OF assms(1) s i]
    have "cs_unit (client m' i) = cs_unit (client m i)"
      using static_fields(2) [OF same_table_static [OF assms(1) sized_index [OF s i]]] .
    with f registers_same [OF f(9)] table_wf_client [OF assms(2) i] show ?thesis
      by (cases "protocol (client m i)") (simp_all add: client_ok_def)
  qed
  moreover have "sized m'" using s same_table_sized [OF assms(1)] by simp
  moreover have "1 \<le> clientsCnt m'" using assms by (simp add: same_table_def table_wf_def)
  ultimately show ?thesis by (simp add: table_wf_def)
qed

lemma opc_convert_type: "cd_dataType (fst (snd (opc_convert_variant E c v cd s))) = cd_dataType cd"
  by (simp add: opc_convert_variant_def opc_convert_def opc_store_int_def Let_def
      split: option.splits DataType.splits ua_value.splits)

lemma opcReceiveData_type:
  "opcReceiveData E c cd h s = (True, cd', s') \<Longrightarrow> cd_dataType cd' = oc_dataType c"
  by (auto simp: opcReceiveData_def Let_def split_beta opc_convert_type UA_STATUSCODE_GOOD_def
      UA_STATUSCODE_BADCOMMUNICATIONERROR_def UA_STATUSCODE_BADDATATYPEIDUNKNOWN_def split: option.splits if_splits)

lemma modbusToClientData_ok:
  "modbusToClientData E d dt cd s = (ok, cd', s') \<Longrightarrow> dt \<noteq> MDT_CHAR \<Longrightarrow> ok \<and> cd_dataType cd' = dt \<and> s' = s"
  by (cases dt) (auto simp: modbusToClientData_def Let_def)

lemma receive_simple_result:
  assumes "table_wf m" and "in_range m i" and "manager_receive_data_simple E i cd m s = (ok, cd', m', s')"
  shows "kept m m'" "connected (client m' i) = ok" "ok \<Longrightarrow> cd_dataType cd' = cs_dataType (client m i)"
proof -
  have sz: "sized m" using assms(1) by (rule table_wf_sized)
  have r: "\<not> (i < 0 \<or> clientsCnt m - 1 < i)" using assms(2) by (auto simp: in_range_def)
  have ok: "client_ok (client m i)" using table_wf_client [OF assms(1,2)] by simp
  note st = kept_status [OF sz assms(2)] connected_status [OF sz assms(2)]
  consider "\<not> connected (client m i)" | "connected (client m i)" "protocol (client m i) = CP_MODBUS"
    | "connected (client m i)" "protocol (client m i) = CP_OPC"
    by (cases "protocol (client m i)") auto
  then have "kept m m' \<and> connected (client m' i) = ok \<and> (ok \<longrightarrow> cd_dataType cd' = cs_dataType (client m i))"
  proof cases
    case 1
    with assms(3) r show ?thesis by (auto simp: manager_receive_data_simple_def)
  next
    case 2
    obtain got d s1 where g: "modbusReceiveData E (modbus (client m i)) s = (got, d, s1)" by (metis prod_cases3)
    obtain ok2 cd2 s2 where c: "modbusToClientData E d (cs_dataType (client m i)) cd s1 = (ok2, cd2, s2)"
      by (metis prod_cases3)
    have "cs_dataType (client m i) \<noteq> MDT_CHAR" using ok 2 by (auto simp: client_ok_def)
    from modbusToClientData_ok [OF c this] show ?thesis
      using assms(3) r 2 st by (cases got) (auto simp: manager_receive_data_simple_def g c)
  next
    case 3
    obtain ok2 cd2 s1 where g: "opcReceiveData E (opc (client m i)) cd (opc_handle m) s = (ok2, cd2, s1)"
      by (metis prod_cases3)
    have "oc_dataType (opc (client m i)) = cs_dataType (client m i)" using ok 3 by (simp add: client_ok_def)
    then have "ok2 \<Longrightarrow> cd_dataType cd2 = cs_dataType (client m i)"
      using opcReceiveData_type [of E "opc (client m i)" cd "opc_handle m" s cd2 s1] g by simp
    then show ?thesis
      using assms(3) r 3 st by (cases ok2) (auto simp: manager_receive_data_simple_def g)
  qed
  then show "kept m m'" "connected (client m' i) = ok" "ok \<Longrightarrow> cd_dataType cd' = cs_dataType (client m i)"
    by auto
qed

lemma ensure_connected_result:
  assumes "sized m" and "in_range m i" and "ensure_connected E i m s = (ok, m', s')"
  shows "kept m m'" "connected (client m' i) = ok"
proof -
  obtain s1 re m2 s2 where rec: "\<not> connected (client m i) \<Longrightarrow> manager_reconnect E i m s1 = (re, m2, s2)"
    and m': "m' = (if connected (client m i) then m else m2)" and ok: "ok = (connected (client m i) \<or> re)"
    using assms(3) by (cases "connected (client m i)") (auto simp: ensure_connected_def Let_def split_beta prod_eq_iff)
  show "kept m m'" "connected (client m' i) = ok"
    using reconnect_result(1,2) [OF assms(1,2) rec] by (auto simp: m' ok)
qed

lemma kept_wf: "kept m m' \<Longrightarrow> table_wf m \<Longrightarrow> table_wf m'"
  using same_table_wf by (auto simp: kept_def)

lemma kept_range: "kept m m' \<Longrightarrow> in_range m' i = in_range m i"
  using same_table_range by (auto simp: kept_def)

lemma kept_type: "kept m m' \<Longrightarrow> table_wf m \<Longrightarrow> in_range m i \<Longrightarrow> cs_dataType (client m' i) = cs_dataType (client m i)"
  using same_table_fields(5) table_wf_sized by (auto simp: kept_def)

lemma receive_again_result:
  assumes "table_wf m" and "in_range m i" and "receive_again E i cd m s = (ok, cd', m', s')"
  shows "kept m m' \<and> connected (client m' i) = ok \<and> (ok \<longrightarrow> cd_dataType cd' = cs_dataType (client m i))"
proof -
  let ?m1 = "setConnectStatus i False m"
  have sz: "sized m" using assms(1) by (rule table_wf_sized)
  have k1: "kept m ?m1" by (rule kept_status [OF sz assms(2)])
  obtain re m2 s2 where rec: "manager_reconnect E i ?m1 (cm_LOG_E E 768 ''manager_receive_data''
      (''Error receiving data, client: '' @ name_of m i @ '', try to reconnect'') s) = (re, m2, s2)"
    by (metis prod_cases3)
  have run: "receive_again E i cd m s = (if \<not> re then (False, cd, m2, cm_LOG_E E 774 ''manager_receive_data''
           (''Reconnection error, client: '' @ name_of m2 i) s2)
         else (let (ok, cd, m, s) = manager_receive_data_simple E i cd m2 s2 in
            if \<not> ok then (False, cd, m, cm_LOG_E E 781 ''manager_receive_data''
              (''Error receiving data, client: '' @ name_of m i) s)
            else (True, cd, setConnectStatus i True m, s)))"
    by (simp only: receive_again_def Let_def rec prod.case)
  note w1 = kept_wf [OF k1 assms(1)] and r1 = kept_range [OF k1, of i]
  note rr = reconnect_result [OF table_wf_sized [OF w1] _ rec, unfolded r1, OF assms(2)]
  have k2: "kept m m2" using k1 rr(1) by (rule kept_trans)
  have w2: "table_wf m2" "in_range m2 i" using kept_wf [OF k2 assms(1)] kept_range [OF k2] assms(2) by simp_all
  obtain ok3 cd3 m3 s3 where sim: "manager_receive_data_simple E i cd m2 s2 = (ok3, cd3, m3, s3)"
    by (metis prod_cases4)
  note r3 = receive_simple_result [OF w2 sim]
  have k3: "kept m m3" using k2 r3(1) by (rule kept_trans)
  have w3: "sized m3" "in_range m3 i"
    using table_wf_sized [OF kept_wf [OF k3 assms(1)]] kept_range [OF k3] assms(2) by simp_all
  note st = kept_trans [OF k3 kept_status [OF w3]] connected_status [OF w3]
  show ?thesis
    using run assms(3) k2 k3 rr(2) r3(2,3) st kept_type [OF k2 assms(1,2)]
    by (cases re; cases ok3) (auto simp: sim)
qed

lemma receive_data_result:
  assumes "table_wf m" and "in_range m i" and "manager_receive_data E i cd m s = (ok, cd', m', s')"
  shows "same_table m m' \<and> table_wf m' \<and> (opc_shared m \<longrightarrow> opc_shared m')
     \<and> ok = connected (client m' i) \<and> (ok \<longrightarrow> cd_dataType cd' = cs_dataType (client m i))"
proof -
  have r: "\<not> (i < 0 \<or> clientsCnt m - 1 < i)" using assms(2) by (auto simp: in_range_def)
  obtain ready m1 s1 where first: "ensure_connected E i m s = (ready, m1, s1)" by (metis prod_cases3)
  have run: "manager_receive_data E i cd m s = (if \<not> ready then (False, cd, m1, s1)
      else (let (ok, cd, m, s) = manager_receive_data_simple E i cd m1 s1 in
            if ok then (True, cd, m, s) else receive_again E i cd m s))"
    using r by (simp only: manager_receive_data_def Let_def first prod.case if_False)
  have 1: "kept m m1 \<and> connected (client m1 i) = ready"
    using ensure_connected_result [OF table_wf_sized [OF assms(1)] assms(2) first] by simp
  then have k1: "kept m m1" and w1: "table_wf m1" "in_range m1 i"
    using kept_wf [of m m1] kept_range [of m m1 i] assms(1,2) by auto
  obtain ok3 cd3 m3 s3 where sim: "manager_receive_data_simple E i cd m1 s1 = (ok3, cd3, m3, s3)"
    by (metis prod_cases4)
  note r3 = receive_simple_result [OF w1 sim]
  have k3: "kept m m3" using k1 r3(1) by (rule kept_trans)
  have w3: "table_wf m3" "in_range m3 i" using kept_wf [OF k3 assms(1)] kept_range [OF k3] assms(2) by simp_all
  have "kept m m' \<and> connected (client m' i) = ok \<and> (ok \<longrightarrow> cd_dataType cd' = cs_dataType (client m i))"
  proof (cases "ready \<and> \<not> ok3")
    case True
    then have "receive_again E i cd3 m3 s3 = (ok, cd', m', s')" using run assms(3) by (simp add: sim)
    from receive_again_result [OF w3 this] show ?thesis
      using kept_trans [OF k3] kept_type [OF k3 assms(1,2)] by auto
  next
    case False
    with run assms(3) 1 r3(2,3) k3 kept_type [OF k1 assms(1,2)] show ?thesis
      by (cases ready) (auto simp: sim)
  qed
  then show ?thesis using kept_wf [of m m'] assms(1) by (auto simp: kept_def)
qed

text \<open>
  C12. The contract of \<^verbatim>\<open>manager_receive_data\<close> on a well-formed table and an index in range: whatever
  the devices answer, the call succeeds exactly when the client ends up connected, a success
  delivers data tagged with the client's type, the configuration in the table is unchanged and the
  OPC clients keep sharing one status.
\<close>

theorem manager_receive_data_contract:
  assumes "table_wf m" and "in_range m i" and "manager_receive_data E i cd m s = (ok, cd', m', s')"
  shows "same_table m m' \<and> table_wf m' \<and> (opc_shared m \<longrightarrow> opc_shared m')
     \<and> ok = connected (client m' i) \<and> (ok \<longrightarrow> cd_dataType cd' = cs_dataType (client m i))"
  by (rule receive_data_result [OF assms])

definition one_plc :: manager_t where
  "one_plc = manager0\<lparr>clientsCnt := 1, sendInterval := 1,
     clientSettings := (clientSettings manager0)[0 := ClientSettings_zero\<lparr>cs_name := Some ''tp1'',
       cs_unit := Some ''ms'', connected := True, cs_dataType := MDT_INT, modbus := plc\<rparr>]\<rparr>"

lemma one_plc_range: "in_range one_plc i \<longleftrightarrow> i = 0"
  by (auto simp: in_range_def one_plc_def)

lemma one_plc_client: "client one_plc 0 = ClientSettings_zero\<lparr>cs_name := Some ''tp1'',
    cs_unit := Some ''ms'', connected := True, cs_dataType := MDT_INT, modbus := plc\<rparr>"
  by (simp add: one_plc_def client_def manager0_def)

lemma one_plc_wf: "table_wf one_plc"
proof -
  have "sized one_plc" by (simp add: sized_def one_plc_def manager0_def MAX_CLIENT_NUM_def)
  moreover have "client_ok (client one_plc 0)"
    by (simp add: one_plc_client client_ok_def ClientSettings_zero_def plc_def MAX_CLIENT_NAME_LEN_def)
  moreover have "innerIdx (client one_plc 0) = 0" "clientsCnt one_plc = 1"
    by (simp_all add: one_plc_client ClientSettings_zero_def) (simp add: one_plc_def)
  ultimately show ?thesis by (simp add: table_wf_def one_plc_range)
qed

theorem manager_receive_data_contract_witness:
  "case manager_receive_data quiet_env 0 ClientData_zero one_plc (io0 (\<lambda>_. None)) of (ok, cd', m', s') \<Rightarrow>
     ok = connected (client m' 0) \<and> table_wf m'"
proof -
  obtain ok cd' m' s' where run:
    "manager_receive_data quiet_env 0 ClientData_zero one_plc (io0 (\<lambda>_. None)) = (ok, cd', m', s')"
    by (metis prod_cases4)
  show ?thesis unfolding run
    using manager_receive_data_contract [OF one_plc_wf _ run] by (simp add: one_plc_range)
qed

section \<open>Connecting and closing\<close>

definition all_connected :: "manager_t \<Rightarrow> bool" where
  "all_connected m \<longleftrightarrow> (\<forall>i. in_range m i \<longrightarrow> connected (client m i))"

lemma cm_log_sel [simp]: "dev_calls (cm_LOG_E E line fn m s) = dev_calls s"
  by (simp add: cm_LOG_E_def)

lemma ua_made_calls: "dev_calls t = dev_calls s \<Longrightarrow> ua_made t = ua_made s"
  by (simp add: ua_made_def)

lemma ua_made_prim [simp]:
  "ua_made (emit c s) = (if c = Ua C_UA_Client_new then Suc (ua_made s) else ua_made s)"
  "ua_made (ub_if b k s) = ua_made s" "ua_made (ub k s) = ua_made s"
  "ua_made (mb_LOG_E E line fn m s) = ua_made s" "ua_made (opc_LOG_E E line fn m s) = ua_made s"
  "ua_made (cm_LOG_E E line fn m s) = ua_made s" "ua_made (log_info E m s) = ua_made s"
  "ua_made (snd (modbus_strerror E s)) = ua_made s" "ua_made (snd (loadFile E p s)) = ua_made s"
  by (auto simp: ua_made_def)

lemma checkServer_made [simp]: "ua_made (snd (checkServer E a p s)) = ua_made s"
  by (simp add: checkServer_def Let_def split_beta)

lemma modbusConnect_made [simp]: "ua_made (snd (snd (modbusConnect E c s))) = ua_made s"
  by (simp add: modbusConnect_def modbusConnect_tcp_def modbusConnect_rtu_def Let_def split_beta
      split: option.splits ModbusProtocolType.splits)

lemma connect_modbus_made: "ua_made (snd (snd (connect_modbus E i m s))) = ua_made s"
  by (simp add: connect_modbus_def Let_def split_beta split: ModbusProtocolType.splits)

lemma connect_opc_made: "ua_made (snd (snd (connect_opc E i m s))) = Suc (ua_made s)"
  by (simp add: connect_opc_def opcConnect_def opc_configure_def Let_def split_beta split: option.splits)

text \<open>What the loop knows when it comes to index \<open>i\<close>: the clients behind it.\<close>

definition connect_inv :: "InnerIdx \<Rightarrow> bool \<Rightarrow> bool \<Rightarrow> bool \<Rightarrow> manager_t \<Rightarrow> bool" where
  "connect_inv i allUp first opcUp m \<longleftrightarrow>
     allUp = (\<forall>j. 0 \<le> j \<and> j < i \<longrightarrow> connected (client m j))
     \<and> (\<forall>j. 0 \<le> j \<and> j < i \<and> protocol (client m j) = CP_OPC \<longrightarrow> \<not> first \<and> connected (client m j) = opcUp)
     \<and> (\<not> first \<longrightarrow> (\<exists>j. 0 \<le> j \<and> j < i \<and> protocol (client m j) = CP_OPC))"

lemma connect_inv_modbus:
  assumes "connect_inv i allUp first opcUp m" and "\<And>j. 0 \<le> j \<Longrightarrow> j < i \<Longrightarrow> client m' j = client m j"
    and "protocol (client m' i) = CP_MODBUS" and "connected (client m' i) = ok" and "0 \<le> i"
  shows "connect_inv (i + 1) (allUp \<and> ok) first opcUp m'"
proof -
  have below: "0 \<le> j \<and> j < i + 1 \<longleftrightarrow> 0 \<le> j \<and> j < i \<or> j = i" for j :: int using assms(5) by auto
  have 1: "allUp = (\<forall>j. 0 \<le> j \<and> j < i \<longrightarrow> connected (client m' j))"
    "0 \<le> j \<and> j < i \<Longrightarrow> protocol (client m' j) = CP_OPC \<Longrightarrow> \<not> first \<and> connected (client m' j) = opcUp"
    "\<not> first \<Longrightarrow> \<exists>j. 0 \<le> j \<and> j < i \<and> protocol (client m' j) = CP_OPC" for j
    using assms(1,2) by (auto simp: connect_inv_def)
  have "(allUp \<and> ok) = (\<forall>j. 0 \<le> j \<and> j < i + 1 \<longrightarrow> connected (client m' j))"
    using 1(1) assms(4) below by auto
  moreover have "\<not> first \<and> connected (client m' j) = opcUp"
    if "0 \<le> j \<and> j < i + 1" "protocol (client m' j) = CP_OPC" for j
    using that below [of j] 1(2) assms(3) by auto
  moreover have "\<exists>j. 0 \<le> j \<and> j < i + 1 \<and> protocol (client m' j) = CP_OPC" if "\<not> first"
    using 1(3) [OF that] by force
  ultimately show ?thesis unfolding connect_inv_def by blast
qed

lemma connect_inv_opc:
  assumes "connect_inv i allUp first opcUp m" and "\<And>j. 0 \<le> j \<Longrightarrow> j < i \<Longrightarrow> client m' j = client m j"
    and "protocol (client m' i) = CP_OPC" and "connected (client m' i) = ok" and "0 \<le> i"
    and "\<not> first \<Longrightarrow> ok = opcUp"
  shows "connect_inv (i + 1) (allUp \<and> (first \<longrightarrow> ok)) False ok m'"
proof -
  have below: "0 \<le> j \<and> j < i + 1 \<longleftrightarrow> 0 \<le> j \<and> j < i \<or> j = i" for j :: int using assms(5) by auto
  have 1: "allUp = (\<forall>j. 0 \<le> j \<and> j < i \<longrightarrow> connected (client m' j))"
    using assms(1,2) by (auto simp: connect_inv_def)
  have 2: "0 \<le> j \<and> j < i \<Longrightarrow> protocol (client m' j) = CP_OPC \<Longrightarrow> \<not> first \<and> connected (client m' j) = opcUp" for j
    using assms(1,2) by (auto simp: connect_inv_def)
  have 3: "\<exists>j. 0 \<le> j \<and> j < i \<and> protocol (client m' j) = CP_OPC" if "\<not> first"
    using assms(1,2) that by (auto simp: connect_inv_def)
  have "(allUp \<and> (first \<longrightarrow> ok)) = (\<forall>j. 0 \<le> j \<and> j < i + 1 \<longrightarrow> connected (client m' j))"
  proof (cases first)
    case True
    with 1 assms(4) below show ?thesis by auto
  next
    case False
    then obtain j where "0 \<le> j" "j < i" "protocol (client m' j) = CP_OPC" using 3 by blast
    with 2 False assms(6) have "connected (client m' j) = ok" by blast
    with 1 assms(4) below False \<open>0 \<le> j\<close> \<open>j < i\<close> show ?thesis by auto
  qed
  moreover have "\<forall>j. 0 \<le> j \<and> j < i + 1 \<and> protocol (client m' j) = CP_OPC \<longrightarrow> connected (client m' j) = ok"
    using 2 assms(4,6) below by metis
  ultimately show ?thesis using assms(3,5) unfolding connect_inv_def by auto
qed

lemma connect_loop_result:
  assumes "sized m" and "0 \<le> i" and "i + int n = clientsCnt m" and "connect_inv i allUp first opcUp m"
    and "connect_loop E n i allUp first opcUp m s = (ok, m', s')"
  shows "same_table m m' \<and> (\<exists>first' opcUp'. connect_inv (clientsCnt m) ok first' opcUp' m')
     \<and> ua_made s' \<le> ua_made s + (if first then 1 else 0)"
  using assms
proof (induction n arbitrary: i allUp first opcUp m s)
  case 0
  then show ?case by auto
next
  case (Suc n)
  have r: "in_range m i" using Suc.prems(2,3) by (simp add: in_range_def)
  note i = sized_index [OF Suc.prems(1) r]
  have other: "nat j \<noteq> nat i" if "0 \<le> j" "j < i" for j using that by simp
  show ?case
  proof (cases "protocol (client m i)")
    case CP_MODBUS
    obtain ok1 m1 s1 where c: "connect_modbus E i m s = (ok1, m1, s1)" by (metis prod_cases3)
    note t = connect_modbus_table [OF c i]
    have p: "protocol (client m1 i) = CP_MODBUS"
      using same_table_fields(4) [OF t(1) Suc.prems(1) r] CP_MODBUS by simp
    have rest: "connect_loop E n (i + 1) (allUp \<and> ok1) first opcUp m1 s1 = (ok, m', s')"
      using Suc.prems(5) CP_MODBUS by (simp add: c)
    have inv: "connect_inv (i + 1) (allUp \<and> ok1) first opcUp m1"
      using connect_inv_modbus [OF Suc.prems(4) t(4) [OF other] p t(2) Suc.prems(2)] .
    have cnt: "clientsCnt m1 = clientsCnt m" using t(1) by (simp add: same_table_def)
    have "sized m1" using same_table_sized [OF t(1)] Suc.prems(1) by simp
    from Suc.IH [OF this _ _ inv rest] Suc.prems(2,3) cnt
    have step: "same_table m1 m'" "\<exists>first' opcUp'. connect_inv (clientsCnt m) ok first' opcUp' m'"
      "ua_made s' \<le> ua_made s1 + (if first then 1 else 0)" by simp_all
    have "ua_made s1 = ua_made s" using connect_modbus_made [of E i m s] by (simp add: c)
    with step same_table_trans [OF t(1) step(1)] show ?thesis by simp
  next
    case CP_OPC
    obtain ok1 m1 s1 where c: "(if first then connect_opc E i m s else (opcUp, m, s)) = (ok1, m1, s1)"
      by (metis prod_cases3)
    have m1: "m1 = m\<lparr>opc_handle := opc_handle m1\<rparr>" and made: "ua_made s1 = ua_made s + (if first then 1 else 0)"
      using c connect_opc_sel(1) [of E i m s ok1 m1 s1] connect_opc_made [of E i m s]
      by (auto split: if_splits)
    have cl: "client m1 j = client m j" "sized m1 = sized m" "clientsCnt m1 = clientsCnt m"
      "length (clientSettings m1) = length (clientSettings m)" "same_table m m1" for j
      by (subst m1, simp add: sized_def)+
    let ?m2 = "put_client i ((client m1 i)\<lparr>connected := ok1\<rparr>) m1"
    let ?s2 = "if first then
                 (if ok1 then log_info E (''Client: '' @ name_of m1 i @ '', connected OK'') s1
                  else cm_LOG_E E 581 ''manager_init_connections''
                         (''Client: '' @ name_of m1 i @ '', connection FAIL'') s1)
               else s1"
    have s2: "dev_calls ?s2 = dev_calls s1" by simp
    have rest: "connect_loop E n (i + 1) (allUp \<and> (first \<longrightarrow> ok1)) False ok1 ?m2 ?s2 = (ok, m', s')"
      using Suc.prems(5) by (simp only: connect_loop.simps Let_def c prod.case CP_OPC ClientProtocol.case)
    have tab: "same_table m ?m2"
      using cl by (intro same_table_put) (simp_all add: static_def)
    have i1: "nat i < length (clientSettings m1)" using i cl(4) by simp
    have m2: "client ?m2 j = (if nat j = nat i then (client m i)\<lparr>connected := ok1\<rparr> else client m j)" for j
      by (simp only: client_put [OF i1] cl(1))
    have keep: "\<not> first \<Longrightarrow> ok1 = opcUp" using c by simp
    have at: "protocol (client ?m2 i) = CP_OPC" "connected (client ?m2 i) = ok1"
      unfolding m2 using CP_OPC by simp_all
    have inv: "connect_inv (i + 1) (allUp \<and> (first \<longrightarrow> ok1)) False ok1 ?m2"
      by (rule connect_inv_opc [OF Suc.prems(4) _ at Suc.prems(2) keep]) (simp only: m2 other if_False)
    have "sized ?m2" using same_table_sized [OF tab] Suc.prems(1) by simp
    from Suc.IH [OF this _ _ inv rest] Suc.prems(2,3) cl(3)
    have step: "same_table ?m2 m'" "\<exists>first' opcUp'. connect_inv (clientsCnt m) ok first' opcUp' m'"
      "ua_made s' \<le> ua_made ?s2" by simp_all
    have "ua_made ?s2 = ua_made s1" by simp
    with step same_table_trans [OF tab step(1)] made show ?thesis by simp
  qed
qed

lemma init_connections_result:
  assumes "sized m" and "0 \<le> clientsCnt m"
  shows "case manager_init_connections E m s of (ok, m', s') \<Rightarrow>
     same_table m m' \<and> ok = all_connected m' \<and> opc_shared m' \<and> ua_made s' \<le> ua_made s + 1"
proof -
  obtain ok m' s' where run: "manager_init_connections E m s = (ok, m', s')" by (metis prod_cases3)
  have "connect_inv 0 True True False m" by (auto simp: connect_inv_def)
  from connect_loop_result [OF assms(1) _ _ this run [unfolded manager_init_connections_def]] assms(2)
  obtain first' opcUp' where r: "same_table m m'" "connect_inv (clientsCnt m) ok first' opcUp' m'"
    "ua_made s' \<le> ua_made s + 1" by auto
  have cnt: "in_range m' j \<longleftrightarrow> 0 \<le> j \<and> j < clientsCnt m" for j
    using r(1) by (simp add: in_range_def same_table_def)
  have "ok = all_connected m'" "opc_status opcUp' m'"
    using r(2) cnt by (auto simp: connect_inv_def all_connected_def opc_status_def)
  with r run show ?thesis by (auto simp: opc_shared_def)
qed

text \<open>
  C26. Connecting a table reports success exactly when every client is connected afterwards; the
  configuration is untouched, all OPC clients share one status, and at most one OPC UA client
  object is made for all of them.
\<close>

theorem manager_init_connections_result:
  assumes "sized m" and "0 \<le> clientsCnt m"
  shows "case manager_init_connections E m s of (ok, m', s') \<Rightarrow>
     same_table m m' \<and> ok = all_connected m' \<and> opc_shared m' \<and> ua_made s' \<le> ua_made s + 1"
  by (rule init_connections_result [OF assms])

theorem manager_init_connections_result_witness:
  "case manager_init_connections quiet_env one_plc (io0 (\<lambda>_. None)) of (ok, m', s') \<Rightarrow>
     ok = connected (client m' 0) \<and> ua_made s' \<le> 1"
proof -
  obtain ok m' s' where run: "manager_init_connections quiet_env one_plc (io0 (\<lambda>_. None)) = (ok, m', s')"
    by (metis prod_cases3)
  have c: "0 \<le> clientsCnt one_plc" by (simp add: one_plc_def)
  have r: "same_table one_plc m' \<and> ok = all_connected m' \<and> opc_shared m' \<and> ua_made s' \<le> ua_made (io0 (\<lambda>_. None)) + 1"
    using manager_init_connections_result [OF table_wf_sized [OF one_plc_wf] c,
        where E = quiet_env and s = "io0 (\<lambda>_. None)"] run
    by simp
  then have "in_range m' i \<longleftrightarrow> i = 0" for i using same_table_range [of one_plc m' i] one_plc_range by simp
  with r show ?thesis unfolding run
    by (simp add: all_connected_def ua_made_def dev_calls_def io0_def)
qed

lemma modbusClose_result: "modbusCloseConnection c s = (c', s') \<Longrightarrow> c' = c\<lparr>mb_context := None\<rparr>"
  by (cases "mb_context c") (auto simp: modbusCloseConnection_def)

definition closed :: "ClientSettings \<Rightarrow> bool" where
  "closed c \<longleftrightarrow> \<not> connected c \<and> (protocol c = CP_MODBUS \<longrightarrow> mb_context (modbus c) = None)"

lemma close_loop_result:
  assumes "sized m" and "0 \<le> i" and "i + int n = clientsCnt m" and "\<And>j. 0 \<le> j \<Longrightarrow> j < i \<Longrightarrow> closed (client m j)"
    and "opcClose \<Longrightarrow> opc_handle m = None"
    and "\<And>j. 0 \<le> j \<Longrightarrow> j < i \<Longrightarrow> protocol (client m j) = CP_OPC \<Longrightarrow> opcClose"
    and "close_loop n i opcClose m s = (m', s')"
  shows "same_table m m' \<and> (\<forall>j. in_range m j \<longrightarrow> closed (client m' j))
     \<and> ((\<exists>j. in_range m j \<and> protocol (client m j) = CP_OPC) \<longrightarrow> opc_handle m' = None)"
  using assms
proof (induction n arbitrary: i opcClose m s)
  case 0
  then show ?case by (auto simp: in_range_def)
next
  case (Suc n)
  have r: "in_range m i" using Suc.prems(2,3) by (simp add: in_range_def)
  note i = sized_index [OF Suc.prems(1) r]
  have step: ?case if c: "static c = static (client m i)" "closed c" and h: "oc \<Longrightarrow> h = None"
      "opcClose \<or> protocol (client m i) = CP_OPC \<Longrightarrow> oc"
    and rest: "close_loop n (i + 1) oc (put_client i c (m\<lparr>opc_handle := h\<rparr>)) s1 = (m', s')" for c h oc s1
  proof -
    let ?m1 = "put_client i c (m\<lparr>opc_handle := h\<rparr>)"
    have m1: "client ?m1 j = (if nat j = nat i then c else client m j)" for j
      using client_put [of i "m\<lparr>opc_handle := h\<rparr>" c j] i by simp
    have tab: "same_table m ?m1" by (rule same_table_put) (simp_all add: c(1))
    have p: "protocol c = protocol (client m i)" using static_fields(5) [OF c(1)] .
    have b: "closed (client ?m1 j) \<and> (protocol (client ?m1 j) = CP_OPC \<longrightarrow> oc)" if "0 \<le> j" "j < i + 1" for j
    proof (cases "j = i")
      case True
      then show ?thesis using c(2) h(2) p by (simp add: m1)
    next
      case False
      with that have "j < i" "nat j \<noteq> nat i" by simp_all
      then show ?thesis using Suc.prems(4,6) [OF that(1)] h(2) by (auto simp: m1)
    qed
    have s1: "sized ?m1" using same_table_sized [OF tab] Suc.prems(1) by simp
    have res: "same_table ?m1 m' \<and> (\<forall>j. in_range ?m1 j \<longrightarrow> closed (client m' j))
        \<and> ((\<exists>j. in_range ?m1 j \<and> protocol (client ?m1 j) = CP_OPC) \<longrightarrow> opc_handle m' = None)"
    proof (rule Suc.IH [OF s1 _ _ _ _ _ rest])
      show "0 \<le> i + 1" "i + 1 + int n = clientsCnt ?m1" using Suc.prems(2,3) by simp_all
      show "oc \<Longrightarrow> opc_handle ?m1 = None" using h(1) by simp
      show "closed (client ?m1 j)" if "0 \<le> j" "j < i + 1" for j using b [OF that] by blast
      show oc if "0 \<le> j" "j < i + 1" "protocol (client ?m1 j) = CP_OPC" for j using b [OF that(1,2)] that(3) by blast
    qed
    have "protocol (client ?m1 j) = protocol (client m j)" for j
      unfolding m1 using p by (auto simp: client_def)
    with res same_table_trans [OF tab, of m'] show ?thesis by (simp add: same_table_range [OF tab])
  qed
  show ?case
  proof (cases "protocol (client m i)")
    case CP_MODBUS
    obtain mb s1 where c: "modbusCloseConnection (modbus (client m i)) s = (mb, s1)" by (metis surj_pair)
    have mb: "mb = (modbus (client m i))\<lparr>mb_context := None\<rparr>" by (rule modbusClose_result [OF c])
    show ?thesis
      by (rule step [of "(client m i)\<lparr>modbus := mb, connected := False\<rparr>" opcClose "opc_handle m" s1])
        (use Suc.prems(5,7) CP_MODBUS c mb in \<open>simp_all add: static_def closed_def\<close>)
  next
    case CP_OPC
    obtain h s1 where c: "(if opcClose then (opc_handle m, s) else opcCloseConnection (opc_handle m) s) = (h, s1)"
      by (metis surj_pair)
    have h: "h = None" using c Suc.prems(5) by (auto simp: opcCloseConnection_def split: if_splits option.splits)
    show ?thesis
      by (rule step [of "(client m i)\<lparr>connected := False\<rparr>" True h s1])
        (use Suc.prems(7) CP_OPC c h in \<open>simp_all add: static_def closed_def\<close>)
  qed
qed

text \<open>
  C30. Closing all connections leaves every client of the table disconnected, every Modbus client
  without a context and, when the table has an OPC client, no OPC handle.
\<close>

theorem manager_close_all_result:
  assumes "sized m" and "0 \<le> clientsCnt m" and "manager_close_all_connections m s = (m', s')"
  shows "same_table m m' \<and> (\<forall>i. in_range m i \<longrightarrow> \<not> connected (client m' i)
        \<and> (protocol (client m' i) = CP_MODBUS \<longrightarrow> mb_context (modbus (client m' i)) = None))
     \<and> ((\<exists>i. in_range m i \<and> protocol (client m i) = CP_OPC) \<longrightarrow> opc_handle m' = None)"
  using close_loop_result [OF assms(1) _ _ _ _ _ assms(3) [unfolded manager_close_all_connections_def]] assms(2)
  by (auto simp: closed_def)

theorem manager_close_all_result_witness:
  "mb_context (modbus (client (fst (manager_close_all_connections one_plc (io0 (\<lambda>_. None)))) 0)) = None"
proof -
  obtain m' s' where run: "manager_close_all_connections one_plc (io0 (\<lambda>_. None)) = (m', s')" by (metis surj_pair)
  have s: "sized one_plc" by (rule table_wf_sized [OF one_plc_wf])
  have c: "0 \<le> clientsCnt one_plc" by (simp add: one_plc_def)
  note r = manager_close_all_result [OF s c run]
  have "protocol (client m' 0) = CP_MODBUS"
    using same_table_fields(4) [OF conjunct1 [OF r] s, of 0]
    by (simp add: one_plc_range one_plc_client ClientSettings_zero_def)
  with r run show ?thesis by (simp add: one_plc_range)
qed

section \<open>Reading the configuration yields a well-formed table\<close>

lemma lookup_client_result:
  assumes "lookup_client E cfg el i c s = (Some r, c', s')"
  shows "innerIdx c' = i \<and> (\<exists>n. cs_name c' = Some n \<and> length n \<le> MAX_CLIENT_NAME_LEN) \<and> cs_unit c' \<noteq> None"
  using assms unfolding lookup_client_def Let_def
  by (auto split: prod.splits option.splits if_splits)

lemma parse_client_result:
  assumes "parse_client E r c s = (True, c', s')"
  shows "innerIdx c' = innerIdx c \<and> cs_name c' = cs_name c \<and> cs_unit c' = cs_unit c"
  using assms unfolding parse_client_def Let_def
  by (auto split: option.splits simp del: parse_refresh_rate.simps parse_data_type.simps parse_protocol.simps
      parse_counter_type.simps parse_computation.simps)

text \<open>The fields that reading the protocol settings leaves alone.\<close>

definition same_head :: "ClientSettings \<Rightarrow> ClientSettings \<Rightarrow> bool" where
  "same_head c c' \<longleftrightarrow> innerIdx c' = innerIdx c \<and> cs_name c' = cs_name c \<and> cs_unit c' = cs_unit c
     \<and> protocol c' = protocol c \<and> cs_dataType c' = cs_dataType c"

lemma same_head_modbus [simp]: "same_head c (set_modbus f c') = same_head c c'" "same_head c c"
  by (simp_all add: same_head_def set_modbus_def)

lemma read_modbus_tcp_result: "read_modbus_tcp E cfg el c s = (ok, c', s') \<Longrightarrow> same_head c c'"
  unfolding read_modbus_tcp_def Let_def by (auto split: prod.splits option.splits)

lemma read_modbus_rtu_result: "read_modbus_rtu E cfg el c s = (ok, c', s') \<Longrightarrow> same_head c c'"
  unfolding read_modbus_rtu_def Let_def by (auto split: prod.splits option.splits)

lemma read_modbus_address_result: "read_modbus_address E cfg el t c s = (ok, c', s') \<Longrightarrow> same_head c c'"
  by (auto simp: read_modbus_address_def dest: read_modbus_tcp_result read_modbus_rtu_result split: if_splits)

lemma set_registers_result:
  "set_registers E t c s = (True, c', s') \<Longrightarrow>
     same_head c c' \<and> registers_for (cs_dataType c') = Some (registersToRead (modbus c'))"
  by (auto simp: set_registers_def same_head_def set_modbus_def split: option.splits)

lemma same_head_trans: "same_head c c' \<Longrightarrow> same_head c' c'' \<Longrightarrow> same_head c c''"
  by (simp add: same_head_def)

lemma read_modbus_result:
  assumes "read_modbus E cfg el t c s = (True, c', s')"
  shows "same_head c c' \<and> registers_for (cs_dataType c') = Some (registersToRead (modbus c'))"
proof -
  obtain n off ty s1 c2 s2 where
    a: "read_modbus_address E cfg el ty (set_modbus (\<lambda>b. b\<lparr>mb_offset := off\<rparr>) (set_modbus (\<lambda>b. b\<lparr>mb_id := n\<rparr>) c)) s1
          = (True, c2, s2)" and r: "set_registers E t c2 s2 = (True, c', s')"
    using assms unfolding read_modbus_def Let_def by (auto split: prod.splits option.splits if_splits)
  from read_modbus_address_result [OF a] set_registers_result [OF r]
  have "same_head (set_modbus (\<lambda>b. b\<lparr>mb_offset := off\<rparr>) (set_modbus (\<lambda>b. b\<lparr>mb_id := n\<rparr>) c)) c'"
    using same_head_trans by blast
  then have "same_head c c'" by (simp add: same_head_def set_modbus_def)
  with set_registers_result [OF r] show ?thesis by simp
qed

lemma read_opc_result:
  assumes "read_opc E cfg el oconf c s = (True, c', s')"
  shows "same_head c c' \<and> node (opc c') \<noteq> None \<and> serverName (opc c') \<noteq> None \<and> oc_dataType (opc c') = cs_dataType c'"
  using assms unfolding read_opc_def Let_def
  by (auto split: prod.splits option.splits simp: same_head_def)

lemma init_client_result:
  assumes "init_client E cfg el oconf i c s = (True, c', s')"
  shows "innerIdx c' = i \<and> client_ok c'"
proof -
  obtain r c1 s1 where 1: "lookup_client E cfg el i c s = (Some r, c1, s1)"
    using assms unfolding init_client_def Let_def by (auto split: prod.splits option.splits)
  obtain c2 s2 where 2: "parse_client E r c1 s1 = (True, c2, s2)"
    and 3: "(case protocol c2 of CP_MODBUS \<Rightarrow> read_modbus E cfg el (r_type r) c2 s2
             | CP_OPC \<Rightarrow> read_opc E cfg el oconf c2 s2) = (True, c', s')"
    using assms unfolding init_client_def Let_def
    by (auto simp: 1 split: prod.splits if_splits)
  have h: "innerIdx c2 = i \<and> (\<exists>n. cs_name c2 = Some n \<and> length n \<le> MAX_CLIENT_NAME_LEN) \<and> cs_unit c2 \<noteq> None"
    using lookup_client_result [OF 1] parse_client_result [OF 2] by simp
  show ?thesis
  proof (cases "protocol c2")
    case CP_MODBUS
    with 3 read_modbus_result [of E cfg el "r_type r" c2 s2 c' s'] h show ?thesis
      by (auto simp: same_head_def client_ok_def)
  next
    case CP_OPC
    with 3 read_opc_result [of E cfg el oconf c2 s2 c' s'] h show ?thesis
      by (auto simp: same_head_def client_ok_def)
  qed
qed

lemma init_clients_result:
  assumes "length (clientSettings m) = MAX_CLIENT_NUM + 1" and "0 \<le> i" and "i + int n \<le> int MAX_CLIENT_NUM"
    and "\<And>j. 0 \<le> j \<Longrightarrow> j < i \<Longrightarrow> innerIdx (client m j) = j \<and> client_ok (client m j)"
    and "init_clients E cfg cc oconf n i m s = (True, m', s')"
  shows "clientsCnt m' = clientsCnt m \<and> length (clientSettings m') = MAX_CLIENT_NUM + 1
     \<and> (\<forall>j. 0 \<le> j \<and> j < i + int n \<longrightarrow> innerIdx (client m' j) = j \<and> client_ok (client m' j))"
  using assms
proof (induction n arbitrary: i m s)
  case 0
  then show ?case by auto
next
  case (Suc n)
  obtain ok c s1 where c: "init_client E cfg (config_setting_get_elem cfg cc i) oconf i (client m i) s = (ok, c, s1)"
    by (metis prod_cases3)
  let ?m1 = "put_client i c m"
  have ok: ok and rest: "init_clients E cfg cc oconf n (i + 1) ?m1 s1 = (True, m', s')"
    using Suc.prems(5) by (auto simp: c Let_def split: if_splits)
  have "i < int (length (clientSettings m))" using Suc.prems(1,3) by simp
  then have m1: "client ?m1 j = (if nat j = nat i then c else client m j)" for j
    using Suc.prems(2) by (intro client_put) linarith
  have b: "innerIdx (client ?m1 j) = j \<and> client_ok (client ?m1 j)" if "0 \<le> j" "j < i + 1" for j
  proof (cases "j = i")
    case True
    with init_client_result [of E cfg _ oconf i "client m i" s c s1] c ok show ?thesis by (simp add: m1)
  next
    case False
    with that have "j < i" "nat j \<noteq> nat i" by simp_all
    then show ?thesis using Suc.prems(4) [OF that(1)] by (simp add: m1)
  qed
  have "clientsCnt m' = clientsCnt ?m1 \<and> length (clientSettings m') = MAX_CLIENT_NUM + 1
     \<and> (\<forall>j. 0 \<le> j \<and> j < i + 1 + int n \<longrightarrow> innerIdx (client m' j) = j \<and> client_ok (client m' j))"
  proof (rule Suc.IH [OF _ _ _ _ rest])
    show "length (clientSettings ?m1) = MAX_CLIENT_NUM + 1" "0 \<le> i + 1" "i + 1 + int n \<le> int MAX_CLIENT_NUM"
      using Suc.prems(1-3) by simp_all
    show "innerIdx (client ?m1 j) = j \<and> client_ok (client ?m1 j)" if "0 \<le> j" "j < i + 1" for j
      using b [OF that] .
  qed
  then show ?case by (simp add: ac_simps)
qed

lemma read_common_sel:
  "read_common E cfg m s = (ok, m', s') \<Longrightarrow> length (clientSettings m') = length (clientSettings m)"
  unfolding read_common_def Let_def by (auto split: prod.splits option.splits)

lemma init_config_table:
  assumes "length (clientSettings m) = MAX_CLIENT_NUM + 1" and "\<forall>n. 0 \<le> config_setting_length cfg n"
    and "manager_init_config E cfg m s = (True, m', s')"
  shows "table_wf m'"
proof -
  obtain m1 s1 oconf s2 where c: "read_common E cfg m s = (True, m1, s1)"
    and "read_clients E cfg oconf m1 s2 = (True, m', s')"
    using assms(3) unfolding manager_init_config_def Let_def by (auto split: prod.splits if_splits)
  then obtain cc where n: "config_setting_length cfg cc \<noteq> 0" "config_setting_length cfg cc \<le> int MAX_CLIENT_NUM"
    and run: "init_clients E cfg cc oconf (nat (config_setting_length cfg cc)) 0
        (m1\<lparr>clientsCnt := config_setting_length cfg cc\<rparr>) s2 = (True, m', s')"
    unfolding read_clients_def Let_def by (auto split: option.splits if_splits)
  let ?n = "config_setting_length cfg cc"
  have nn: "0 \<le> ?n" using assms(2) by simp
  have "clientsCnt m' = ?n \<and> length (clientSettings m') = MAX_CLIENT_NUM + 1
     \<and> (\<forall>j. 0 \<le> j \<and> j < 0 + int (nat ?n) \<longrightarrow> innerIdx (client m' j) = j \<and> client_ok (client m' j))"
    using init_clients_result [OF _ _ _ _ run] n nn assms(1) read_common_sel [OF c] by simp
  then show ?thesis using n nn by (simp add: table_wf_def sized_def in_range_def)
qed

text \<open>
  C11. A configuration that is accepted yields a well-formed table: 1 to 50 clients, each at its own
  index, named with at most 80 characters, with a unit, and with the settings its protocol needs (a
  register count that fits its type, or an OPC node, server and type).
\<close>

theorem manager_init_config_table:
  assumes "length (clientSettings m) = MAX_CLIENT_NUM + 1" and "\<forall>n. 0 \<le> config_setting_length cfg n"
    and "manager_init_config E cfg m s = (True, m', s')"
  shows "table_wf m'"
  by (rule init_config_table [OF assms])

text \<open>A small configuration: one Modbus client over TCP.\<close>

definition sample_string :: "string \<Rightarrow> string option" where
  "sample_string k = map_of [(''name'', ''tp1''), (''protocol'', ''modbus''), (''refresh_rate'', ''1s''),
     (''data_type'', ''int''), (''unit'', ''ms''), (''counter'', ''none''), (''computation'', ''none''),
     (''mb_type'', ''TCP''), (''mb_ip'', ''10.0.0.1'')] k"

definition sample_int :: "string \<Rightarrow> int option" where
  "sample_int k = map_of [(''send_interval_min'', 1), (''mb_id'', 1), (''mb_offset'', 0), (''mb_port'', 502)] k"

definition sample_cfg :: config_t where
  "sample_cfg = \<lparr>config_lookup = map_of [(''common'', 1), (''clients'', 3)], config_setting_length = (\<lambda>_. 1),
     config_setting_get_elem = (\<lambda>n i. Some (n + 1)), config_setting_lookup_int = (\<lambda>_. sample_int),
     config_setting_lookup_string = (\<lambda>_. sample_string)\<rparr>"

lemma sample_cfg_accepted: "fst (manager_init_config quiet_env sample_cfg manager0 (io0 fs))"
  by (simp add: manager_init_config_def read_common_def read_opc_ua_def read_clients_def init_client_def
      lookup_client_def parse_client_def read_modbus_def read_modbus_address_def read_modbus_tcp_def
      set_registers_def set_modbus_def need_int_def need_string_def lookup_int_def lookup_string_def
      sample_cfg_def sample_string_def sample_int_def MAX_CLIENT_NUM_def MAX_CLIENT_NAME_LEN_def Let_def)

theorem manager_init_config_table_witness:
  "table_wf (fst (snd (manager_init_config quiet_env sample_cfg manager0 (io0 (\<lambda>_. None)))))"
proof -
  obtain ok m' s' where run: "manager_init_config quiet_env sample_cfg manager0 (io0 (\<lambda>_. None)) = (ok, m', s')"
    by (metis prod_cases3)
  then have ok: "ok = True" using sample_cfg_accepted [of "\<lambda>_. None"] by simp
  have l: "length (clientSettings manager0) = MAX_CLIENT_NUM + 1" by (simp add: manager0_def)
  have p: "\<forall>n. 0 \<le> config_setting_length sample_cfg n" by (simp add: sample_cfg_def)
  show ?thesis using manager_init_config_table [OF l p run [unfolded ok]] run by simp
qed

section \<open>Required parameters\<close>

definition required :: "string list" where
  "required = [''name'', ''protocol'', ''refresh_rate'', ''data_type'', ''unit'', ''counter'', ''computation'']"

lemma need_string_Some:
  "need_string E cfg el k line msg s = (Some v, s') \<Longrightarrow> \<exists>x. el = Some x \<and> config_setting_lookup_string cfg x k = Some v"
  by (auto simp: need_string_def lookup_string_def Let_def split: option.splits)

lemma lookup_client_required:
  assumes "lookup_client E cfg el i c s = (Some r, c', s')"
  shows "\<exists>x. el = Some x \<and> (\<forall>k \<in> set required. config_setting_lookup_string cfg x k \<noteq> None)"
  using assms unfolding lookup_client_def Let_def required_def
  by (auto split: prod.splits option.splits if_splits dest!: need_string_Some)

lemma init_clients_required:
  assumes "init_clients E cfg cc oconf n i m s = (True, m', s')" and "i \<le> j" and "j < i + int n"
  shows "\<exists>x. config_setting_get_elem cfg cc j = Some x
    \<and> (\<forall>k \<in> set required. config_setting_lookup_string cfg x k \<noteq> None)"
  using assms
proof (induction n arbitrary: i m s)
  case (Suc n)
  let ?el = "config_setting_get_elem cfg cc i"
  obtain ok c s1 where c: "init_client E cfg ?el oconf i (client m i) s = (ok, c, s1)" by (metis prod_cases3)
  have ok: ok and rest: "init_clients E cfg cc oconf n (i + 1) (put_client i c m) s1 = (True, m', s')"
    using Suc.prems(1) by (auto simp: c Let_def split: if_splits)
  show ?case
  proof (cases "j = i")
    case True
    obtain r c1 s2 where "lookup_client E cfg ?el i (client m i) s = (Some r, c1, s2)"
      using c ok unfolding init_client_def Let_def by (auto split: prod.splits option.splits)
    from lookup_client_required [OF this] True show ?thesis by simp
  next
    case False
    with Suc.prems(2,3) Suc.IH [OF rest] show ?thesis by auto
  qed
qed simp

text \<open>
  No parameter of a client is optional: a configuration is accepted only when every entry of
  \<^verbatim>\<open>clients\<close> exists and has all of name, protocol, refresh rate, data type, unit, counter and
  computation.  The example of the README, whose second and third client have no computation, is
  refused.
\<close>

lemma manager_init_config_required:
  assumes "manager_init_config E cfg m s = (True, m', s')" and "config_lookup cfg ''clients'' = Some cc"
    and "0 \<le> j" and "j < config_setting_length cfg cc"
  shows "\<exists>x. config_setting_get_elem cfg cc j = Some x
    \<and> (\<forall>k \<in> set required. config_setting_lookup_string cfg x k \<noteq> None)"
proof -
  obtain m1 oconf s2 where "read_clients E cfg oconf m1 s2 = (True, m', s')"
    using assms(1) unfolding manager_init_config_def Let_def by (auto split: prod.splits if_splits)
  then have "init_clients E cfg cc oconf (nat (config_setting_length cfg cc)) 0
      (m1\<lparr>clientsCnt := config_setting_length cfg cc\<rparr>) s2 = (True, m', s')"
    using assms(2) unfolding read_clients_def Let_def by (auto split: if_splits)
  from init_clients_required [OF this, of j] assms(3,4) show ?thesis by simp
qed

lemma manager_init_config_required_example:
  "sample_string ''computation'' \<noteq> None"
proof -
  obtain ok m' s' where run: "manager_init_config quiet_env sample_cfg manager0 (io0 (\<lambda>_. None)) = (ok, m', s')"
    by (metis prod_cases3)
  then have ok: "ok = True" using sample_cfg_accepted [of "\<lambda>_. None"] by simp
  have "config_lookup sample_cfg ''clients'' = Some 3" by (simp add: sample_cfg_def)
  from manager_init_config_required [OF run [unfolded ok] this, of 0]
  show ?thesis by (auto simp: sample_cfg_def required_def)
qed

section \<open>An unknown Modbus type\<close>

lemma modbusConnect_after_probe:
  assumes "protocolType c = MPT_TCP"
    and "rc E (Modbus (C_modbus_new_tcp (ipAdress c) (mb_port c)) # calls s) \<noteq> 0"
  shows "os_le (snd (checkServer E (ipAdress c) (mb_port c)
      (emit (Modbus (C_modbus_new_tcp (ipAdress c) (mb_port c))) s))) (snd (snd (modbusConnect E c s)))"
proof -
  let ?cl = "Modbus (C_modbus_new_tcp (ipAdress c) (mb_port c))"
  obtain x where x: "ext_new E ?cl s = (Some x, emit ?cl s)" using assms(2) by (simp add: ext_new_def)
  obtain up u where u: "checkServer E (ipAdress c) (mb_port c) (emit ?cl s) = (up, u)" by (metis surj_pair)
  show ?thesis
    using assms(1) by (cases up) (simp_all add: modbusConnect_def modbusConnect_tcp_def x u split_beta Let_def)
qed

lemma checkServer_null:
  assumes "0 \<le> rc E (Sys C_socket # calls s)"
  shows "fault (snd (checkServer E None p s)) \<noteq> None"
proof -
  have "os_le (ub Null_Deref (emit (Sys C_socket) s)) (snd (checkServer E None p s))"
    using assms by (simp add: checkServer_def Let_def split_beta ub_if_def)
  from os_le_no_fault [OF this] show ?thesis using ub_sel(4) by blast
qed

text \<open>
  C38. A Modbus type that is neither \<^verbatim>\<open>TCP\<close> nor \<^verbatim>\<open>RTU\<close> is accepted: the client keeps the zeroed
  \<^verbatim>\<open>TCP\<close> settings without an address, and connecting it hands a null pointer to \<^verbatim>\<open>inet_pton\<close>
  as soon as a context and a socket can be had.
\<close>

theorem unknown_modbus_type_accepted:
  assumes "t \<noteq> ''TCP''" and "t \<noteq> ''RTU''" and "config_setting_lookup_string cfg x ''mb_type'' = Some t"
    and "config_setting_lookup_int cfg x ''mb_id'' = Some n" and "config_setting_lookup_int cfg x ''mb_offset'' = Some off"
    and "registers_for (cs_dataType c) = Some k" and "modbus c = ModbusClient_zero"
    and "\<And>h. 0 < rc E (Modbus (C_modbus_new_tcp None 0) # h)" and "\<And>h. 0 \<le> rc E (Sys C_socket # h)"
  shows "case read_modbus E cfg (Some x) dt c s of (ok, c', s') \<Rightarrow>
     ok \<and> s' = s \<and> fault (snd (snd (modbusConnect E (modbus c') s'))) \<noteq> None"
proof -
  let ?b = "ModbusClient_zero\<lparr>mb_id := n, mb_offset := off, registersToRead := k\<rparr>"
  have read: "read_modbus E cfg (Some x) dt c s = (True, c\<lparr>modbus := ?b\<rparr>, s)"
    using assms(1-7) by (simp add: read_modbus_def read_modbus_address_def set_registers_def set_modbus_def
        need_int_def need_string_def lookup_int_def lookup_string_def)
  let ?s1 = "emit (Modbus (C_modbus_new_tcp None 0)) s"
  have new: "rc E (Modbus (C_modbus_new_tcp None 0) # calls s) \<noteq> 0" using assms(8) [of "calls s"] by simp
  have bad: "fault (snd (checkServer E None 0 ?s1)) \<noteq> None"
    using assms(9) by (intro checkServer_null) simp
  have f: "ipAdress ?b = None" "mb_port ?b = 0" "protocolType ?b = MPT_TCP"
    by (simp_all add: ModbusClient_zero_def)
  have "os_le (snd (checkServer E None 0 ?s1)) (snd (snd (modbusConnect E ?b s)))"
    using modbusConnect_after_probe [OF f(3), unfolded f(1,2), OF new] .
  from os_le_no_fault [OF this] bad have "fault (snd (snd (modbusConnect E ?b s))) \<noteq> None" by blast
  then show ?thesis by (simp add: read)
qed

theorem unknown_modbus_type_accepted_witness:
  "case read_modbus quiet_env (sample_cfg\<lparr>config_setting_lookup_string := (\<lambda>_. sample_string(''mb_type'' \<mapsto> ''tcp''))\<rparr>)
      (Some 4) ''int'' (ClientSettings_zero\<lparr>cs_dataType := MDT_INT\<rparr>) (io0 (\<lambda>_. None)) of (ok, c', s') \<Rightarrow>
     ok \<and> fault (snd (snd (modbusConnect quiet_env (modbus c') s'))) \<noteq> None"
proof -
  let ?cfg = "sample_cfg\<lparr>config_setting_lookup_string := (\<lambda>_. sample_string(''mb_type'' \<mapsto> ''tcp''))\<rparr>"
  have "case read_modbus quiet_env ?cfg (Some 4) ''int'' (ClientSettings_zero\<lparr>cs_dataType := MDT_INT\<rparr>)
      (io0 (\<lambda>_. None)) of (ok, c', s') \<Rightarrow>
      ok \<and> s' = io0 (\<lambda>_. None) \<and> fault (snd (snd (modbusConnect quiet_env (modbus c') s'))) \<noteq> None"
    by (rule unknown_modbus_type_accepted [of "''tcp''" _ _ 1 0 _ 2])
      (simp_all add: sample_cfg_def sample_int_def ClientSettings_zero_def)
  then show ?thesis by (auto split: prod.splits)
qed

text \<open>
  An index outside the table of 51 entries is not only refused: the refusal formats the name
  of the entry at that index, so it reads outside the array.
\<close>

lemma manager_receive_data_bad_index:
  assumes "i < 0 \<or> int MAX_CLIENT_NUM < i" and "clientsCnt m \<le> int MAX_CLIENT_NUM"
  shows "\<not> fst (manager_receive_data E i cd m s) \<and> fault (snd (snd (snd (manager_receive_data E i cd m s)))) \<noteq> None"
proof -
  have out: "i < 0 \<or> clientsCnt m - 1 < i" "\<not> in_table i" using assms by (auto simp: in_table_def)
  then have "manager_receive_data E i cd m s = (False, cd, m, wrong_index E 747 ''manager_receive_data'' i m s)"
    by (simp only: manager_receive_data_def if_True)
  moreover have "fault (wrong_index E l fn i m s) \<noteq> None" for l fn
  proof -
    have "os_le (ub Out_Of_Bounds s) (wrong_index E l fn i m s)"
      using out(2) by (simp add: wrong_index_def cm_LOG_E_def ub_if_def)
    from os_le_no_fault [OF this] show ?thesis using ub_sel(4) by blast
  qed
  ultimately show ?thesis by simp
qed

lemma manager_receive_data_bad_index_example:
  "fault (snd (snd (snd (manager_receive_data quiet_env (-1) ClientData_zero one_plc (io0 (\<lambda>_. None)))))) \<noteq> None"
  using manager_receive_data_bad_index [of "-1" one_plc quiet_env ClientData_zero "io0 (\<lambda>_. None)"]
  by (simp add: one_plc_def MAX_CLIENT_NUM_def)

section \<open>Register data\<close>

fun regs_nat :: "uint16 list \<Rightarrow> nat" where
  "regs_nat [] = 0"
| "regs_nat (w # ws) = unat w + 65536 * regs_nat ws"

lemma reg_bound: "unat (w :: uint16) < 65536"
  using unsigned_less [of w] by simp

lemma unat_halves:
  "unat (ucast w :: byte) + 256 * unat (ucast (drop_bit 8 w) :: byte) = unat (w :: uint16)"
proof -
  have "unat w < 65536" by (rule reg_bound)
  then have "unat w div 256 < 256" by (simp add: less_mult_imp_div_less)
  then show ?thesis
    by (simp add: unsigned_ucast_eq take_bit_eq_mod unsigned_drop_bit_eq drop_bit_eq_div unat_div_distrib)
qed

lemma le_nat_halves:
  "le_nat (concat (map (\<lambda>w. [ucast w, ucast (drop_bit 8 w)]) ws)) = regs_nat ws"
proof (induction ws)
  case (Cons w ws)
  then show ?case using unat_halves [of w] by (simp add: algebra_simps)
qed simp

text \<open>Whatever the byte order, the field receives the registers with the low one first.\<close>

lemma word_of_service: "word_of_mem E (service_bytes E n d) = word_of_nat (regs_nat (take n d))"
proof (cases "big_endian E")
  case True
  have "rev (concat (map (reg_bytes E) (rev (take n d))))
      = concat (map (\<lambda>w. [ucast w, ucast (drop_bit 8 w)]) (take n d))"
    using True by (simp add: rev_concat rev_map reg_bytes_def Let_def comp_def)
  then show ?thesis using True by (simp add: word_of_mem_def service_bytes_def le_nat_halves)
next
  case False
  then have "reg_bytes E = (\<lambda>w. [ucast w, ucast (drop_bit 8 w)])"
    by (simp add: reg_bytes_def Let_def fun_eq_iff)
  then show ?thesis using False by (simp add: word_of_mem_def service_bytes_def le_nat_halves)
qed

lemma regs_nat_bound: "regs_nat ws < 65536 ^ length ws"
proof (induction ws)
  case (Cons w ws)
  have "unat w < 65536" by (rule reg_bound)
  with Cons show ?case by simp
qed simp

text \<open>
  C18. The value of an integer client is the same on little and big endian targets: the first
  register is the low half, so \<^verbatim>\<open>dword\<close>, \<^verbatim>\<open>int\<close> and \<^verbatim>\<open>enum\<close> receive \<open>d0 + 65536 * d1\<close> and
  \<^verbatim>\<open>time\<close> all four registers; no other field changes.
\<close>

theorem modbus_value:
  assumes "4 \<le> length (md_data d)"
  defines "r \<equiv> md_data d"
  shows "modbusToClientData E d MDT_DWORD cd s
           = (True, cd\<lparr>cd_dataType := MDT_DWORD, data_dword := word_of_nat (unat (r ! 0) + 65536 * unat (r ! 1))\<rparr>, s)
       \<and> modbusToClientData E d MDT_INT cd s
           = (True, cd\<lparr>cd_dataType := MDT_INT, data_int := word_of_nat (unat (r ! 0) + 65536 * unat (r ! 1))\<rparr>, s)
       \<and> modbusToClientData E d MDT_ENUM cd s
           = (True, cd\<lparr>cd_dataType := MDT_ENUM, data_enum := word_of_nat (unat (r ! 0) + 65536 * unat (r ! 1))\<rparr>, s)
       \<and> modbusToClientData E d MDT_TIME cd s
           = (True, cd\<lparr>cd_dataType := MDT_TIME, data_time := word_of_nat (regs_nat (take 4 r))\<rparr>, s)
       \<and> unat (r ! 0) + 65536 * unat (r ! 1) < 2 ^ 32 \<and> regs_nat (take 4 r) < 2 ^ 64"
proof -
  obtain a b c e ws where r: "r = a # b # c # e # ws"
    using assms(1) unfolding r_def by (auto simp: numeral_eq_Suc Suc_le_length_iff)
  have "unat a < 65536" "unat b < 65536" by (rule reg_bound)+
  then have "unat a + 65536 * unat b < 2 ^ 32" by simp
  moreover have "regs_nat (take 4 r) < 2 ^ 64"
    using regs_nat_bound [of "take 4 r"] by (simp add: r)
  moreover have "take 2 r = [a, b]" "r ! 0 = a" "r ! 1 = b" by (simp_all add: r)
  ultimately show ?thesis
    unfolding modbusToClientData_def Let_def word_of_service r_def [symmetric] by simp
qed

theorem modbus_value_witness:
  "uint (data_dword (fst (snd (modbusToClientData (quiet_env\<lparr>big_endian := True\<rparr>)
     \<lparr>md_len = 4, md_data = [7, 1, 0, 0, 0, 0, 0, 0, 0, 0]\<rparr> MDT_DWORD ClientData_zero (io0 (\<lambda>_. None)))))) = 65543"
  using modbus_value [of "\<lparr>md_len = 4, md_data = [7, 1, 0, 0, 0, 0, 0, 0, 0, 0]\<rparr>" "quiet_env\<lparr>big_endian := True\<rparr>"
      ClientData_zero "io0 (\<lambda>_. None)"]
  by simp

text \<open>
  A Modbus \<^verbatim>\<open>double\<close> never arrives: the conversion reports success but leaves
  \<^verbatim>\<open>data_double\<close> as it was and overwrites \<^verbatim>\<open>data_dword\<close> instead.
\<close>

lemma modbus_double_lost:
  "case modbusToClientData E d MDT_DOUBLE cd s of (ok, cd', s') \<Rightarrow>
     ok \<and> cd_dataType cd' = MDT_DOUBLE \<and> data_double cd' = data_double cd
     \<and> data_dword cd' = word_of_mem E (take 4 (service_bytes E 4 (md_data d)))"
  by (simp add: modbusToClientData_def Let_def)

end
