(* ===== verification/Counters.thy ===== *)
theory Counters
  imports ClientManager
begin

text \<open>
  \<^verbatim>\<open>counters.c\<close>: one accumulator per client over the values it delivers.  \<^verbatim>\<open>unsigned long\<close> and
  \<^verbatim>\<open>long\<close> are 64-bit words; the subtraction of two \<^verbatim>\<open>int\<close> values is a fault when it overflows.
\<close>

section \<open>State and operations\<close>

record CounterInfo =
  pClient :: "InnerIdx option"        \<comment> \<open>the table entry pointed to, \<open>None\<close> for \<^verbatim>\<open>NULL\<close>\<close>
  currentData :: ClientData
  differenceCounter :: "64 word"
  cumulatedNot100Counter :: "64 word"
  cumulatedCounter :: long64

definition CounterInfo_zero :: CounterInfo where
  "CounterInfo_zero = \<lparr>pClient = None, currentData = ClientData_zero, differenceCounter = 0,
     cumulatedNot100Counter = 0, cumulatedCounter = 0\<rparr>"

type_synonym counters_t = "CounterInfo list"

definition counters0 :: counters_t where
  "counters0 = replicate MAX_CLIENT_NUM CounterInfo_zero"

definition ct_LOG_E :: "env \<Rightarrow> int \<Rightarrow> string \<Rightarrow> string \<Rightarrow> io \<Rightarrow> io" where
  "ct_LOG_E E line fn message = log_error E ''counters.c'' line fn message"

definition has_counter :: "InnerIdx \<Rightarrow> bool" where
  "has_counter i \<longleftrightarrow> 0 \<le> i \<and> i < int MAX_CLIENT_NUM"

definition info :: "counters_t \<Rightarrow> InnerIdx \<Rightarrow> CounterInfo" where
  "info cs i = cs ! nat i"

definition counterAdd :: "ClientSettings \<Rightarrow> counters_t \<Rightarrow> io \<Rightarrow> counters_t \<times> io" where
  "counterAdd c cs s =
     (let i = innerIdx c;
          ci = (info cs i)\<lparr>pClient := Some i\<rparr>;
          ci = (if counter c = CT_CUMUL then ci\<lparr>cumulatedCounter := -1\<rparr> else ci)
      in (cs[nat i := ci], ub_if (\<not> has_counter i) Out_Of_Bounds s))"

text \<open>New data minus old data, an \<^verbatim>\<open>int\<close> subtraction whose result is stored as \<^verbatim>\<open>unsigned long\<close>.\<close>

definition fits_int :: "int \<Rightarrow> bool" where
  "fits_int n \<longleftrightarrow> - (2 ^ 31) \<le> n \<and> n < 2 ^ 31"

definition int_delta :: "int32 \<Rightarrow> int32 \<Rightarrow> io \<Rightarrow> 64 word \<times> io" where
  "int_delta new old s =
     (scast (new - old), ub_if (\<not> fits_int (sint new - sint old)) Signed_Overflow s)"

definition wrong_counter_type :: "env \<Rightarrow> int \<Rightarrow> string \<Rightarrow> io \<Rightarrow> io" where
  "wrong_counter_type E line fn = ct_LOG_E E line fn ''Wrong data type for unsigned long int counter''"

definition update_difference :: "env \<Rightarrow> DataType \<Rightarrow> ClientData \<Rightarrow> CounterInfo \<Rightarrow> io
    \<Rightarrow> bool \<times> CounterInfo \<times> io" where
  "update_difference E dt cd ci s = (case dt of
      MDT_INT \<Rightarrow>
        (if sint (data_int (currentData ci)) < sint (data_int cd) then
           (let (tempULData, s) = int_delta (data_int cd) (data_int (currentData ci)) s
            in (True, ci\<lparr>differenceCounter := differenceCounter ci + tempULData\<rparr>, s))
         else (True, ci, s))
    | MDT_DWORD \<Rightarrow>
        (if data_dword (currentData ci) < data_dword cd then
           (True, ci\<lparr>differenceCounter := differenceCounter ci
              + ucast (data_dword cd - data_dword (currentData ci))\<rparr>, s)
         else (True, ci, s))
    | _ \<Rightarrow> (False, ci, wrong_counter_type E 57 ''counterUpdate'' s))"

definition update_not_100 :: "env \<Rightarrow> DataType \<Rightarrow> ClientData \<Rightarrow> CounterInfo \<Rightarrow> io
    \<Rightarrow> bool \<times> CounterInfo \<times> io" where
  "update_not_100 E dt cd ci s =
     (let bump = ci\<lparr>cumulatedNot100Counter := cumulatedNot100Counter ci + 1\<rparr> in
      case dt of
        MDT_INT \<Rightarrow> (True, if data_int cd \<noteq> 100 then bump else ci, s)
      | MDT_DWORD \<Rightarrow> (True, if data_dword cd \<noteq> 100 then bump else ci, s)
      | _ \<Rightarrow> (False, ci, wrong_counter_type E 87 ''counterUpdate'' s))"

text \<open>The first value after start only clears the mark -1, whatever its type is.\<close>

definition update_cumul :: "env \<Rightarrow> DataType \<Rightarrow> ClientData \<Rightarrow> CounterInfo \<Rightarrow> io
    \<Rightarrow> bool \<times> CounterInfo \<times> io" where
  "update_cumul E dt cd ci s =
     (if cumulatedCounter ci = -1 then (True, ci\<lparr>cumulatedCounter := 0\<rparr>, s)
      else (case dt of
        MDT_INT \<Rightarrow>
          (if sint (data_int (currentData ci)) < sint (data_int cd) then
             (let (tempULData, s) = int_delta (data_int cd) (data_int (currentData ci)) s
              in (True, ci\<lparr>cumulatedCounter := cumulatedCounter ci + tempULData\<rparr>, s))
           else (True, ci, s))
      | MDT_DWORD \<Rightarrow>
          (if data_dword cd \<noteq> data_dword (currentData ci) then
             (True, ci\<lparr>cumulatedCounter := cumulatedCounter ci
                + ucast (data_dword cd - data_dword (currentData ci))\<rparr>, s)
           else (True, ci, s))
      | _ \<Rightarrow> (False, ci, wrong_counter_type E 129 ''counterUpdate'' s)))"

definition update_info :: "env \<Rightarrow> CounterType \<Rightarrow> DataType \<Rightarrow> ClientData \<Rightarrow> CounterInfo \<Rightarrow> io
    \<Rightarrow> bool \<times> CounterInfo \<times> io" where
  "update_info E ct dt cd ci s =
     (let (ok, ci, s) = (case ct of
            CT_NONE \<Rightarrow> (True, ci, s)
          | CT_DIFFERENCE \<Rightarrow> update_difference E dt cd ci s
          | CT_CUMUL_NOT_100 \<Rightarrow> update_not_100 E dt cd ci s
          | CT_CUMUL \<Rightarrow> update_cumul E dt cd ci s)
      in if ok then (True, ci\<lparr>currentData := cd\<rparr>, s) else (False, ci, s))"

definition counterUpdate :: "env \<Rightarrow> ClientSettings \<Rightarrow> ClientData \<Rightarrow> counters_t \<Rightarrow> io
    \<Rightarrow> bool \<times> counters_t \<times> io" where
  "counterUpdate E c cd cs s =
     (let i = innerIdx c; s = ub_if (\<not> has_counter i) Out_Of_Bounds s in
      if pClient (info cs i) = None then
        (False, cs, ct_LOG_E E 20 ''counterUpdate''
           (''Not initialized client: '' @ str_or_null (cs_name c)) s)
      else
        (let (ok, ci, s) = update_info E (counter c) (cs_dataType c) cd (info cs i) s
         in (ok, cs[nat i := ci], s)))"

text \<open>A 64-bit counter delivered as the client's type: its low 32 bits.\<close>

definition deliver :: "env \<Rightarrow> int \<Rightarrow> DataType \<Rightarrow> 64 word \<Rightarrow> ClientData \<Rightarrow> io
    \<Rightarrow> bool \<times> ClientData \<times> io" where
  "deliver E line dt n cd s = (case dt of
      MDT_INT \<Rightarrow> (True, cd\<lparr>cd_dataType := MDT_INT, data_int := ucast n\<rparr>, s)
    | MDT_DWORD \<Rightarrow> (True, cd\<lparr>cd_dataType := MDT_DWORD, data_dword := ucast n\<rparr>, s)
    | _ \<Rightarrow> (False, cd, wrong_counter_type E line ''counterGet'' s))"

definition counterGet :: "env \<Rightarrow> ClientSettings \<Rightarrow> ClientData \<Rightarrow> counters_t \<Rightarrow> io
    \<Rightarrow> bool \<times> ClientData \<times> io" where
  "counterGet E c cd cs s =
     (let i = innerIdx c; ci = info cs i; s = ub_if (\<not> has_counter i) Out_Of_Bounds s in
      case counter c of
        CT_NONE \<Rightarrow> (True, currentData ci, s)
      | CT_DIFFERENCE \<Rightarrow> deliver E 182 (cs_dataType c) (differenceCounter ci) cd s
      | CT_CUMUL_NOT_100 \<Rightarrow> deliver E 208 (cs_dataType c) (cumulatedNot100Counter ci) cd s
      | CT_CUMUL \<Rightarrow> deliver E 234 (cs_dataType c) (cumulatedCounter ci) cd s)"

definition counterReset :: "ClientSettings \<Rightarrow> counters_t \<Rightarrow> io \<Rightarrow> counters_t \<times> io" where
  "counterReset c cs s =
     (let i = innerIdx c; ci = info cs i;
          ci = (if counter c = CT_DIFFERENCE then ci\<lparr>differenceCounter := 0\<rparr>
                else if counter c = CT_CUMUL_NOT_100 then ci\<lparr>cumulatedNot100Counter := 0\<rparr>
                else if counter c = CT_CUMUL then ci\<lparr>cumulatedCounter := 0\<rparr>
                else ci)
      in (cs[nat i := ci], ub_if (counter c \<noteq> CT_NONE \<and> \<not> has_counter i) Out_Of_Bounds s))"

section \<open>What the counters count\<close>

text \<open>The value a client of a countable type has delivered, as a number.\<close>

definition reading :: "DataType \<Rightarrow> ClientData \<Rightarrow> int" where
  "reading dt cd = (if dt = MDT_INT then sint (data_int cd) else uint (data_dword cd))"

definition tally :: "CounterType \<Rightarrow> CounterInfo \<Rightarrow> 64 word" where
  "tally ct ci = (case ct of
      CT_NONE \<Rightarrow> 0
    | CT_DIFFERENCE \<Rightarrow> differenceCounter ci
    | CT_CUMUL_NOT_100 \<Rightarrow> cumulatedNot100Counter ci
    | CT_CUMUL \<Rightarrow> cumulatedCounter ci)"

definition increment :: "CounterType \<Rightarrow> int \<Rightarrow> int \<Rightarrow> int" where
  "increment ct p x = (case ct of
      CT_DIFFERENCE \<Rightarrow> (if p < x then x - p else 0)
    | CT_CUMUL_NOT_100 \<Rightarrow> (if x \<noteq> 100 then 1 else 0)
    | _ \<Rightarrow> 0)"

fun total :: "(int \<Rightarrow> int \<Rightarrow> int) \<Rightarrow> int \<Rightarrow> int list \<Rightarrow> int" where
  "total inc p [] = 0"
| "total inc p (x # xs) = inc p x + total inc x xs"

text \<open>An accumulator: as long as nothing goes wrong, each value adds what it and its
  predecessor determine, so a run adds the total.\<close>

locale accumulator =
  fixes upd :: "'d \<Rightarrow> 's \<Rightarrow> 's" and ok :: "'s \<Rightarrow> bool" and amount :: "'s \<Rightarrow> 64 word"
    and latest :: "'s \<Rightarrow> int" and num :: "'s \<Rightarrow> 'd \<Rightarrow> int" and inc :: "'s \<Rightarrow> int \<Rightarrow> int \<Rightarrow> int"
  assumes before: "ok (upd d s) \<Longrightarrow> ok s"
    and adds: "ok (upd d s) \<Longrightarrow> amount (upd d s) = amount s + word_of_int (inc s (latest s) (num s d))"
    and keeps: "ok (upd d s) \<Longrightarrow> latest (upd d s) = num s d"
    and same: "ok (upd d s) \<Longrightarrow> inc (upd d s) = inc s \<and> num (upd d s) = num s"
begin

lemma run_ok: "ok (fold upd ds s) \<Longrightarrow> ok s"
  by (induction ds arbitrary: s) (auto dest: before)

lemma run_amount:
  "ok (fold upd ds s) \<Longrightarrow>
     amount (fold upd ds s) = amount s + word_of_int (total (inc s) (latest s) (map (num s) ds))"
proof (induction ds arbitrary: s)
  case (Cons d ds)
  then have ok: "ok (upd d s)" using run_ok by simp
  have same: "inc (upd d s) = inc s" "num (upd d s) = num s" using same [OF ok] by simp_all
  have "amount (fold upd (d # ds) s)
      = amount (upd d s) + word_of_int (total (inc s) (num s d) (map (num s) ds))"
    using Cons.IH [of "upd d s"] Cons.prems by (simp only: fold_simps comp_apply same keeps [OF ok])
  also have "\<dots> = amount s + word_of_int (inc s (latest s) (num s d)
      + total (inc s) (num s d) (map (num s) ds))"
    by (simp only: adds [OF ok] wi_hom_add add.assoc)
  finally show ?case by simp
qed simp

end

definition counting :: "ClientSettings \<Rightarrow> counters_t \<Rightarrow> bool" where
  "counting c cs \<longleftrightarrow> has_counter (innerIdx c) \<and> length cs = MAX_CLIENT_NUM
     \<and> pClient (info cs (innerIdx c)) \<noteq> None \<and> cs_dataType c \<in> {MDT_INT, MDT_DWORD}
     \<and> counter c \<in> {CT_DIFFERENCE, CT_CUMUL_NOT_100}"

definition feed :: "env \<Rightarrow> ClientSettings \<Rightarrow> ClientData \<Rightarrow> counters_t \<times> io \<Rightarrow> counters_t \<times> io" where
  "feed E c cd x = snd (counterUpdate E c cd (fst x) (snd x))"

lemma info_update [simp]:
  "has_counter i \<Longrightarrow> length cs = MAX_CLIENT_NUM \<Longrightarrow> info (cs[nat i := ci]) i = ci"
  by (simp add: info_def has_counter_def MAX_CLIENT_NUM_def nat_less_iff)

lemma info_update_other:
  "0 \<le> i \<Longrightarrow> 0 \<le> j \<Longrightarrow> i \<noteq> j \<Longrightarrow> info (cs[nat i := ci]) j = info cs j"
  by (simp add: info_def)

lemma sint_diff_fits: "fits_int (sint a - sint b) \<Longrightarrow> sint (a - b :: int32) = sint a - sint b"
  by (simp add: fits_int_def sint_word_ariths signed_take_bit_int_eq_self)

lemma scast_delta:
  "fits_int (sint a - sint b) \<Longrightarrow> (scast (a - b :: int32) :: 64 word) = word_of_int (sint a - sint b)"
  by (simp only: scast_eq sint_diff_fits)

lemma ucast_delta:
  "b \<le> (a :: DWORD) \<Longrightarrow> (ucast (a - b) :: 64 word) = word_of_int (uint a - uint b)"
  by (simp only: ucast_eq uint_sub_if' word_le_def if_True)

lemma int_delta_fault:
  "fault (snd (int_delta new old s)) = None \<longleftrightarrow> fault s = None \<and> fits_int (sint new - sint old)"
  by (auto simp: int_delta_def)

lemma sint32_bounds: "- (2 ^ 31) \<le> sint (w :: int32)" "sint (w :: int32) < 2 ^ 31"
  using sint_ge [of w] sint_lt [of w] by simp_all

lemma sint_eq_100: "sint (w :: int32) = 100 \<longleftrightarrow> w = 100"
  by (auto intro: signed_word_eqI)

lemma uint_eq_100: "uint (w :: DWORD) = 100 \<longleftrightarrow> w = 100"
  by (auto intro: unsigned_word_eqI)

lemma update_info_cases:
  assumes "ct \<in> {CT_DIFFERENCE, CT_CUMUL_NOT_100}" and "dt \<in> {MDT_INT, MDT_DWORD}"
    and "update_info E ct dt cd ci s = (ok, ci', s')"
  shows "ok \<and> currentData ci' = cd \<and> pClient ci' = pClient ci"
  using assms
  by (auto simp: update_info_def update_difference_def update_not_100_def Let_def split_beta split: if_splits)

lemma update_info_fault:
  assumes "ct \<in> {CT_DIFFERENCE, CT_CUMUL_NOT_100}" and "dt \<in> {MDT_INT, MDT_DWORD}"
    and "update_info E ct dt cd ci s = (ok, ci', s')"
  shows "fault s' = None \<longleftrightarrow> fault s = None \<and>
      (ct = CT_DIFFERENCE \<and> dt = MDT_INT \<longrightarrow> reading dt cd - reading dt (currentData ci) < 2 ^ 31)"
  using assms sint32_bounds [of "data_int cd"] sint32_bounds [of "data_int (currentData ci)"]
  by (auto simp: update_info_def update_difference_def update_not_100_def Let_def split_beta
      int_delta_fault fits_int_def reading_def split: if_splits)

lemma update_info_tally:
  assumes "ct \<in> {CT_DIFFERENCE, CT_CUMUL_NOT_100}" and "dt \<in> {MDT_INT, MDT_DWORD}"
    and "update_info E ct dt cd ci s = (ok, ci', s')" and "fault s' = None"
  shows "tally ct ci' = tally ct ci + word_of_int (increment ct (reading dt (currentData ci)) (reading dt cd))"
proof -
  have fits: "fits_int (sint (data_int cd) - sint (data_int (currentData ci)))"
    if "ct = CT_DIFFERENCE" "dt = MDT_INT" "sint (data_int (currentData ci)) < sint (data_int cd)"
    using that update_info_fault [OF assms(1-3)] assms(4) by (simp add: reading_def fits_int_def)
  have is100: "data_int cd = 100 \<longleftrightarrow> sint (data_int cd) = 100" "data_dword cd = 100 \<longleftrightarrow> uint (data_dword cd) = 100"
    by (auto simp: sint_eq_100 uint_eq_100)
  show ?thesis
    using assms fits is100
    by (auto simp: update_info_def update_difference_def update_not_100_def Let_def split_beta
        int_delta_def scast_delta ucast_delta reading_def tally_def increment_def word_less_def word_le_def
        split: if_splits)
qed

lemma counterUpdate_entry:
  assumes "has_counter (innerIdx c)" and "pClient (info cs (innerIdx c)) \<noteq> None"
    and "counterUpdate E c cd cs s = (ok, cs', s')"
  obtains ci' where "update_info E (counter c) (cs_dataType c) cd (info cs (innerIdx c)) s = (ok, ci', s')"
    and "cs' = cs[nat (innerIdx c) := ci']"
proof -
  obtain ok0 ci' s0 where run: "update_info E (counter c) (cs_dataType c) cd (info cs (innerIdx c)) s = (ok0, ci', s0)"
    by (metis prod_cases3)
  have "counterUpdate E c cd cs s = (ok0, cs[nat (innerIdx c) := ci'], s0)"
    using assms(1,2) by (auto simp: counterUpdate_def Let_def run)
  with assms(3) run that show thesis by simp
qed

definition counting_state :: "ClientSettings \<Rightarrow> counters_t \<times> io \<Rightarrow> bool" where
  "counting_state c x \<longleftrightarrow> counting c (fst x) \<and> fault (snd x) = None"

lemma feed_counting:
  assumes "counting c cs" and "feed E c cd (cs, s) = (cs', s')"
  shows "counting c cs'" "currentData (info cs' (innerIdx c)) = cd"
    and "fault s' = None \<longleftrightarrow> fault s = None \<and> (counter c = CT_DIFFERENCE \<and> cs_dataType c = MDT_INT \<longrightarrow>
      reading MDT_INT cd - reading MDT_INT (currentData (info cs (innerIdx c))) < 2 ^ 31)"
    and "fault s' = None \<Longrightarrow> tally (counter c) (info cs' (innerIdx c)) = tally (counter c) (info cs (innerIdx c))
      + word_of_int (increment (counter c) (reading (cs_dataType c) (currentData (info cs (innerIdx c))))
          (reading (cs_dataType c) cd))"
proof -
  obtain ok where run: "counterUpdate E c cd cs s = (ok, cs', s')"
    using assms(2) by (cases "counterUpdate E c cd cs s") (simp add: feed_def)
  obtain ci' where ci: "update_info E (counter c) (cs_dataType c) cd (info cs (innerIdx c)) s = (ok, ci', s')"
    and cs': "cs' = cs[nat (innerIdx c) := ci']"
    using counterUpdate_entry [OF _ _ run] assms(1) by (auto simp: counting_def)
  have t: "counter c \<in> {CT_DIFFERENCE, CT_CUMUL_NOT_100}" "cs_dataType c \<in> {MDT_INT, MDT_DWORD}"
    and i: "has_counter (innerIdx c)" "length cs = MAX_CLIENT_NUM" "pClient (info cs (innerIdx c)) \<noteq> None"
    using assms(1) by (auto simp: counting_def)
  note r = update_info_cases [OF t ci] update_info_fault [OF t ci] update_info_tally [OF t ci]
  have new: "info cs' (innerIdx c) = ci'" "length cs' = MAX_CLIENT_NUM" using i cs' by simp_all
  show "counting c cs'" using t i r(1) new by (simp add: counting_def)
  show "currentData (info cs' (innerIdx c)) = cd" using r(1) new by simp
  show "fault s' = None \<longleftrightarrow> fault s = None \<and> (counter c = CT_DIFFERENCE \<and> cs_dataType c = MDT_INT \<longrightarrow>
      reading MDT_INT cd - reading MDT_INT (currentData (info cs (innerIdx c))) < 2 ^ 31)"
    using r(2) by auto
  show "tally (counter c) (info cs' (innerIdx c)) = tally (counter c) (info cs (innerIdx c))
      + word_of_int (increment (counter c) (reading (cs_dataType c) (currentData (info cs (innerIdx c))))
          (reading (cs_dataType c) cd))" if "fault s' = None"
    using r(3) [OF that] new by simp
qed

lemma fold_counting: "counting c (fst x) \<Longrightarrow> counting c (fst (fold (feed E c) cds x))"
proof (induction cds arbitrary: x)
  case (Cons d ds)
  have "counting c (fst (feed E c d x))"
    using feed_counting(1) [OF Cons.prems, of E d "snd x"] by (metis prod.collapse)
  from Cons.IH [OF this] show ?case by simp
qed simp

lemma feed_not_counting: "\<not> counting c cs \<Longrightarrow> fst (feed E c cd (cs, s)) = cs' \<Longrightarrow> \<not> counting c cs'"
proof -
  have "pClient (fst (snd (update_info E ct dt cd ci s))) = pClient ci" for ct dt ci s
    by (auto simp: update_info_def update_difference_def update_not_100_def update_cumul_def
        Let_def split_beta split: CounterType.splits DataType.splits)
  then show "\<not> counting c cs \<Longrightarrow> fst (feed E c cd (cs, s)) = cs' \<Longrightarrow> \<not> counting c cs'"
    by (auto simp: feed_def counterUpdate_def counting_def Let_def split_beta split: if_splits)
qed

lemma feed_os_le: "os_le (snd x) (snd (feed E c cd x))"
  by (auto simp: feed_def counterUpdate_def update_info_def update_difference_def update_not_100_def
      update_cumul_def int_delta_def wrong_counter_type_def ct_LOG_E_def Let_def split_beta
      split: CounterType.splits DataType.splits)

interpretation counted: accumulator "feed E c" "counting_state c"
    "\<lambda>x. tally (counter c) (info (fst x) (innerIdx c))"
    "\<lambda>x. reading (cs_dataType c) (currentData (info (fst x) (innerIdx c)))"
    "\<lambda>x. reading (cs_dataType c)" "\<lambda>x. increment (counter c)"
proof
  fix d x
  assume ok: "counting_state c (feed E c d x)"
  obtain cs s cs' s' where x: "x = (cs, s)" and run: "feed E c d (cs, s) = (cs', s')"
    by (metis surj_pair)
  have c: "counting c cs" using ok run feed_not_counting [of c cs E d s] by (auto simp: counting_state_def x)
  note r = feed_counting [OF c run]
  have f: "fault s' = None" using ok run by (simp add: counting_state_def x)
  show "counting_state c x" using c r(3) f by (simp add: counting_state_def x)
  show "tally (counter c) (info (fst (feed E c d x)) (innerIdx c)) = tally (counter c) (info (fst x) (innerIdx c))
      + word_of_int (increment (counter c) (reading (cs_dataType c) (currentData (info (fst x) (innerIdx c))))
          (reading (cs_dataType c) d))"
    using r(4) [OF f] run by (simp add: x)
  show "reading (cs_dataType c) (currentData (info (fst (feed E c d x)) (innerIdx c))) = reading (cs_dataType c) d"
    using r(2) run by (simp add: x)
qed simp

text \<open>
  C27. For a difference or a not-100 counter of an \<^verbatim>\<open>int\<close> or \<^verbatim>\<open>dword\<close> client, a run of updates
  without undefined behaviour adds exactly the sum of the increments the README describes: the
  rises of the value, or one for every value other than 100.
\<close>

theorem counter_adds_total:
  assumes "counting c cs" and "fold (feed E c) cds (cs, s) = (cs', s')" and "fault s' = None"
  shows "tally (counter c) (info cs' (innerIdx c)) = tally (counter c) (info cs (innerIdx c))
      + word_of_int (total (increment (counter c))
          (reading (cs_dataType c) (currentData (info cs (innerIdx c))))
          (map (reading (cs_dataType c)) cds))"
proof -
  have "counting_state c (cs', s')"
    using assms fold_counting [of c "(cs, s)" E cds] by (simp add: counting_state_def)
  with counted.run_amount [of c E cds "(cs, s)"] assms(2) show ?thesis by simp
qed

definition meter :: ClientSettings where
  "meter = ClientSettings_zero\<lparr>cs_name := Some ''m'', innerIdx := 2, cs_dataType := MDT_INT,
     counter := CT_DIFFERENCE\<rparr>"

definition int_value :: "int32 \<Rightarrow> ClientData" where
  "int_value n = ClientData_zero\<lparr>cd_dataType := MDT_INT, data_int := n\<rparr>"

definition meter_counters :: counters_t where
  "meter_counters = counters0[2 := CounterInfo_zero\<lparr>pClient := Some 2\<rparr>]"

lemma meter_sel [simp]:
  "innerIdx meter = 2" "counter meter = CT_DIFFERENCE" "cs_dataType meter = MDT_INT"
  "info meter_counters 2 = CounterInfo_zero\<lparr>pClient := Some 2\<rparr>" "length meter_counters = MAX_CLIENT_NUM"
  "has_counter 2" "data_int (int_value n) = n"
  by (simp_all add: meter_def meter_counters_def info_def counters0_def MAX_CLIENT_NUM_def has_counter_def
      int_value_def)

lemma meter_counting: "counting meter meter_counters"
  by (simp add: counting_def)

theorem counter_adds_total_witness:
  "differenceCounter (info (fst (fold (feed quiet_env meter) (map int_value [10, 10, 30])
     (meter_counters, io0 (\<lambda>_. None)))) 2) = 30"
proof -
  obtain cs' s' where run: "fold (feed quiet_env meter) (map int_value [10, 10, 30])
      (meter_counters, io0 (\<lambda>_. None)) = (cs', s')" by (metis surj_pair)
  obtain a b where 1: "feed quiet_env meter (int_value 10) (meter_counters, io0 (\<lambda>_. None)) = (a, b)"
    by (metis surj_pair)
  obtain a2 b2 where 2: "feed quiet_env meter (int_value 10) (a, b) = (a2, b2)" by (metis surj_pair)
  have 3: "feed quiet_env meter (int_value 30) (a2, b2) = (cs', s')" using run 1 2 by simp
  note f1 = feed_counting [OF meter_counting 1]
  note f2 = feed_counting [OF f1(1) 2]
  note f3 = feed_counting [OF f2(1) 3]
  have "fault b = None" using f1(3) by (simp add: reading_def io0_def CounterInfo_zero_def ClientData_zero_def)
  then have "fault b2 = None" using f2(3) f1(2) by (simp add: reading_def)
  then have "fault s' = None" using f3(3) f2(2) by (simp add: reading_def)
  with counter_adds_total [OF meter_counting run] run show ?thesis
    by (simp add: tally_def increment_def reading_def CounterInfo_zero_def ClientData_zero_def)
qed

text \<open>
  C31. Updating such a counter is free of undefined behaviour exactly when the state was and the
  client is not an \<^verbatim>\<open>int\<close> difference counter whose value rises by \<^verbatim>\<open>2^31\<close> or more.
\<close>

theorem counter_update_fault_iff:
  assumes "counting c cs"
  shows "fault (snd (snd (counterUpdate E c cd cs s))) = None \<longleftrightarrow> fault s = None \<and>
      (counter c = CT_DIFFERENCE \<and> cs_dataType c = MDT_INT \<longrightarrow>
        sint (data_int cd) - sint (data_int (currentData (info cs (innerIdx c)))) < 2 ^ 31)"
proof -
  obtain cs' s' where "feed E c cd (cs, s) = (cs', s')" by (metis surj_pair)
  from feed_counting(3) [OF assms this] this show ?thesis
    by (simp add: reading_def) (simp add: feed_def)
qed

theorem counter_update_fault_iff_witness:
  "fault (snd (snd (counterUpdate quiet_env meter (int_value 7) meter_counters (io0 (\<lambda>_. None))))) = None"
  using counter_update_fault_iff [OF meter_counting, of quiet_env "int_value 7" "io0 (\<lambda>_. None)"]
  by (simp add: io0_def CounterInfo_zero_def ClientData_zero_def)

text \<open>
  C39. The cumulated counter starts at 0 with the first value and then adds, for \<^verbatim>\<open>int\<close>, the rise
  of the value, and for \<^verbatim>\<open>dword\<close>, the change modulo \<^verbatim>\<open>2^32\<close>: it does not count changes one by
  one as the README says, and a \<^verbatim>\<open>dword\<close> that falls by 1 adds \<^verbatim>\<open>2^32 - 1\<close>.
\<close>

theorem cumulated_counter_step:
  assumes "has_counter (innerIdx c)" and "length cs = MAX_CLIENT_NUM"
    and "pClient (info cs (innerIdx c)) \<noteq> None" and "counter c = CT_CUMUL"
    and "cs_dataType c \<in> {MDT_INT, MDT_DWORD}"
    and "counterUpdate E c cd cs s = (ok, cs', s')" and "fault s' = None"
  defines "ci \<equiv> info cs (innerIdx c)"
  defines "p \<equiv> reading (cs_dataType c) (currentData ci)" and "x \<equiv> reading (cs_dataType c) cd"
  shows "ok \<and> currentData (info cs' (innerIdx c)) = cd \<and>
     cumulatedCounter (info cs' (innerIdx c)) =
       (if cumulatedCounter ci = -1 then 0
        else cumulatedCounter ci
          + word_of_int (if cs_dataType c = MDT_INT then increment CT_DIFFERENCE p x else (x - p) mod 2 ^ 32))"
proof -
  obtain ci' where run: "update_info E CT_CUMUL (cs_dataType c) cd ci s = (ok, ci', s')"
    and cs': "cs' = cs[nat (innerIdx c) := ci']"
    using counterUpdate_entry [OF assms(1,3,6)] assms(4) by (auto simp: ci_def)
  have fits: "fits_int (sint (data_int cd) - sint (data_int (currentData ci)))"
    if "cs_dataType c = MDT_INT" "sint (data_int (currentData ci)) < sint (data_int cd)" "cumulatedCounter ci \<noteq> -1"
    using run that assms(7) by (auto simp: update_info_def update_cumul_def Let_def split_beta int_delta_fault)
  have wrap: "(ucast (a - b :: DWORD) :: 64 word) = word_of_int ((uint a - uint b) mod 2 ^ 32)" for a b
    by (simp only: ucast_eq uint_word_ariths) simp
  show ?thesis
    using run cs' assms(1,2,4,5) fits
    by (auto simp: update_info_def update_cumul_def Let_def split_beta int_delta_def scast_delta wrap
        p_def x_def reading_def increment_def split: if_splits)
qed

definition dword_value :: "DWORD \<Rightarrow> ClientData" where
  "dword_value n = ClientData_zero\<lparr>cd_dataType := MDT_DWORD, data_dword := n\<rparr>"

definition sum_client :: ClientSettings where
  "sum_client = ClientSettings_zero\<lparr>innerIdx := 0, cs_dataType := MDT_DWORD, counter := CT_CUMUL\<rparr>"

definition sum_counters :: counters_t where
  "sum_counters = counters0[0 := CounterInfo_zero\<lparr>pClient := Some 0, currentData := dword_value 10\<rparr>]"

lemma sum_sel [simp]:
  "innerIdx sum_client = 0" "counter sum_client = CT_CUMUL" "cs_dataType sum_client = MDT_DWORD"
  "info sum_counters 0 = CounterInfo_zero\<lparr>pClient := Some 0, currentData := dword_value 10\<rparr>"
  "length sum_counters = MAX_CLIENT_NUM" "has_counter 0" "data_dword (dword_value n) = n"
  by (simp_all add: sum_client_def sum_counters_def info_def counters0_def MAX_CLIENT_NUM_def has_counter_def
      dword_value_def)

theorem cumulated_counter_step_witness:
  "cumulatedCounter (info (fst (snd (counterUpdate quiet_env sum_client (dword_value 9) sum_counters
     (io0 (\<lambda>_. None))))) 0) = 4294967295"
proof -
  obtain ok cs' s' where run:
    "counterUpdate quiet_env sum_client (dword_value 9) sum_counters (io0 (\<lambda>_. None)) = (ok, cs', s')"
    by (metis prod_cases3)
  have "fault s' = None"
    using run by (auto simp: counterUpdate_def update_info_def update_cumul_def CounterInfo_zero_def io0_def)
  from cumulated_counter_step [OF _ _ _ _ _ run this] run show ?thesis
    by (simp add: reading_def CounterInfo_zero_def)
qed

section \<open>From one message to the next\<close>

lemma total_nonneg: "0 \<le> total (increment ct) p xs"
proof (induction xs arbitrary: p)
  case (Cons x xs)
  have "0 \<le> increment ct p x" by (simp add: increment_def split: CounterType.splits)
  with Cons [of x] show ?case by simp
qed simp

lemma counterReset_counting:
  assumes "counting c cs" and "counterReset c cs s = (cs', s')"
  shows "counting c cs'" "tally (counter c) (info cs' (innerIdx c)) = 0" "s' = s"
    and "currentData (info cs' (innerIdx c)) = currentData (info cs (innerIdx c))"
  using assms by (auto simp: counterReset_def counting_def tally_def Let_def)

lemma counterGet_counting:
  assumes "counting c cs" and "counterGet E c cd cs s = (ok, cd', s')"
  shows "ok" "cd_dataType cd' = cs_dataType c" "s' = s"
    and "cs_dataType c = MDT_DWORD \<Longrightarrow>
      uint (data_dword cd') = uint (tally (counter c) (info cs (innerIdx c))) mod 2 ^ 32"
  using assms by (auto simp: counterGet_def deliver_def counting_def tally_def Let_def unsigned_ucast_eq take_bit_eq_mod)


lemma fold_not_100_fault:
  "counting c (fst x) \<Longrightarrow> counter c = CT_CUMUL_NOT_100 \<Longrightarrow> fault (snd x) = None \<Longrightarrow>
     fault (snd (fold (feed E c) cds x)) = None"
proof (induction cds arbitrary: x)
  case (Cons d ds)
  have "counting c (fst (feed E c d x))" "fault (snd (feed E c d x)) = None"
    using feed_counting(1,3) [OF Cons.prems(1), of E d "snd x"] Cons.prems(2,3)
    by (auto simp: prod.collapse) (metis prod.collapse)+
  with Cons show ?case by simp
qed simp

definition flow :: ClientSettings where
  "flow = ClientSettings_zero\<lparr>innerIdx := 2, cs_dataType := MDT_DWORD, counter := CT_CUMUL_NOT_100\<rparr>"


end
