(* ===== verification/TsMain.thy ===== *)
theory TsMain
  imports Timer ClientQueue TsData MqttConnect Counters
begin

text \<open>
  \<^verbatim>\<open>main.c\<close>: the module's start, its state machine (initialise, process, send) and the path of a
  client's value from the client to the message.  The locals of \<^verbatim>\<open>main\<close> and the globals of the
  other files are one record; the 100 ms signal may arrive between any two phases of the main
  loop.
\<close>

section \<open>State\<close>

definition INIT_CFG :: int where "INIT_CFG = 0"
definition INIT_SYS :: int where "INIT_SYS = 1"
definition PROCESS :: int where "PROCESS = 2"
definition SEND_DATA :: int where "SEND_DATA = 3"

record device_status =
  ds_state :: int
  ds_timer :: bool
  ds_mqtt :: bool
  ds_manager :: bool

text \<open>What polling a client reads and writes.\<close>

record poll_t =
  mgr :: manager_t
  cnt :: counters_t
  clientData :: ClientData
  mqtt_data :: "t_data list"

record module_t =
  dev_status :: device_status
  tm :: timer_t
  mq :: mqtt_t
  qu :: ClientQueue
  poll :: poll_t
  send_buf :: string
  power_on_time :: long64
  mqtt_data_count :: int
  sendDataMin :: int
  clientsCount :: int

definition mn_LOG_E :: "env \<Rightarrow> int \<Rightarrow> string \<Rightarrow> string \<Rightarrow> io \<Rightarrow> io" where
  "mn_LOG_E E line fn message = log_error E ''main.c'' line fn message"

section \<open>Sending\<close>

text \<open>The result of \<^verbatim>\<open>get_json\<close> is not looked at; the whole buffer goes through the logger.\<close>

definition send_data :: "env \<Rightarrow> mqtt_t \<Rightarrow> t_data list \<Rightarrow> int \<Rightarrow> io \<Rightarrow> int \<times> string \<times> io" where
  "send_data E m data count s =
     (let (r, buf, s) = get_json E MAX_BUF data count s;
          s = log_info E buf s;
          (r, s) = mqtt_send E m buf s
      in (r, buf, s))"

section \<open>From a client's value to a member of the message\<close>

definition set_type :: "int \<Rightarrow> t_data \<Rightarrow> t_data" where
  "set_type n d = d\<lparr>td_type := n\<rparr>"

text \<open>A text of full length has no terminator, which shows when it is formatted.\<close>

definition debug_on :: "io \<Rightarrow> bool" where
  "debug_on s \<longleftrightarrow> LOG_MAX_LEVEL_ERROR_WARNING_MESSAGE_DEBUG \<le> max_log_level (log_global_set s)"

definition client_to_mqtt :: "env \<Rightarrow> ClientSettings \<Rightarrow> ClientData \<Rightarrow> t_data \<Rightarrow> io
    \<Rightarrow> bool \<times> t_data \<times> io" where
  "client_to_mqtt E c cd d s =
     (let d = d\<lparr>td_alias := cs_name c\<rparr> in
      case cd_dataType cd of
        MDT_INT \<Rightarrow> (True, (set_type TS_INT d)\<lparr>i_data := data_int cd\<rparr>,
          log_debug E (''Int data: '' @ fmt_d (data_int cd)) s)
      | MDT_BOOL \<Rightarrow> (True, (set_type TS_BOOL d)\<lparr>b_data := data_bool cd\<rparr>,
          log_debug E (''Bool data: '' @ yes_no (data_bool cd) ''true'' ''false'') s)
      | MDT_DWORD \<Rightarrow> (True, (set_type TS_LINT d)\<lparr>l_data := ucast (data_dword cd)\<rparr>,
          mn_LOG_E E 149 ''client_to_mqtt'' ''NOT REALIZED''
            (log_debug E (''Dword data: '' @ fmt_d (data_dword cd)) s))
      | MDT_DOUBLE \<Rightarrow> (True, (set_type TS_DOUBLE d)\<lparr>d_data := data_double cd\<rparr>,
          log_debug E (''Double data: '' @ fmt_f (data_double cd)) s)
      | MDT_TIME \<Rightarrow>
          (let (t, s) = ext_str E (Sys (C_ctime (data_time cd))) s
           in (True, (set_type TS_LINT d)\<lparr>l_data := data_time cd\<rparr>,
               mn_LOG_E E 164 ''client_to_mqtt'' ''NOT REALIZED'' (log_debug E (''Time data: '' @ t) s)))
      | MDT_ENUM \<Rightarrow> (True, (set_type TS_LINT d)\<lparr>l_data := scast (data_enum cd)\<rparr>,
          mn_LOG_E E 172 ''client_to_mqtt'' ''NOT REALIZED''
            (log_debug E (''Enum (int) data: '' @ fmt_d (data_enum cd)) s))
      | MDT_CHAR \<Rightarrow> (True, (set_type TS_CHAR d)\<lparr>ch_data := strncpy_c (data_char cd) MAX_OPC_STR_LEN\<rparr>,
          log_debug E (''Char data: '' @ data_char cd)
            (ub_if (debug_on s \<and> length (data_char cd) = MAX_OPC_STR_LEN) Out_Of_Bounds s)))"

definition int_field :: "string \<Rightarrow> int32 \<Rightarrow> t_data \<Rightarrow> t_data" where
  "int_field name n d = (set_type TS_INT d)\<lparr>td_alias := Some name, i_data := n\<rparr>"

definition lint_field :: "string \<Rightarrow> long64 \<Rightarrow> t_data \<Rightarrow> t_data" where
  "lint_field name n d = (set_type TS_LINT d)\<lparr>td_alias := Some name, l_data := n\<rparr>"

definition double_field :: "string \<Rightarrow> double \<Rightarrow> t_data \<Rightarrow> t_data" where
  "double_field name x d = (set_type TS_DOUBLE d)\<lparr>td_alias := Some name, d_data := x\<rparr>"

definition char_field :: "string \<Rightarrow> string \<Rightarrow> t_data \<Rightarrow> t_data" where
  "char_field name t d =
     (set_type TS_CHAR d)\<lparr>td_alias := Some name, ch_data := strncpy_c t MAX_OPC_STR_LEN\<rparr>"

definition at_field :: "nat \<Rightarrow> (t_data \<Rightarrow> t_data) \<Rightarrow> t_data list \<Rightarrow> t_data list" where
  "at_field i f data = data[i := f (data ! i)]"

definition set_mqtt_dynamic_fields :: "env \<Rightarrow> t_data list \<Rightarrow> io \<Rightarrow> t_data list \<times> io" where
  "set_mqtt_dynamic_fields E data s =
     (let data = at_field SF_BAT (int_field ''bat'' 95) data;
          data = at_field SF_SIG (int_field ''sig'' 25) data;
          (t, s) = time_c E s;
          data = at_field SF_TS (lint_field ''ts'' t) data;
          data = at_field SF_ID (int_field ''id'' 0) data
      in (data, s))"

text \<open>The doubles nearest to 18.0993 and 54.084.\<close>

definition LON :: double where "LON = 4625787717728108072"
definition LAT :: double where "LAT = 4632808463629708952"

definition set_mqtt_static_fields :: "t_data list \<Rightarrow> t_data list" where
  "set_mqtt_static_fields data =
     (let data = at_field SF_VER (char_field ''ver'' ''0.0.1+linux'') data;
          data = at_field SF_EP (char_field ''ep'' ''868186040127613'') data;
          data = at_field SF_TYPE (char_field ''type'' ''full'') data;
          data = at_field SF_LON (double_field ''lon'' LON) data;
          data = at_field SF_LAT (double_field ''lat'' LAT) data
      in at_field SF_LOC (int_field ''loc'' 1) data)"

section \<open>Computation\<close>

fun comp_factor :: "LocalCompType \<Rightarrow> nat" where
  "comp_factor LCT_NONE = 1"
| "comp_factor LCT_MUL_60 = 60"
| "comp_factor LCT_MUL_60000000 = 60000000"
| "comp_factor LCT_MUL_1000 = 1000"

definition client_computation :: "env \<Rightarrow> ClientSettings \<Rightarrow> ClientData \<Rightarrow> io
    \<Rightarrow> bool \<times> ClientData \<times> io" where
  "client_computation E c cd s =
     (let k = comp_factor (computation c) in
      if computation c = LCT_NONE then (True, cd, s)
      else (case cd_dataType cd of
          MDT_INT \<Rightarrow> (True, cd\<lparr>data_int := data_int cd * word_of_nat k\<rparr>,
            ub_if (\<not> fits_int (sint (data_int cd) * int k)) Signed_Overflow s)
        | MDT_DWORD \<Rightarrow> (True, cd\<lparr>data_dword := data_dword cd * word_of_nat k\<rparr>, s)
        | MDT_DOUBLE \<Rightarrow> (True, cd\<lparr>data_double := dbl_mul_nat (data_double cd) k\<rparr>, s)
        | dt \<Rightarrow> (False, cd, mn_LOG_E E 341 ''client_computation''
            (''Wrong data type no: '' @ dec_int (dt_code dt) @ '' for computation'') s)))"

section \<open>Initialisation\<close>

text \<open>The loop that queues the clients of the table; \<open>-1\<close> is the early return.\<close>

fun init_queue :: "env \<Rightarrow> nat \<Rightarrow> InnerIdx \<Rightarrow> manager_t \<Rightarrow> ClientQueue \<Rightarrow> counters_t \<Rightarrow> io
    \<Rightarrow> int \<times> ClientQueue \<times> counters_t \<times> io" where
  "init_queue E 0 i m q cs s = (0, q, cs, s)"
| "init_queue E (Suc n) i m q cs s = (case manager_get_client i m of
      None \<Rightarrow> (0, q, cs, s)
    | Some c \<Rightarrow>
        (let (ok, q, s) = queueAdd E (refreshRate c) (innerIdx c) q s in
         if \<not> ok then
           (-1, q, cs, mn_LOG_E E 89 ''init_sys'' (''Queue ERROR: Can't add client: ''
              @ str_or_null (cs_name c)) s)
         else
           (let (cs, s) = counterAdd c cs s in init_queue E n (i + 1) m q cs s)))"

definition init_manager :: "env \<Rightarrow> config_t \<Rightarrow> module_t \<Rightarrow> io \<Rightarrow> int \<times> module_t \<times> io" where
  "init_manager E cfg m s =
     (let p = poll m;
          (ok, mg, s) = manager_init_config E cfg (mgr p) s
      in if \<not> ok then
           (-1, m\<lparr>poll := p\<lparr>mgr := mg\<rparr>\<rparr>, mn_LOG_E E 72 ''init_sys'' ''Manager ERROR: Wrong config'' s)
         else
           (let (ok, mg, s) = manager_init_connections E mg s;
                s = (if \<not> ok then mn_LOG_E E 77 ''init_sys'' ''Manager ERROR: Connection fail'' s else s);
                (r, q, cs, s) = init_queue E MAX_CLIENT_NUM 0 mg (queueCleen (qu m)) (cnt p) s;
                m = m\<lparr>poll := p\<lparr>mgr := mg, cnt := cs\<rparr>, qu := q\<rparr>
            in if r \<noteq> 0 then (r, m, s)
               else (0, m\<lparr>dev_status := (dev_status m)\<lparr>ds_manager := True\<rparr>\<rparr>, s)))"

definition init_mqtt :: "env \<Rightarrow> config_t \<Rightarrow> module_t \<Rightarrow> io \<Rightarrow> module_t \<times> io" where
  "init_mqtt E cfg m s =
     (if ds_mqtt (dev_status m) then (m, s)
      else
        (let (r, q, s) = mqtt_init E cfg (mq m) s;
             m = m\<lparr>mq := q\<rparr>
         in (if r = 0 then m\<lparr>dev_status := (dev_status m)\<lparr>ds_mqtt := True\<rparr>\<rparr> else m, s)))"

definition init_timer :: "env \<Rightarrow> module_t \<Rightarrow> io \<Rightarrow> module_t \<times> io" where
  "init_timer E m s =
     (if \<not> ds_timer (dev_status m) \<and> ds_manager (dev_status m) \<and> ds_mqtt (dev_status m) then
        (let (t, s) = timer_init (tm m) s;
             (r, t, s) = timer_start E TIMER_100mc t s;
             m = m\<lparr>tm := t\<rparr>
         in (if r = 0 then m\<lparr>dev_status := (dev_status m)\<lparr>ds_timer := True\<rparr>\<rparr> else m, s))
      else (m, s))"

definition all_up :: "device_status \<Rightarrow> bool" where
  "all_up d \<longleftrightarrow> ds_timer d \<and> ds_manager d \<and> ds_mqtt d"

definition init_finish :: "env \<Rightarrow> module_t \<Rightarrow> io \<Rightarrow> module_t \<times> io" where
  "init_finish E m s =
     (if all_up (dev_status m) then
        (m\<lparr>dev_status := (dev_status m)\<lparr>ds_state := PROCESS\<rparr>\<rparr>, log_info E ''Init finished'' s)
      else (m, emit (Sys (C_sleep 5)) (log_info E ''Wait init'' s)))"

definition init_sys :: "env \<Rightarrow> config_t \<Rightarrow> module_t \<Rightarrow> io \<Rightarrow> int \<times> module_t \<times> io" where
  "init_sys E cfg m s =
     (let (r, t, s) = timer_stop E (tm m) s;
          m = m\<lparr>tm := t, dev_status := (dev_status m)\<lparr>ds_timer := False\<rparr>\<rparr>;
          (m, s) = init_mqtt E cfg m s;
          (r, m, s) = (if ds_manager (dev_status m) then (0, m, s) else init_manager E cfg m s)
      in if r \<noteq> 0 then (r, m, s)
         else
           (let (m, s) = init_timer E m s;
                (m, s) = init_finish E m s
            in (0, m, s)))"

section \<open>Polling a client\<close>

text \<open>
  The four loops over clients have the same body but for the line numbers of their messages, which
  are at fixed distances from the first one, \<open>l\<close>.
\<close>

definition update_stage :: "env \<Rightarrow> int \<Rightarrow> InnerIdx \<Rightarrow> poll_t \<Rightarrow> io \<Rightarrow> poll_t \<times> io" where
  "update_stage E line i p s =
     (let c = client (mgr p) i;
          (ok, cs, s) = counterUpdate E c (clientData p) (cnt p) s
      in (p\<lparr>cnt := cs\<rparr>,
          if ok then s else mn_LOG_E E line ''main''
            (''Can't update counter, client: '' @ str_or_null (cs_name c)) s))"

definition get_stage :: "env \<Rightarrow> int \<Rightarrow> InnerIdx \<Rightarrow> poll_t \<Rightarrow> io \<Rightarrow> poll_t \<times> io" where
  "get_stage E line i p s =
     (let c = client (mgr p) i;
          (ok, cd, s) = counterGet E c (clientData p) (cnt p) s
      in (p\<lparr>clientData := cd\<rparr>,
          if ok then s else mn_LOG_E E line ''main''
            (''Can't get counter val, client: '' @ str_or_null (cs_name c)) s))"

definition computation_stage :: "env \<Rightarrow> int \<Rightarrow> InnerIdx \<Rightarrow> poll_t \<Rightarrow> io \<Rightarrow> poll_t \<times> io" where
  "computation_stage E line i p s =
     (let c = client (mgr p) i;
          (ok, cd, s) = client_computation E c (clientData p) s
      in (p\<lparr>clientData := cd\<rparr>,
          if ok then s else mn_LOG_E E line ''main''
            (''Can't make computation, client: '' @ str_or_null (cs_name c)) s))"

definition mqtt_slots :: nat where
  "mqtt_slots = SF_CLIENT_POS + MAX_CLIENT_NUM"

text \<open>Writes the client's member of the message; the answer is that of \<^verbatim>\<open>client_to_mqtt\<close>.\<close>

definition convert_stage :: "env \<Rightarrow> int \<Rightarrow> InnerIdx \<Rightarrow> poll_t \<Rightarrow> io \<Rightarrow> bool \<times> poll_t \<times> io" where
  "convert_stage E line i p s =
     (let c = client (mgr p) i;
          k = int SF_CLIENT_POS + innerIdx c;
          s = ub_if (k < 0 \<or> int mqtt_slots \<le> k) Out_Of_Bounds s;
          (ok, d, s) = client_to_mqtt E c (clientData p) (mqtt_data p ! nat k) s
      in (ok, p\<lparr>mqtt_data := (mqtt_data p)[nat k := d]\<rparr>,
          if ok then s else mn_LOG_E E line ''main''
            (''Can't convert data, client: '' @ str_or_null (cs_name c)) s))"

definition poll_received :: "env \<Rightarrow> int \<Rightarrow> InnerIdx \<Rightarrow> poll_t \<Rightarrow> io \<Rightarrow> poll_t \<times> io" where
  "poll_received E l i p s =
     (let (p, s) = update_stage E (l + 11) i p s;
          (p, s) = get_stage E (l + 15) i p s;
          (p, s) = computation_stage E (l + 19) i p s;
          (ok, p, s) = convert_stage E (l + 24) i p s
      in (p, if ok then log_debug E (''Receive OK, client '' @ name_of (mgr p) i) s else s))"

text \<open>Only at start: a client that does not answer counts as all zeros of its type.\<close>

definition poll_missing :: "env \<Rightarrow> InnerIdx \<Rightarrow> poll_t \<Rightarrow> io \<Rightarrow> poll_t \<times> io" where
  "poll_missing E i p s =
     (let p = p\<lparr>clientData := ClientData_zero\<lparr>cd_dataType := cs_dataType (client (mgr p) i)\<rparr>\<rparr>;
          (p, s) = update_stage E 452 i p s;
          (p, s) = get_stage E 456 i p s;
          (ok, p, s) = convert_stage E 461 i p s
      in (p, if ok then mn_LOG_E E 465 ''main'' (''Receive error, client '' @ name_of (mgr p) i) s else s))"

text \<open>Reading one client: the answer tells whether data was received.\<close>

definition poll_receive :: "env \<Rightarrow> InnerIdx \<Rightarrow> poll_t \<Rightarrow> io \<Rightarrow> bool \<times> poll_t \<times> io" where
  "poll_receive E i p s =
     (let s = log_debug E (''Read data, client: '' @ name_of (mgr p) i) s;
          (ok, cd, m, s) = manager_receive_data E (innerIdx (client (mgr p) i)) (clientData p) (mgr p) s
      in (ok, p\<lparr>mgr := m, clientData := cd\<rparr>, s))"

definition poll_client :: "env \<Rightarrow> int \<Rightarrow> InnerIdx \<Rightarrow> poll_t \<times> io \<Rightarrow> poll_t \<times> io" where
  "poll_client E l i x =
     (let (p, s) = x in
      case manager_get_client i (mgr p) of
        None \<Rightarrow> (p, mn_LOG_E E l ''main'' (''Manager: Wrong client num '' @ dec_int i) s)
      | Some c \<Rightarrow>
          (let (ok, p, s) = poll_receive E i p s in
           if ok then poll_received E l i p s
           else (p, mn_LOG_E E (l + 32) ''main'' (''Receive error, client '' @ name_of (mgr p) i) s)))"

definition poll_client_first :: "env \<Rightarrow> InnerIdx \<Rightarrow> poll_t \<times> io \<Rightarrow> poll_t \<times> io" where
  "poll_client_first E i x =
     (let (p, s) = x in
      case manager_get_client i (mgr p) of
        None \<Rightarrow> (p, mn_LOG_E E 414 ''main'' (''Manager: Wrong client num '' @ dec_int i) s)
      | Some c \<Rightarrow>
          (let (ok, p, s) = poll_receive E i p s in
           if ok then poll_received E 414 i p s else poll_missing E i p s))"

text \<open>The \<^verbatim>\<open>for\<close> loop over the table after initialisation.\<close>

definition first_poll :: "env \<Rightarrow> int \<Rightarrow> poll_t \<times> io \<Rightarrow> poll_t \<times> io" where
  "first_poll E n x = fold (poll_client_first E) [0..n - 1] x"

section \<open>The states of the main loop\<close>

text \<open>Where the main loop stands: at the switch, or inside the processing state.\<close>

datatype pc = At_switch | Clear_100ms | At_1m | Clear_1m | At_1s | Clear_1s

definition set_state :: "int \<Rightarrow> module_t \<Rightarrow> module_t" where
  "set_state n m = m\<lparr>dev_status := (dev_status m)\<lparr>ds_state := n\<rparr>\<rparr>"

definition start_up :: "env \<Rightarrow> module_t \<Rightarrow> io \<Rightarrow> module_t \<times> io" where
  "start_up E m s =
     (let p = poll m;
          n = manager_get_clients_count (mgr p);
          (k, s) = manager_get_send_interval E (mgr p) s;
          (data, s) = set_mqtt_dynamic_fields E (set_mqtt_static_fields (mqtt_data p)) s;
          (p, s) = first_poll E n (p\<lparr>mqtt_data := data\<rparr>, s)
      in (set_state SEND_DATA (m\<lparr>poll := p, clientsCount := n, sendDataMin := k,
            mqtt_data_count := int SF_CLIENT_POS + n\<rparr>), s))"

definition do_init :: "env \<Rightarrow> config_t \<Rightarrow> module_t \<Rightarrow> io \<Rightarrow> module_t \<times> io" where
  "do_init E cfg m s =
     (let (r, m, s) = init_sys E cfg m s;
          (m, s) = (if ds_state (dev_status m) \<noteq> INIT_SYS then start_up E m s else (m, s))
      in (m, emit (Sys (C_sleep 1)) s))"

definition survey_rate :: "env \<Rightarrow> RefreshRate \<Rightarrow> int \<Rightarrow> module_t \<Rightarrow> io \<Rightarrow> (module_t \<times> io) option" where
  "survey_rate E r l m s =
     (case survey (queueGetFirst r) (queueGetNext r) (poll_client E l) (qu m) (poll m, s) of
        None \<Rightarrow> None
      | Some (q, p, s) \<Rightarrow> Some (m\<lparr>qu := q, poll := p\<rparr>, s))"

text \<open>The minute countdown to the next message, an \<^verbatim>\<open>int\<close> that is decremented first.\<close>

definition count_minute :: "env \<Rightarrow> module_t \<Rightarrow> io \<Rightarrow> module_t \<times> io" where
  "count_minute E m s =
     (let s = ub_if (\<not> fits_int (sendDataMin m - 1)) Signed_Overflow s;
          m = m\<lparr>sendDataMin := sendDataMin m - 1\<rparr>
      in if sendDataMin m \<le> 0 then
           (let (k, s) = manager_get_send_interval E (mgr (poll m)) s
            in (set_state SEND_DATA (m\<lparr>sendDataMin := k\<rparr>), s))
         else (m, s))"

fun reset_counters :: "env \<Rightarrow> nat \<Rightarrow> InnerIdx \<Rightarrow> manager_t \<Rightarrow> counters_t \<Rightarrow> io \<Rightarrow> counters_t \<times> io" where
  "reset_counters E 0 i m cs s = (cs, s)"
| "reset_counters E (Suc n) i m cs s = (case manager_get_client i m of
      None \<Rightarrow> reset_counters E n (i + 1) m cs
        (mn_LOG_E E 701 ''main'' (''Manager: Wrong client num '' @ dec_int i) s)
    | Some c \<Rightarrow>
        (let (cs, s) = counterReset c cs s in reset_counters E n (i + 1) m cs s))"

definition do_send :: "env \<Rightarrow> module_t \<Rightarrow> io \<Rightarrow> module_t \<times> io" where
  "do_send E m s =
     (let s = log_debug E ''Send data'' s;
          p = poll m;
          (data, s) = set_mqtt_dynamic_fields E (mqtt_data p) s;
          (r, buf, s) = send_data E (mq m) data (mqtt_data_count m) s;
          (cs, s) = (if r = 0 then reset_counters E (nat (clientsCount m)) 0 (mgr p) (cnt p) s
                     else (cnt p, mn_LOG_E E 710 ''main'' ''MQTT: Send error'' s))
      in (set_state PROCESS (m\<lparr>send_buf := buf, poll := p\<lparr>mqtt_data := data, cnt := cs\<rparr>\<rparr>), s))"

definition clear_flag :: "RefreshRate \<Rightarrow> timer_t \<Rightarrow> timer_t" where
  "clear_flag r t = (case r of
      RR_100ms \<Rightarrow> t\<lparr>t_period := (t_period t)\<lparr>period_100ms := False\<rparr>\<rparr>
    | RR_1s \<Rightarrow> t\<lparr>t_period := (t_period t)\<lparr>period_1s := False\<rparr>\<rparr>
    | RR_1m \<Rightarrow> t\<lparr>t_period := (t_period t)\<lparr>period_1m := False\<rparr>\<rparr>)"

text \<open>
  One phase of the loop.  A period block tests its flag and surveys its clients in one phase and
  clears the flag in the next, so that ticks may arrive in between; no other code reads or writes
  what the signal handler changes.  \<open>None\<close> is a survey that does not end.
\<close>

definition at_switch :: "env \<Rightarrow> config_t \<Rightarrow> module_t \<Rightarrow> io \<Rightarrow> (pc \<times> module_t \<times> io) option" where
  "at_switch E cfg m s =
     (let st = ds_state (dev_status m) in
      if st = INIT_SYS then (let (m, s) = do_init E cfg m s in Some (At_switch, m, s))
      else if st = PROCESS then
        (if period_100ms (t_period (tm m)) then
           (case survey_rate E RR_100ms 500 m s of None \<Rightarrow> None | Some (m, s) \<Rightarrow> Some (Clear_100ms, m, s))
         else Some (At_1m, m, s))
      else if st = SEND_DATA then (let (m, s) = do_send E m s in Some (At_switch, m, s))
      else Some (At_switch, m, emit (Sys (C_usleep 100)) s))"

definition main_step :: "env \<Rightarrow> config_t \<Rightarrow> pc \<Rightarrow> module_t \<Rightarrow> io \<Rightarrow> (pc \<times> module_t \<times> io) option" where
  "main_step E cfg k m s = (case k of
      At_switch \<Rightarrow> at_switch E cfg m s
    | Clear_100ms \<Rightarrow> Some (At_1m, m\<lparr>tm := clear_flag RR_100ms (tm m)\<rparr>, s)
    | At_1m \<Rightarrow>
        (if period_1m (t_period (tm m)) then
           (let (m, s) = count_minute E m s in
            case survey_rate E RR_1m 570 m s of None \<Rightarrow> None | Some (m, s) \<Rightarrow> Some (Clear_1m, m, s))
         else Some (At_1s, m, s))
    | Clear_1m \<Rightarrow> Some (At_1s, m\<lparr>tm := clear_flag RR_1m (tm m)\<rparr>, s)
    | At_1s \<Rightarrow>
        (if period_1s (t_period (tm m)) then
           (case survey_rate E RR_1s 632 m s of None \<Rightarrow> None | Some (m, s) \<Rightarrow> Some (Clear_1s, m, s))
         else Some (At_switch, m, s))
    | Clear_1s \<Rightarrow> Some (At_switch, m\<lparr>tm := clear_flag RR_1s (tm m)\<rparr>, s))"

section \<open>Start\<close>

definition LOG_FILE_NAME :: string where
  "LOG_FILE_NAME = ''/etc/ts_module/ts_module_log.txt''"

text \<open>
  The state \<^verbatim>\<open>main\<close> begins with: zeroed globals, \<^verbatim>\<open>mqtt_data\<close> zeroed, and locals without an
  initialiser whose values \<open>junk\<close> (data, countdown, count) may be anything.
\<close>

definition module_start :: "ClientData \<times> int \<times> int \<Rightarrow> module_t" where
  "module_start junk = \<lparr>
     dev_status = \<lparr>ds_state = INIT_SYS, ds_timer = False, ds_mqtt = False, ds_manager = False\<rparr>,
     tm = timer0, mq = mqtt0, qu = queue0,
     poll = \<lparr>mgr = manager0, cnt = counters0, clientData = fst junk,
             mqtt_data = replicate mqtt_slots t_data_zero\<rparr>,
     send_buf = [], power_on_time = 0, mqtt_data_count = 0,
     sendDataMin = fst (snd junk), clientsCount = snd (snd junk)\<rparr>"

text \<open>What happens before the loop; \<open>None\<close> is \<^verbatim>\<open>EXIT_FAILURE\<close>.\<close>

definition main_start :: "env \<Rightarrow> string option \<Rightarrow> ClientData \<times> int \<times> int \<Rightarrow> io \<Rightarrow> module_t option \<times> io" where
  "main_start E arg junk s =
     (let s = emit (Stdio (C_stdout ([CHR 0x0D, NL] @ ''Start'' @ [CHR 0x0D, NL]))) s;
          (ok, s) = logger_init E LOG_FILE_NAME s;
          s = log_info E (NL # replicate 50 (CHR ''*'')) s;
          cfg_file = (case arg of None \<Rightarrow> ''/etc/ts_module/ts_module.cfg'' | Some a \<Rightarrow> a);
          (r, s) = ext E (Sys (C_config_read_file cfg_file)) s
      in if r = 0 then
           (let (t, s) = ext_str E (Sys (C_config_read_file cfg_file)) s
            in (None, mn_LOG_E E 382 ''main'' t s))
         else
           (let (t, s) = time_c E s in (Some ((module_start junk)\<lparr>power_on_time := t\<rparr>), s)))"

section \<open>Stop\<close>

text \<open>What stands after the endless loop: connections closed, a last message, the logger's files left as they are.\<close>

definition main_stop :: "env \<Rightarrow> module_t \<Rightarrow> io \<Rightarrow> module_t \<times> io" where
  "main_stop E m s =
     (let (mg, s) = manager_close_all_connections (mgr (poll m)) s;
          s = log_info E ''ts_owrt_module stopped'' s
      in (m\<lparr>poll := (poll m)\<lparr>mgr := mg\<rparr>\<rparr>, logger_deinit s))"

end
