(* ===== verification/TsMessage.thy ===== *)
theory TsMessage
  imports TsMain
begin

text \<open>
  What happens to a client's value on its way into the message: the unit conversion, the member
  that is written for it and the sending of the finished text.  A member is read back with a small
  parser of its own, so that what a receiver sees is compared with what the client delivered.
\<close>

section \<open>Unit conversion\<close>

lemma sint_mul_fits:
  "fits_int (sint a * int k) \<Longrightarrow> k < 2 ^ 31 \<Longrightarrow> sint (a * word_of_nat k :: int32) = sint a * int k"
  by (simp add: fits_int_def sint_word_ariths signed_take_bit_int_eq_self signed_of_nat)

text \<open>
  C28. The conversion of an \<^verbatim>\<open>int\<close> client multiplies its value by the factor of the client's
  \<^verbatim>\<open>computation\<close>; it is free of undefined behaviour exactly when the product fits an \<^verbatim>\<open>int\<close>, which for
  \<^verbatim>\<open>mul_60000000\<close> leaves the values from -35 to 35.
\<close>

theorem client_computation_int:
  assumes "cd_dataType cd = MDT_INT" and "client_computation E c cd s = (ok, cd', s')"
  shows "ok \<and> cd_dataType cd' = MDT_INT
    \<and> (fault s' = None \<longleftrightarrow> fault s = None \<and> fits_int (sint (data_int cd) * int (comp_factor (computation c))))
    \<and> (fault s' = None \<longrightarrow> sint (data_int cd') = sint (data_int cd) * int (comp_factor (computation c)))
    \<and> (computation c = LCT_MUL_60000000 \<longrightarrow>
         (fault s' = None \<longleftrightarrow> fault s = None \<and> \<bar>sint (data_int cd)\<bar> \<le> 35))"
proof -
  let ?k = "comp_factor (computation c)"
  have k: "?k < 2 ^ 31" by (cases "computation c") simp_all
  have one: "fits_int (sint (data_int cd) * 1)"
    using sint32_bounds [of "data_int cd"] by (simp add: fits_int_def)
  have "computation c = LCT_MUL_60000000 \<Longrightarrow>
      fits_int (sint (data_int cd) * int ?k) \<longleftrightarrow> \<bar>sint (data_int cd)\<bar> \<le> 35"
    by (auto simp: fits_int_def)
  then show ?thesis
    using assms one sint_mul_fits [OF _ k, of "data_int cd"]
    by (auto simp: client_computation_def Let_def split: if_splits)
qed

definition hours :: ClientSettings where
  "hours = ClientSettings_zero\<lparr>cs_dataType := MDT_INT, computation := LCT_MUL_60000000\<rparr>"

theorem client_computation_int_witness:
  "fault (snd (snd (client_computation quiet_env hours
      (ClientData_zero\<lparr>cd_dataType := MDT_INT, data_int := 36\<rparr>) (io0 (\<lambda>_. None))))) \<noteq> None"
proof -
  obtain ok cd s where run: "client_computation quiet_env hours
      (ClientData_zero\<lparr>cd_dataType := MDT_INT, data_int := 36\<rparr>) (io0 (\<lambda>_. None)) = (ok, cd, s)"
    by (metis prod_cases3)
  show ?thesis unfolding run using client_computation_int [OF _ run]
    by (simp add: hours_def fits_int_def)
qed

section \<open>Reading a member back\<close>

definition digit_value :: "char \<Rightarrow> nat" where
  "digit_value c = of_char c - 48"

definition read_nat :: "string \<Rightarrow> nat" where
  "read_nat t = fold (\<lambda>c n. 10 * n + digit_value c) t 0"

fun read_int :: "string \<Rightarrow> int" where
  "read_int [] = 0"
| "read_int (c # t) = (if c = CHR ''-'' then - int (read_nat t) else int (read_nat (c # t)))"

lemma digit_value_char: "d < 10 \<Longrightarrow> digit_value (digit_char d) = d"
  by (auto simp: digit_value_def digit_char_def less_Suc_eq numeral_eq_Suc)

lemma read_dec_nat: "read_nat (dec_nat n) = n"
proof (induction n rule: dec_nat.induct)
  case (1 n)
  show ?case
  proof (cases "n < 10")
    case True
    then show ?thesis by (subst dec_nat.simps) (simp add: read_nat_def digit_value_char)
  next
    case False
    with 1 have "read_nat (dec_nat (n div 10)) = n div 10" by simp
    with False show ?thesis by (subst dec_nat.simps) (simp add: read_nat_def digit_value_char)
  qed
qed

lemma read_digits: "t \<noteq> [] \<Longrightarrow> CHR ''-'' \<notin> set t \<Longrightarrow> read_int t = int (read_nat t)"
  by (cases t) auto

lemma read_dec_int: "read_int (dec_int i) = i"
proof (cases "i < 0")
  case True
  then show ?thesis by (simp add: dec_int_def read_dec_nat)
next
  case False
  have "CHR ''-'' \<notin> set (dec_nat (nat i))" using dec_nat_digits [of "nat i"] by auto
  with False show ?thesis by (simp add: dec_int_def read_digits read_dec_nat)
qed

text \<open>The name between the first two quotation marks, and the number behind the colon.\<close>

definition read_member :: "string \<Rightarrow> string \<times> int" where
  "read_member t =
     (let rest = tl t
      in (takeWhile (\<lambda>c. c \<noteq> CHR 0x22) rest, read_int (drop 2 (dropWhile (\<lambda>c. c \<noteq> CHR 0x22) rest))))"

lemma read_member_item:
  assumes "CHR 0x22 \<notin> set name"
  shows "read_member (QUOTE @ name @ QUOTE @ '':'' @ t) = (name, read_int t)"
proof -
  have "dropWhile (\<lambda>c. c \<noteq> CHR 0x22) (name @ CHR 0x22 # CHR '':'' # t) = CHR 0x22 # CHR '':'' # t"
    using assms by (subst dropWhile_append2) auto
  with assms show ?thesis by (simp add: read_member_def QUOTE_def Let_def takeWhile_tail takeWhile_id)
qed

text \<open>The number a client has delivered, for the types that are written as one.\<close>

fun delivered :: "ClientData \<Rightarrow> int" where
  "delivered cd = (case cd_dataType cd of
      MDT_BOOL \<Rightarrow> of_bool (data_bool cd)
    | MDT_INT \<Rightarrow> sint (data_int cd)
    | MDT_DWORD \<Rightarrow> uint (data_dword cd)
    | MDT_TIME \<Rightarrow> sint (data_time cd)
    | MDT_ENUM \<Rightarrow> sint (data_enum cd)
    | _ \<Rightarrow> 0)"

declare delivered.simps [simp del]

lemma sint_zero_extend: "sint (ucast (w :: DWORD) :: long64) = uint w"
proof -
  have w: "0 \<le> uint w" "uint w < 2 ^ 32" "(2 ^ 32 :: int) < 2 ^ 63" "- (2 ^ 63) < (0 :: int)"
    using uint_lt2p [of w] by simp_all
  then have "signed_take_bit 63 (uint w) = uint w" by (intro signed_take_bit_int_eq_self) linarith+
  with w show ?thesis by (simp add: sint_uint unsigned_ucast_eq take_bit_int_eq_self)
qed

lemma sint_sign_extend: "sint (scast (w :: int32) :: long64) = sint w"
  by (simp add: sint_up_scast is_up_def source_size_def target_size_def word_size)

lemma read_one_digit: "read_int ''1'' = 1" "read_int ''0'' = 0"
  and read_one_nat: "read_nat ''1'' = 1" "read_nat ''0'' = 0"
  by (simp_all add: read_nat_def digit_value_def)

text \<open>The record alone that \<^verbatim>\<open>client_to_mqtt\<close> fills, without its messages.\<close>

definition client_record :: "ClientSettings \<Rightarrow> ClientData \<Rightarrow> t_data \<Rightarrow> t_data" where
  "client_record c cd d = (let d = d\<lparr>td_alias := cs_name c\<rparr> in
     case cd_dataType cd of
       MDT_INT \<Rightarrow> (set_type TS_INT d)\<lparr>i_data := data_int cd\<rparr>
     | MDT_BOOL \<Rightarrow> (set_type TS_BOOL d)\<lparr>b_data := data_bool cd\<rparr>
     | MDT_DWORD \<Rightarrow> (set_type TS_LINT d)\<lparr>l_data := ucast (data_dword cd)\<rparr>
     | MDT_DOUBLE \<Rightarrow> (set_type TS_DOUBLE d)\<lparr>d_data := data_double cd\<rparr>
     | MDT_TIME \<Rightarrow> (set_type TS_LINT d)\<lparr>l_data := data_time cd\<rparr>
     | MDT_ENUM \<Rightarrow> (set_type TS_LINT d)\<lparr>l_data := scast (data_enum cd)\<rparr>
     | MDT_CHAR \<Rightarrow> (set_type TS_CHAR d)\<lparr>ch_data := strncpy_c (data_char cd) MAX_OPC_STR_LEN\<rparr>)"

lemma client_to_mqtt_record:
  "fst (client_to_mqtt E c cd d s)" "fst (snd (client_to_mqtt E c cd d s)) = client_record c cd d"
  by (simp_all add: client_to_mqtt_def client_record_def Let_def split_beta split: DataType.splits)

lemma client_record_member:
  assumes "cd_dataType cd \<notin> {MDT_DOUBLE, MDT_CHAR}" and "CHR 0x22 \<notin> set (str_or_null (cs_name c))"
  shows "json_typed (client_record c cd d)
    \<and> read_member (json_item (client_record c cd d)) = (str_or_null (cs_name c), delivered cd)"
proof -
  let ?n = "str_or_null (cs_name c)"
  have "\<exists>t. json_field (client_record c cd d) = Some (QUOTE @ ?n @ QUOTE @ '':'' @ t @ '','') \<and> read_int t = delivered cd"
    using assms(1)
    by (cases "cd_dataType cd")
      (auto simp: client_record_def json_field_def set_type_def delivered.simps fmt_d_def read_dec_int Let_def
        TS_BOOL_def TS_INT_def TS_LINT_def TS_DOUBLE_def TS_CHAR_def sint_zero_extend sint_sign_extend
        read_one_nat)
  then show ?thesis
    using read_member_item [OF assms(2)] by (auto simp: json_typed_def json_item_def butlast_append)
qed



section \<open>Sending\<close>

definition level :: "io \<Rightarrow> int" where
  "level s = max_log_level (log_global_set s)"

lemma level_prim [simp]:
  "level (emit c s) = level s" "level (ub k s) = level s" "level (ub_if b k s) = level s"
  "level (stdout_line m s) = level s" "level (archive_error m s) = level s"
  "level (print_to_syslog l m s) = level s" "level (snd (fopen E p md s)) = level s"
  "level (set_log (\<lambda>l. l\<lparr>out_file := f\<rparr>) s) = level s" "level (s\<lparr>stringCounter := n\<rparr>) = level s"
  "level (log_generic E l m s) = level s"
  by (simp_all add: level_def)

lemma level_archive [simp]:
  "level (snd (archive_dir E d s)) = level s" "level (snd (archive_open E z s)) = level s"
  "level (snd (archive_copy E t s)) = level s" "level (snd (archive_reopen E z f s)) = level s"
  by (simp_all add: archive_dir_def archive_open_def archive_reopen_def Let_def split_beta split: option.splits)
    (induction t s rule: archive_copy_induct, simp_all add: archive_copy_Nil archive_copy_step)

lemma level_write [simp]: "level (snd (archive_write E z f s)) = level s"
  by (simp add: archive_write_def Let_def split_beta)

lemma level_into [simp]: "level (snd (archive_into E z f s)) = level s"
  by (simp add: archive_into_def Let_def split_beta)

lemma level_logger_archive [simp]: "level (snd (logger_archive E s)) = level s"
  by (simp add: logger_archive_def Let_def split_beta split: option.splits)

lemma level_count [simp]: "level (count_and_archive E s) = level s"
  by (simp add: count_and_archive_def Let_def split_beta)

lemma level_log_info [simp]: "level (log_info E m s) = level s"
  by (simp add: log_info_def)

lemma json_loop_sel [simp]:
  "dev_calls (snd (snd (json_loop E n ds buf s))) = dev_calls s"
  "logFileFullName (snd (snd (json_loop E n ds buf s))) = logFileFullName s"
  "level (snd (snd (json_loop E n ds buf s))) = level s"
  by (induction ds arbitrary: buf s) (auto simp: Let_def split: option.splits)

lemma get_json_sel [simp]:
  "dev_calls (snd (snd (get_json E n data k s))) = dev_calls s"
  "logFileFullName (snd (snd (get_json E n data k s))) = logFileFullName s"
  "level (snd (snd (get_json E n data k s))) = level s"
  by (simp_all add: get_json_def)

text \<open>
  C25. \<^verbatim>\<open>send_data\<close> publishes whatever \<^verbatim>\<open>get_json\<close> has left in the buffer, a truncated text
  included, since its answer is not looked at; and before that it writes the buffer through the
  logger, which overflows its 256 characters for every message that is not shorter.
\<close>

theorem send_data_publishes_buffer:
  assumes "log_name_fits (logFileFullName s)"
  shows "case send_data E m data k s of (r, buf, s') \<Rightarrow>
     buf = fst (snd (get_json E MAX_BUF data k s))
     \<and> dev_calls s' = Mosq (C_mosquitto_publish (mosq m) (pMqttTopic m) buf) # dev_calls s
     \<and> (fault s' = None \<longrightarrow>
          level s < LOG_MAX_LEVEL_ERROR_WARNING_MESSAGE \<or> length buf < 256)"
proof -
  obtain r buf s1 where j: "get_json E MAX_BUF data k s = (r, buf, s1)" by (metis prod_cases3)
  have s1: "dev_calls s1 = dev_calls s" "logFileFullName s1 = logFileFullName s"
    "level s1 = level s"
    using get_json_sel [of E MAX_BUF data k s] by (simp_all add: j)
  have l: "fault (log_info E buf s1) = None \<longrightarrow>
      level s < LOG_MAX_LEVEL_ERROR_WARNING_MESSAGE \<or> length buf < 256"
    using log_info_fault [of s1 E buf] assms s1 by (auto simp: level_def)
  show ?thesis
    using l s1 by (simp add: send_data_def j mqtt_send_def printf_c_def Let_def split_beta ext_def)
qed

definition noisy :: io where
  "noisy = (io0 (\<lambda>_. None))\<lparr>logFileFullName := ''/etc/ts_module/ts_module_log.txt'',
     log_global_set := \<lparr>max_log_level = 1, use_stdout = False, out_file = None,
       logger_func = Some Print_to_syslog\<rparr>\<rparr>"

lemma noisy_name: "log_name_fits (logFileFullName noisy)"
  by (simp add: noisy_def log_name_fits_def LOG_FILE_NAME_MAX_LEN_def dir_part_def base_name_def)

theorem send_data_publishes_buffer_witness:
  "LOG_MAX_LEVEL_ERROR_WARNING_MESSAGE \<le> level noisy
   \<and> fault (snd (snd (send_data quiet_env mqtt0 [long_text] 1 noisy))) \<noteq> None"
proof -
  obtain r buf s where run: "send_data quiet_env mqtt0 [long_text] 1 noisy = (r, buf, s)" by (metis prod_cases3)
  obtain t where "json_field long_text = Some t" "length t = 495" using long_text_field by blast
  then have "length (fst (snd (get_json quiet_env MAX_BUF [long_text] 1 noisy))) = 496"
    by (simp add: get_json_def Let_def)
  moreover have "LOG_MAX_LEVEL_ERROR_WARNING_MESSAGE \<le> level noisy"
    by (simp add: level_def noisy_def LOG_MAX_LEVEL_ERROR_WARNING_MESSAGE_def)
  ultimately show ?thesis
    using send_data_publishes_buffer [OF noisy_name, where E = quiet_env and m = mqtt0
        and data = "[long_text]" and k = 1]
    by (auto simp: run simp del: not_None_eq)
qed

end
