(* ===== verification/TsPoll.thy ===== *)
theory TsPoll
  imports TsMessage
begin

text \<open>
  The clients of the table as the main loop sees them: polling one client leaves the others alone,
  the survey of a refresh rate touches the clients of that rate only, and initialisation fills the
  queue from the table so that the two agree.
\<close>

section \<open>Polling touches one client\<close>

lemma json_typed_iff: "json_typed d \<longleftrightarrow> td_type d \<in> {TS_BOOL, TS_INT, TS_LINT, TS_DOUBLE, TS_CHAR}"
  by (simp add: json_typed_def json_field_def Let_def)

definition slot :: "InnerIdx \<Rightarrow> nat" where
  "slot i = SF_CLIENT_POS + nat i"

definition poll_wf :: "poll_t \<Rightarrow> bool" where
  "poll_wf p \<longleftrightarrow> table_wf (mgr p) \<and> length (cnt p) = MAX_CLIENT_NUM \<and> length (mqtt_data p) = mqtt_slots"

text \<open>
  What an operation on client \<open>i\<close> may change: connection states, the client's counter, the
  client's member (which keeps a known type) and the scratch data.
\<close>

definition touches :: "InnerIdx \<Rightarrow> poll_t \<Rightarrow> poll_t \<Rightarrow> bool" where
  "touches i p p' \<longleftrightarrow> same_table (mgr p) (mgr p') \<and> length (cnt p') = length (cnt p)
     \<and> length (mqtt_data p') = length (mqtt_data p)
     \<and> (\<forall>j. 0 \<le> j \<and> j \<noteq> i \<longrightarrow> info (cnt p') j = info (cnt p) j)
     \<and> (\<forall>k. k \<noteq> slot i \<longrightarrow> mqtt_data p' ! k = mqtt_data p ! k)
     \<and> (json_typed (mqtt_data p ! slot i) \<longrightarrow> json_typed (mqtt_data p' ! slot i))"

lemma touches_refl [simp]: "touches i p p"
  by (simp add: touches_def)

lemma touches_trans [trans]: "touches i p p' \<Longrightarrow> touches i p' p'' \<Longrightarrow> touches i p p''"
  unfolding touches_def using same_table_trans [of "mgr p" "mgr p'" "mgr p''"] by simp

lemma touches_data [simp]: "touches i p (p\<lparr>clientData := cd\<rparr>)"
  by (simp add: touches_def)

lemma touches_wf: "touches i p p' \<Longrightarrow> poll_wf p \<Longrightarrow> poll_wf p'"
  unfolding touches_def poll_wf_def using same_table_wf by metis

lemma touches_range: "touches i p p' \<Longrightarrow> in_range (mgr p') j = in_range (mgr p) j"
  using same_table_range by (auto simp: touches_def)

lemma poll_wf_client:
  "poll_wf p \<Longrightarrow> in_range (mgr p) i \<Longrightarrow> innerIdx (client (mgr p) i) = i"
  using table_wf_client by (simp add: poll_wf_def)

lemma touches_update_stage:
  assumes "poll_wf p" and "in_range (mgr p) i" and "update_stage E n i p s = (p', s')"
  shows "touches i p p'"
proof -
  have i: "innerIdx (client (mgr p) i) = i" "0 \<le> i"
    using poll_wf_client [OF assms(1,2)] assms(2) by (simp_all add: in_range_def)
  obtain ok cs s1 where u: "counterUpdate E (client (mgr p) i) (clientData p) (cnt p) s = (ok, cs, s1)"
    by (metis prod_cases3)
  then have "cs = cnt p \<or> (\<exists>ci. cs = (cnt p)[nat i := ci])"
    using i(1) by (auto simp: counterUpdate_def Let_def split: if_splits prod.splits)
  with assms(3) u i(2) show ?thesis
    by (auto simp: update_stage_def touches_def info_update_other)
qed

lemma touches_get_stage: "get_stage E n i p s = (p', s') \<Longrightarrow> touches i p p'"
  by (auto simp: get_stage_def Let_def split: prod.splits)

lemma touches_computation_stage: "computation_stage E n i p s = (p', s') \<Longrightarrow> touches i p p'"
  by (auto simp: computation_stage_def Let_def split: prod.splits)

lemma client_record_typed: "json_typed (client_record c cd d)"
  by (simp add: json_typed_iff client_record_def Let_def set_type_def split: DataType.splits)

lemma slot_inside: "poll_wf p \<Longrightarrow> in_range (mgr p) i \<Longrightarrow> slot i < length (mqtt_data p)"
  by (auto simp: poll_wf_def table_wf_def sized_def in_range_def slot_def mqtt_slots_def MAX_CLIENT_NUM_def)

lemma convert_stage_result:
  assumes "poll_wf p" and "in_range (mgr p) i" and "convert_stage E n i p s = (ok, p', s')"
  shows "touches i p p'" and "json_typed (mqtt_data p' ! slot i)" and "ok"
proof -
  have i: "innerIdx (client (mgr p) i) = i" "0 \<le> i"
    using poll_wf_client [OF assms(1,2)] assms(2) by (simp_all add: in_range_def)
  have k: "nat (int SF_CLIENT_POS + i) = slot i" using i(2) by (simp add: slot_def nat_add_distrib)
  obtain d where p': "p' = p\<lparr>mqtt_data := (mqtt_data p)[slot i := client_record (client (mgr p) i) (clientData p) d]\<rparr>"
    and ok
    using assms(3) client_to_mqtt_record
    unfolding convert_stage_def Let_def i(1) k
    by (auto simp: split_beta)
  show "touches i p p'" "json_typed (mqtt_data p' ! slot i)" "ok"
    using \<open>ok\<close> slot_inside [OF assms(1,2)] by (simp_all add: p' touches_def client_record_typed)
qed

lemma poll_receive_result:
  assumes "poll_wf p" and "in_range (mgr p) i" and "poll_receive E i p s = (ok, p', s')"
  shows "touches i p p'"
proof -
  have i: "innerIdx (client (mgr p) i) = i" using assms(1,2) by (rule poll_wf_client)
  obtain cd m s1 s2 where r: "manager_receive_data E i (clientData p) (mgr p) s1 = (ok, cd, m, s2)"
    and p': "p' = p\<lparr>mgr := m, clientData := cd\<rparr>"
    using assms(3) unfolding poll_receive_def Let_def i by (auto split: prod.splits)
  have "same_table (mgr p) m"
    using receive_data_result [OF _ assms(2) r] assms(1) by (simp add: poll_wf_def)
  then show ?thesis by (simp add: p' touches_def)
qed

text \<open>The stages in sequence; the member has a known type at their end.\<close>

lemma poll_received_result:
  assumes "poll_wf p" and "in_range (mgr p) i" and "poll_received E l i p s = (p', s')"
  shows "touches i p p'" and "json_typed (mqtt_data p' ! slot i)"
proof -
  obtain p1 s1 where 1: "update_stage E (l + 11) i p s = (p1, s1)" by (metis surj_pair)
  obtain p2 s2 where 2: "get_stage E (l + 15) i p1 s1 = (p2, s2)" by (metis surj_pair)
  obtain p3 s3 where 3: "computation_stage E (l + 19) i p2 s2 = (p3, s3)" by (metis surj_pair)
  obtain ok p4 s4 where 4: "convert_stage E (l + 24) i p3 s3 = (ok, p4, s4)" by (metis prod_cases3)
  have p': "p' = p4" using assms(3) by (simp add: poll_received_def 1 2 3 4)
  have "touches i p p1" using assms(1,2) 1 by (rule touches_update_stage)
  also have "touches i p1 p2" using 2 by (rule touches_get_stage)
  also have "touches i p2 p3" using 3 by (rule touches_computation_stage)
  finally have t: "touches i p p3" .
  have w: "poll_wf p3" "in_range (mgr p3) i"
    using touches_wf [OF t assms(1)] touches_range [OF t] assms(2) by simp_all
  show "touches i p p'" "json_typed (mqtt_data p' ! slot i)"
    using touches_trans [OF t] convert_stage_result [OF w 4] by (simp_all add: p')
qed

lemma poll_missing_result:
  assumes "poll_wf p" and "in_range (mgr p) i" and "poll_missing E i p s = (p', s')"
  shows "touches i p p'" and "json_typed (mqtt_data p' ! slot i)"
proof -
  let ?p = "p\<lparr>clientData := ClientData_zero\<lparr>cd_dataType := cs_dataType (client (mgr p) i)\<rparr>\<rparr>"
  obtain p1 s1 where 1: "update_stage E 452 i ?p s = (p1, s1)" by (metis surj_pair)
  obtain p2 s2 where 2: "get_stage E 456 i p1 s1 = (p2, s2)" by (metis surj_pair)
  obtain ok p3 s3 where 3: "convert_stage E 461 i p2 s2 = (ok, p3, s3)" by (metis prod_cases3)
  have p': "p' = p3" using assms(3) by (simp add: poll_missing_def Let_def 1 2 3)
  have "touches i p ?p" by simp
  also have "touches i ?p p1" using assms(1,2) 1 by (intro touches_update_stage) (simp_all add: poll_wf_def)
  also have "touches i p1 p2" using 2 by (rule touches_get_stage)
  finally have t: "touches i p p2" .
  have w: "poll_wf p2" "in_range (mgr p2) i"
    using touches_wf [OF t assms(1)] touches_range [OF t] assms(2) by simp_all
  show "touches i p p'" "json_typed (mqtt_data p' ! slot i)"
    using touches_trans [OF t] convert_stage_result [OF w 3] by (simp_all add: p')
qed

lemma get_client_in_range:
  "manager_get_client i m = (if in_range m i then Some (client m i) else None)"
  by (auto simp: manager_get_client_def in_range_def)

lemma poll_client_result:
  assumes "poll_wf p" and "poll_client E l i (p, s) = (p', s')"
  shows "touches i p p'"
proof (cases "in_range (mgr p) i")
  case True
  obtain ok p1 s1 where r: "poll_receive E i p s = (ok, p1, s1)" by (metis prod_cases3)
  have t: "touches i p p1" using assms(1) True r by (rule poll_receive_result)
  have w: "poll_wf p1" "in_range (mgr p1) i"
    using touches_wf [OF t assms(1)] touches_range [OF t] True by simp_all
  show ?thesis
    using assms(2) True t touches_trans [OF t] poll_received_result(1) [OF w]
    by (auto simp: poll_client_def get_client_in_range r split: if_splits)
next
  case False
  with assms(2) show ?thesis by (simp add: poll_client_def get_client_in_range)
qed

lemma poll_first_result:
  assumes "poll_wf p" and "in_range (mgr p) i" and "poll_client_first E i (p, s) = (p', s')"
  shows "touches i p p'" and "json_typed (mqtt_data p' ! slot i)"
proof -
  obtain ok p1 s1 where r: "poll_receive E i p s = (ok, p1, s1)" by (metis prod_cases3)
  have t: "touches i p p1" using assms(1,2) r by (rule poll_receive_result)
  have w: "poll_wf p1" "in_range (mgr p1) i"
    using touches_wf [OF t assms(1)] touches_range [OF t] assms(2) by simp_all
  show "touches i p p'" "json_typed (mqtt_data p' ! slot i)"
    using assms(2,3) touches_trans [OF t] poll_received_result [OF w] poll_missing_result [OF w]
    by (auto simp: poll_client_first_def get_client_in_range r split: if_splits)
qed

section \<open>A survey touches the clients of its rate\<close>

definition touches_all :: "InnerIdx set \<Rightarrow> poll_t \<Rightarrow> poll_t \<Rightarrow> bool" where
  "touches_all I p p' \<longleftrightarrow> same_table (mgr p) (mgr p') \<and> length (cnt p') = length (cnt p)
     \<and> length (mqtt_data p') = length (mqtt_data p)
     \<and> (\<forall>j. 0 \<le> j \<and> j \<notin> I \<longrightarrow> info (cnt p') j = info (cnt p) j)
     \<and> (\<forall>k. k \<notin> slot ` I \<longrightarrow> mqtt_data p' ! k = mqtt_data p ! k)
     \<and> (\<forall>k. json_typed (mqtt_data p ! k) \<longrightarrow> json_typed (mqtt_data p' ! k))"

lemma touches_all_refl [simp]: "touches_all I p p"
  by (simp add: touches_all_def)

lemma touches_into: "touches i p p' \<Longrightarrow> i \<in> I \<Longrightarrow> touches_all I p p'"
  unfolding touches_def touches_all_def by (metis imageI)

lemma touches_all_trans [trans]: "touches_all I p p' \<Longrightarrow> touches_all I p' p'' \<Longrightarrow> touches_all I p p''"
  unfolding touches_all_def using same_table_trans [of "mgr p" "mgr p'" "mgr p''"] by simp

lemma touches_all_wf: "touches_all I p p' \<Longrightarrow> poll_wf p \<Longrightarrow> poll_wf p'"
  unfolding touches_all_def poll_wf_def using same_table_wf by metis

lemma touches_all_range: "touches_all I p p' \<Longrightarrow> in_range (mgr p') j = in_range (mgr p) j"
  using same_table_range by (auto simp: touches_all_def)

lemma poll_fold_result:
  "poll_wf (fst x) \<Longrightarrow> set is \<subseteq> I \<Longrightarrow> touches_all I (fst x) (fst (fold (poll_client E l) is x))"
proof (induction "is" arbitrary: x)
  case (Cons i js)
  obtain p s where x: "x = (p, s)" by (cases x)
  obtain p1 s1 where r: "poll_client E l i (p, s) = (p1, s1)" by (metis surj_pair)
  have t: "touches i p p1" using Cons.prems(1) r by (intro poll_client_result) (simp_all add: x)
  then have ta: "touches_all I p p1" using Cons.prems(2) by (auto intro: touches_into)
  have "poll_wf p1" using touches_wf [OF t] Cons.prems(1) by (simp add: x)
  then have "touches_all I p1 (fst (fold (poll_client E l) js (p1, s1)))"
    using Cons.IH [of "(p1, s1)"] Cons.prems(2) by simp
  with ta show ?case using touches_all_trans by (simp add: x r)
qed simp

lemma first_fold_result:
  "poll_wf (fst x) \<Longrightarrow> (\<forall>i \<in> set is. in_range (mgr (fst x)) i) \<Longrightarrow> set is \<subseteq> I \<Longrightarrow>
     touches_all I (fst x) (fst (fold (poll_client_first E) is x))
     \<and> (\<forall>i \<in> set is. json_typed (mqtt_data (fst (fold (poll_client_first E) is x)) ! slot i))"
proof (induction "is" arbitrary: x)
  case (Cons i js)
  obtain p s where x: "x = (p, s)" by (cases x)
  obtain p1 s1 where r: "poll_client_first E i (p, s) = (p1, s1)" by (metis surj_pair)
  have wf: "poll_wf p" and i: "in_range (mgr p) i" using Cons.prems(1,2) by (simp_all add: x)
  have t: "touches i p p1" "json_typed (mqtt_data p1 ! slot i)" using poll_first_result [OF wf i r] by simp_all
  then have ta: "touches_all I p p1" using Cons.prems(3) by (auto intro: touches_into)
  have "poll_wf p1" using touches_wf [OF t(1) wf] .
  moreover have "\<forall>j \<in> set js. in_range (mgr p1) j"
    using Cons.prems(2) touches_range [OF t(1)] by (simp add: x)
  ultimately have rest: "touches_all I p1 (fst (fold (poll_client_first E) js (p1, s1)))"
    "\<forall>j \<in> set js. json_typed (mqtt_data (fst (fold (poll_client_first E) js (p1, s1))) ! slot j)"
    using Cons.IH [of "(p1, s1)"] Cons.prems(3) by simp_all
  moreover have "json_typed (mqtt_data (fst (fold (poll_client_first E) js (p1, s1))) ! slot i)"
    using t(2) rest(1) by (simp add: touches_all_def)
  ultimately show ?case using touches_all_trans [OF ta] by (simp add: x r)
qed simp

lemma survey_rate_result:
  assumes "poll_wf (poll m)" and "queue_wf (qu m)"
  shows "\<exists>q' p' s'. survey_rate E r l m s = Some (m\<lparr>qu := q', poll := p'\<rparr>, s')
     \<and> (p', s') = fold (poll_client E l) (clients_at r (qu m)) (poll m, s)
     \<and> queue_wf q' \<and> (\<forall>r'. clients_at r' q' = clients_at r' (qu m))
     \<and> touches_all (set (clients_at r (qu m))) (poll m) p'"
proof -
  obtain q' where q: "survey (queueGetFirst r) (queueGetNext r) (poll_client E l) (qu m) (poll m, s)
      = Some (q', fold (poll_client E l) (clients_at r (qu m)) (poll m, s))"
    "queue_wf q'" "(\<lambda>r'. clients_at r' q') = (\<lambda>r'. clients_at r' (qu m))"
    using rate.survey_visits_all [OF assms(2)] by blast
  obtain p' s' where f: "fold (poll_client E l) (clients_at r (qu m)) (poll m, s) = (p', s')" by (metis surj_pair)
  have "touches_all (set (clients_at r (qu m))) (poll m) p'"
    using poll_fold_result [of "(poll m, s)" "clients_at r (qu m)" _ E l] assms(1) by (simp add: f)
  then show ?thesis using q fun_cong [OF q(3)] by (auto simp: survey_rate_def f)
qed

text \<open>The clients of a rate by the table, and the state in which the queue agrees with it.\<close>

definition clients_of :: "RefreshRate \<Rightarrow> manager_t \<Rightarrow> InnerIdx list" where
  "clients_of r m = filter (\<lambda>i. refreshRate (client m i) = r) [0..clientsCnt m - 1]"

definition ready :: "module_t \<Rightarrow> bool" where
  "ready m \<longleftrightarrow> poll_wf (poll m) \<and> queue_wf (qu m)
     \<and> (\<forall>r. clients_at r (qu m) = clients_of r (mgr (poll m)))"

lemma clients_of_same:
  assumes "same_table m m'" and "sized m"
  shows "clients_of r m' = clients_of r m"
proof -
  have "clientsCnt m' = clientsCnt m" using assms(1) by (simp add: same_table_def)
  then show ?thesis
    unfolding clients_of_def using same_table_fields(3) [OF assms]
    by (intro filter_cong) (simp_all add: in_range_def)
qed

lemma set_clients_of: "set (clients_of r m) = {i. in_range m i \<and> refreshRate (client m i) = r}"
  by (auto simp: clients_of_def in_range_def)

lemma poll_wf_sized: "poll_wf p \<Longrightarrow> sized (mgr p)"
  by (simp add: poll_wf_def table_wf_sized)

lemma slot_eq_iff: "0 \<le> i \<Longrightarrow> 0 \<le> j \<Longrightarrow> slot i = slot j \<longleftrightarrow> i = j"
  by (auto simp: slot_def)

lemma survey_ready:
  assumes "ready m"
  shows "\<exists>q' p' s'. survey_rate E r l m s = Some (m\<lparr>qu := q', poll := p'\<rparr>, s')
     \<and> ready (m\<lparr>qu := q', poll := p'\<rparr>) \<and> touches_all (set (clients_of r (mgr (poll m)))) (poll m) p'"
proof -
  have w: "poll_wf (poll m)" "queue_wf (qu m)" "\<forall>r. clients_at r (qu m) = clients_of r (mgr (poll m))"
    using assms by (simp_all add: ready_def)
  obtain q' p' s' where r: "survey_rate E r l m s = Some (m\<lparr>qu := q', poll := p'\<rparr>, s')"
    "queue_wf q'" "\<forall>r'. clients_at r' q' = clients_at r' (qu m)"
    "touches_all (set (clients_at r (qu m))) (poll m) p'"
    using survey_rate_result [OF w(1,2)] by blast
  have "same_table (mgr (poll m)) (mgr p')" using r(4) by (simp add: touches_all_def)
  then have "clients_of r' (mgr p') = clients_of r' (mgr (poll m))" for r'
    using poll_wf_sized [OF w(1)] by (rule clients_of_same)
  then have "ready (m\<lparr>qu := q', poll := p'\<rparr>)"
    using r(2,3) w(3) touches_all_wf [OF r(4) w(1)] by (simp add: ready_def)
  then show ?thesis using r(1,4) w(3) by auto
qed

text \<open>
  C20. When the queue agrees with the table, the survey of a refresh rate ends and they still
  agree; and whatever the clients and the network answer, the counter and the message member of
  every client of another rate are what they were.
\<close>

theorem survey_isolates_rates:
  assumes "ready m"
  shows "\<exists>m' s'. survey_rate E r l m s = Some (m', s') \<and> ready m'
     \<and> (\<forall>j. in_range (mgr (poll m)) j \<and> refreshRate (client (mgr (poll m)) j) \<noteq> r \<longrightarrow>
          info (cnt (poll m')) j = info (cnt (poll m)) j
          \<and> mqtt_data (poll m') ! slot j = mqtt_data (poll m) ! slot j)"
proof -
  let ?I = "set (clients_of r (mgr (poll m)))"
  obtain q' p' s' where run: "survey_rate E r l m s = Some (m\<lparr>qu := q', poll := p'\<rparr>, s')"
    and ok: "ready (m\<lparr>qu := q', poll := p'\<rparr>)" and t: "touches_all ?I (poll m) p'"
    using survey_ready [OF assms] by blast
  have "info (cnt p') j = info (cnt (poll m)) j \<and> mqtt_data p' ! slot j = mqtt_data (poll m) ! slot j"
    if "in_range (mgr (poll m)) j" "refreshRate (client (mgr (poll m)) j) \<noteq> r" for j
  proof -
    have "0 \<le> j" "j \<notin> ?I" "slot j \<notin> slot ` ?I"
      using that slot_eq_iff by (auto simp: set_clients_of in_range_def)
    with t show ?thesis by (simp add: touches_all_def)
  qed
  with run ok show ?thesis by auto
qed

definition plc_module :: module_t where
  "plc_module = (module_start (ClientData_zero, 0, 0))
     \<lparr>qu := (queueCleen queue0)\<lparr>rate_100ms := 0 # replicate 49 (-1)\<rparr>,
      poll := poll (module_start (ClientData_zero, 0, 0))\<lparr>mgr := one_plc\<rparr>\<rparr>"

lemma plc_module_ready: "ready plc_module"
proof -
  have "clientsCnt one_plc = 1" "refreshRate (client one_plc 0) = RR_100ms"
    by (simp_all add: one_plc_client) (simp_all add: one_plc_def ClientSettings_zero_def)
  then have c: "clients_of r one_plc = (if r = RR_100ms then [0] else [])" for r
    by (auto simp: clients_of_def upto.simps)
  have q: "clients_at r (qu plc_module) = (if r = RR_100ms then [0] else [])" "queue_wf (qu plc_module)" for r
    by (simp_all add: plc_module_def clients_at_def cells_def queueCleen_def queue_wf_def rpos_def
        MAX_CLIENT_NUM_def split: RefreshRate.splits)
  show ?thesis
    using c q one_plc_wf by (simp add: ready_def poll_wf_def plc_module_def module_start_def counters0_def)
qed

theorem survey_isolates_rates_witness:
  "\<exists>m' s'. survey_rate quiet_env RR_1s 632 plc_module (io0 (\<lambda>_. None)) = Some (m', s')
     \<and> mqtt_data (poll m') ! slot 0 = mqtt_data (poll plc_module) ! slot 0"
proof -
  have m: "mgr (poll plc_module) = one_plc" by (simp add: plc_module_def)
  have "in_range (mgr (poll plc_module)) 0" "refreshRate (client (mgr (poll plc_module)) 0) \<noteq> RR_1s"
    unfolding m by (simp_all add: one_plc_range one_plc_client ClientSettings_zero_def)
  then show ?thesis using survey_isolates_rates [OF plc_module_ready] by meson
qed

section \<open>Initialisation fills the queue from the table\<close>

text \<open>The entry \<^verbatim>\<open>counterAdd\<close> leaves for a client.\<close>

definition registered :: "ClientSettings \<Rightarrow> CounterInfo \<Rightarrow> CounterInfo" where
  "registered c ci = (let ci = ci\<lparr>pClient := Some (innerIdx c)\<rparr> in
     if counter c = CT_CUMUL then ci\<lparr>cumulatedCounter := -1\<rparr> else ci)"

lemma counterAdd_result:
  assumes "has_counter (innerIdx c)" and "length cs = MAX_CLIENT_NUM"
  shows "snd (counterAdd c cs s) = s" "length (fst (counterAdd c cs s)) = MAX_CLIENT_NUM"
    and "0 \<le> j \<Longrightarrow> info (fst (counterAdd c cs s)) j
       = (if j = innerIdx c then registered c (info cs j) else info cs j)"
  using assms info_update_other [of "innerIdx c" j] by (auto simp: counterAdd_def registered_def Let_def has_counter_def)

definition queued :: "int \<Rightarrow> manager_t \<Rightarrow> ClientQueue \<Rightarrow> bool" where
  "queued i m q \<longleftrightarrow> queue_wf q \<and> (\<forall>r. clients_at r q = filter (\<lambda>j. refreshRate (client m j) = r) [0..i - 1])"

lemma queued_add:
  assumes "queued i m q" and "0 \<le> i" and "i < int MAX_CLIENT_NUM"
  shows "\<exists>q'. queueAdd E (refreshRate (client m i)) i q s = (True, q', s) \<and> queued (i + 1) m q'"
proof -
  let ?r = "refreshRate (client m i)"
  have q: "queue_wf q" "\<And>r. clients_at r q = filter (\<lambda>j. refreshRate (client m j) = r) [0..i - 1]"
    using assms(1) by (simp_all add: queued_def)
  have "length (clients_at ?r q) \<le> nat i" unfolding q(2) using length_filter_le [of _ "[0..i - 1]"] by (simp add: le_trans)
  then have room: "length (clients_at ?r q) < MAX_CLIENT_NUM" using assms(2,3) by linarith
  have i: "i \<noteq> -1" using assms(2) by simp
  obtain ok q' s' where run: "queueAdd E ?r i q s = (ok, q', s')" by (metis prod_cases3)
  note r = queueAdd_result [OF q(1) i run]
  have ok: ok using r(1) room by simp
  have "[0..i] = [0..i - 1] @ [i]" using assms(2) by (simp add: upto_rec2)
  then have "queued (i + 1) m q'" using r(3,4) ok q(2) by (auto simp: queued_def)
  with run ok r(2) show ?thesis by auto
qed

lemma init_queue_result:
  assumes "table_wf m"
  shows "queued i m q \<Longrightarrow> 0 \<le> i \<Longrightarrow> i \<le> clientsCnt m \<Longrightarrow> int n + i = int MAX_CLIENT_NUM \<Longrightarrow>
     length cs = MAX_CLIENT_NUM \<Longrightarrow>
     \<exists>q' cs'. init_queue E n i m q cs s = (0, q', cs', s) \<and> queued (clientsCnt m) m q'
       \<and> length cs' = MAX_CLIENT_NUM
       \<and> (\<forall>j. 0 \<le> j \<longrightarrow> info cs' j = (if i \<le> j \<and> j < clientsCnt m then registered (client m j) (info cs j)
            else info cs j))"
proof (induction n arbitrary: i q cs)
  case 0
  have "clientsCnt m \<le> int MAX_CLIENT_NUM" using assms by (simp add: table_wf_def sized_def)
  with 0 show ?case by (auto intro!: exI [of _ q] exI [of _ cs])
next
  case (Suc n)
  show ?case
  proof (cases "i < clientsCnt m")
    case False
    with Suc.prems show ?thesis by (auto simp: get_client_in_range in_range_def)
  next
    case True
    let ?c = "client m i"
    have r: "in_range m i" using Suc.prems(2) True by (simp add: in_range_def)
    then have c: "innerIdx ?c = i" "has_counter i"
      using table_wf_client [OF assms r] Suc.prems(2,4) by (simp_all add: has_counter_def)
    obtain q1 where q1: "queueAdd E (refreshRate ?c) i q s = (True, q1, s)" "queued (i + 1) m q1"
      using queued_add [OF Suc.prems(1,2), of E s] c(2) by (auto simp: has_counter_def)
    have hc: "has_counter (innerIdx ?c)" using c by simp
    note a = counterAdd_result [OF hc Suc.prems(5), where s = s]
    obtain cs1 where cs1: "counterAdd ?c cs s = (cs1, s)" using a(1) by (metis surj_pair snd_conv)
    have len: "length cs1 = MAX_CLIENT_NUM" using a(2) by (simp add: cs1)
    have "i + 1 \<le> clientsCnt m" "0 \<le> i + 1" "int n + (i + 1) = int MAX_CLIENT_NUM"
      using True Suc.prems(2,4) by simp_all
    then obtain q' cs' where rest: "init_queue E n (i + 1) m q1 cs1 s = (0, q', cs', s)"
      "queued (clientsCnt m) m q'" "length cs' = MAX_CLIENT_NUM"
      and inf: "\<forall>j. 0 \<le> j \<longrightarrow> info cs' j = (if i + 1 \<le> j \<and> j < clientsCnt m
          then registered (client m j) (info cs1 j) else info cs1 j)"
      using Suc.IH [OF q1(2) _ _ _ len] by blast
    have "info cs' j = (if i \<le> j \<and> j < clientsCnt m then registered (client m j) (info cs j) else info cs j)"
      if "0 \<le> j" for j
      using inf [rule_format, OF that] a(3) [OF that] True by (auto simp: cs1 c(1))
    moreover have "init_queue E (Suc n) i m q cs s = (0, q', cs', s)"
      using r q1(1) rest(1) by (simp add: get_client_in_range c(1) cs1)
    ultimately show ?thesis using rest(2,3) by blast
  qed
qed

lemma queued_Cleen: "queued 0 m (queueCleen q)"
  by (simp add: queued_def)

lemma queued_all: "queued (clientsCnt m) m q \<longleftrightarrow> queue_wf q \<and> (\<forall>r. clients_at r q = clients_of r m)"
  by (simp add: queued_def clients_of_def)

text \<open>The run of the loop from a cleaned queue.\<close>

lemma init_queue_run:
  assumes "table_wf m" and "length cs = MAX_CLIENT_NUM"
  shows "\<exists>q' cs'. init_queue E MAX_CLIENT_NUM 0 m (queueCleen q) cs s = (0, q', cs', s)
     \<and> queue_wf q' \<and> (\<forall>r. clients_at r q' = clients_of r m) \<and> length cs' = MAX_CLIENT_NUM
     \<and> (\<forall>j. 0 \<le> j \<longrightarrow> info cs' j = (if in_range m j then registered (client m j) (info cs j) else info cs j))"
  using init_queue_result [OF assms(1) queued_Cleen [where q = q], where n = MAX_CLIENT_NUM and cs = cs and E = E and s = s] assms table_wf_def queued_all
  by (auto simp: in_range_def)

text \<open>
  C21. For every well-formed table the initialisation of the queue succeeds without a message and
  without a fault: each refresh rate gets exactly its clients, in the order of the configuration,
  and every client (no other entry) gets its counter registered, a cumulated one marked with -1.
\<close>

theorem init_queue_complete:
  assumes "table_wf m" and "length cs = MAX_CLIENT_NUM"
  shows "case init_queue E MAX_CLIENT_NUM 0 m (queueCleen q) cs s of (r, q', cs', s') \<Rightarrow>
     r = 0 \<and> s' = s \<and> queue_wf q' \<and> (\<forall>rate. clients_at rate q' = clients_of rate m)
     \<and> (\<forall>j. 0 \<le> j \<longrightarrow> info cs' j = (if in_range m j then registered (client m j) (info cs j) else info cs j))"
  using init_queue_run [OF assms, where E = E and q = q and s = s] by auto

theorem init_queue_complete_witness:
  "case init_queue quiet_env MAX_CLIENT_NUM 0 one_plc (queueCleen queue0) counters0 (io0 (\<lambda>_. None)) of (r, q', cs', s') \<Rightarrow>
     r = 0 \<and> clients_at RR_100ms q' = clients_of RR_100ms one_plc \<and> pClient (info cs' 0) = Some 0"
  using init_queue_complete [OF one_plc_wf, where cs = counters0 and E = quiet_env and q = queue0
      and s = "io0 (\<lambda>_. None)"]
  by (auto simp: counters0_def one_plc_range one_plc_client registered_def Let_def ClientSettings_zero_def)

end
