(* ===== verification/TsModule.thy ===== *)
theory TsModule
  imports TsPoll
begin

text \<open>
  The module as a transition system: a step is one phase of the main loop or the timer signal,
  which can arrive between any two phases once the timer is armed.  The invariant of the reachable
  states says when the parts are up, that the queue agrees with the table, and that every record
  that will be sent has a type the renderer knows.
\<close>

section \<open>Initialisation keeps the arrays at their sizes\<close>

lemma init_clients_length:
  "init_clients E cfg cc oconf n i m s = (ok, m', s') \<Longrightarrow> length (clientSettings m') = length (clientSettings m)"
proof (induction n arbitrary: i m s)
  case (Suc n)
  then show ?case by (fastforce simp: Let_def split: prod.splits if_splits)
qed simp

lemma init_config_length:
  "manager_init_config E cfg m s = (ok, m', s') \<Longrightarrow> length (clientSettings m') = length (clientSettings m)"
  unfolding manager_init_config_def read_clients_def Let_def
  by (auto dest!: init_clients_length read_common_sel split: prod.splits if_splits option.splits)

section \<open>The invariant\<close>

definition sizes :: "module_t \<Rightarrow> bool" where
  "sizes m \<longleftrightarrow> length (clientSettings (mgr (poll m))) = MAX_CLIENT_NUM + 1
     \<and> length (cnt (poll m)) = MAX_CLIENT_NUM \<and> length (mqtt_data (poll m)) = mqtt_slots"

text \<open>What each flag of the device status stands for.\<close>

definition flags_ok :: "module_t \<Rightarrow> bool" where
  "flags_ok m \<longleftrightarrow> (ds_manager (dev_status m) \<longrightarrow> ready m)
     \<and> (ds_mqtt (dev_status m) \<longrightarrow> mosq (mq m) \<noteq> None)
     \<and> (ds_timer (dev_status m) \<longrightarrow> itimer_armed (tm m) \<and> handler_installed (tm m))"

text \<open>The message is set up: one typed record for each fixed member and each client.\<close>

definition message_ok :: "module_t \<Rightarrow> bool" where
  "message_ok m \<longleftrightarrow> clientsCount m = clientsCnt (mgr (poll m))
     \<and> mqtt_data_count m = int SF_CLIENT_POS + clientsCount m
     \<and> (\<forall>k < nat (mqtt_data_count m). json_typed (mqtt_data (poll m) ! k))"

definition module_inv :: "pc \<Rightarrow> module_t \<Rightarrow> bool" where
  "module_inv k m \<longleftrightarrow> timer_wf (tm m) \<and> sizes m \<and> flags_ok m
     \<and> ds_state (dev_status m) \<in> {INIT_SYS, PROCESS, SEND_DATA}
     \<and> (k \<noteq> At_switch \<longrightarrow> ds_state (dev_status m) \<noteq> INIT_SYS)
     \<and> (ds_state (dev_status m) \<noteq> INIT_SYS \<longrightarrow> all_up (dev_status m) \<and> message_ok m)"

lemmas module_states = INIT_SYS_def PROCESS_def SEND_DATA_def

lemma ready_sizes: "ready m \<Longrightarrow> sizes m"
  by (simp add: ready_def poll_wf_def table_wf_def sized_def sizes_def)

lemma ready_update [simp]:
  "ready (m\<lparr>mq := q\<rparr>) = ready m" "ready (m\<lparr>tm := t\<rparr>) = ready m" "ready (m\<lparr>dev_status := d\<rparr>) = ready m"
  "ready (m\<lparr>send_buf := b\<rparr>) = ready m" "ready (m\<lparr>sendDataMin := k\<rparr>) = ready m"
  "ready (m\<lparr>clientsCount := k\<rparr>) = ready m" "ready (m\<lparr>mqtt_data_count := k\<rparr>) = ready m"
  by (simp_all add: ready_def)

lemma sizes_update [simp]:
  "sizes (m\<lparr>mq := q\<rparr>) = sizes m" "sizes (m\<lparr>tm := t\<rparr>) = sizes m" "sizes (m\<lparr>dev_status := d\<rparr>) = sizes m"
  "sizes (m\<lparr>send_buf := b\<rparr>) = sizes m" "sizes (m\<lparr>sendDataMin := k\<rparr>) = sizes m"
  "sizes (m\<lparr>clientsCount := k\<rparr>) = sizes m" "sizes (m\<lparr>mqtt_data_count := k\<rparr>) = sizes m" "sizes (m\<lparr>qu := q'\<rparr>) = sizes m"
  by (simp_all add: sizes_def)

section \<open>Initialisation keeps it\<close>

text \<open>The part of the invariant that holds while the module initialises.\<close>

definition init_inv :: "module_t \<Rightarrow> bool" where
  "init_inv m \<longleftrightarrow> timer_wf (tm m) \<and> sizes m \<and> flags_ok m \<and> ds_state (dev_status m) = INIT_SYS"

lemma mqtt_init_handle: "mqtt_init E cfg q s = (0, q', s') \<Longrightarrow> mosq q' \<noteq> None"
  by (auto simp: mqtt_init_def Let_def split: prod.splits option.splits)

lemma init_mqtt_inv: "init_inv m \<Longrightarrow> init_mqtt E cfg m s = (m', s') \<Longrightarrow> init_inv m'"
  using mqtt_init_handle
  by (fastforce simp: init_mqtt_def init_inv_def flags_ok_def Let_def split: prod.splits if_splits)

lemma timer_wf_update [simp]:
  "timer_wf (fst (snd (timer_stop E t s))) = timer_wf t" "timer_wf (fst (snd (timer_start E n t s))) = timer_wf t"
  "timer_wf (fst (timer_init t s)) = timer_wf t"
  by (simp_all add: timer_wf_def)

lemma timer_start_armed:
  "timer_start E TIMER_100mc t s = (0, t', s') \<Longrightarrow> itimer_armed t' \<and> handler_installed t' = handler_installed t"
  by (auto simp: timer_start_def Let_def TIMER_100mc_def split: prod.splits)

lemma init_timer_inv:
  assumes "init_inv m" and "init_timer E m s = (m', s')"
  shows "init_inv m'"
proof (cases "\<not> ds_timer (dev_status m) \<and> ds_manager (dev_status m) \<and> ds_mqtt (dev_status m)")
  case True
  let ?t = "fst (timer_init (tm m) s)" and ?s = "snd (timer_init (tm m) s)"
  obtain r t1 s1 where t1: "timer_start E TIMER_100mc ?t ?s = (r, t1, s1)" by (metis prod_cases3)
  have w: "timer_wf t1" using timer_wf_update(2) [of E TIMER_100mc ?t ?s] assms(1) t1 by (simp add: init_inv_def)
  have "handler_installed ?t" by (simp add: timer_init_def)
  then have "r = 0 \<Longrightarrow> itimer_armed t1 \<and> handler_installed t1" using timer_start_armed t1 by simp
  with assms True w t1 show ?thesis
    by (auto simp: init_timer_def init_inv_def flags_ok_def Let_def split_beta split: if_splits)
next
  case False
  with assms show ?thesis by (auto simp: init_timer_def)
qed

lemma init_manager_ready:
  assumes "sizes m" and "\<forall>n. 0 \<le> config_setting_length cfg n"
    and "manager_init_config E cfg (mgr (poll m)) s = (True, mg, s1)"
    and "manager_init_connections E mg s1 = (ok, mg', s2)"
  shows "\<exists>q cs. init_queue E MAX_CLIENT_NUM 0 mg' (queueCleen (qu m)) (cnt (poll m)) s3 = (0, q, cs, s3)
     \<and> ready (m\<lparr>poll := (poll m)\<lparr>mgr := mg', cnt := cs\<rparr>, qu := q\<rparr>)"
proof -
  have sz: "length (clientSettings (mgr (poll m))) = MAX_CLIENT_NUM + 1" "length (cnt (poll m)) = MAX_CLIENT_NUM"
    "length (mqtt_data (poll m)) = mqtt_slots" using assms(1) by (simp_all add: sizes_def)
  have wf: "table_wf mg" using sz(1) assms(2,3) by (rule init_config_table)
  then have "sized mg" "0 \<le> clientsCnt mg" by (simp_all add: table_wf_def)
  from init_connections_result [OF this, where E = E and s = s1] have "same_table mg mg'" by (simp add: assms(4))
  then have wf': "table_wf mg'" using wf by (rule same_table_wf)
  obtain q cs where "init_queue E MAX_CLIENT_NUM 0 mg' (queueCleen (qu m)) (cnt (poll m)) s3 = (0, q, cs, s3)"
    and "queue_wf q" "\<forall>r. clients_at r q = clients_of r mg'" "length cs = MAX_CLIENT_NUM"
    using init_queue_run [OF wf' sz(2), where E = E and q = "qu m" and s = s3] by blast
  with wf' sz(3) show ?thesis by (auto simp: ready_def poll_wf_def)
qed

lemma init_manager_inv:
  assumes "init_inv m" and "\<not> ds_manager (dev_status m)" and "\<forall>n. 0 \<le> config_setting_length cfg n"
    and "init_manager E cfg m s = (r, m', s')"
  shows "init_inv m'"
proof -
  have sz: "sizes m" using assms(1) by (simp add: init_inv_def)
  obtain ok mg s1 where c: "manager_init_config E cfg (mgr (poll m)) s = (ok, mg, s1)" by (metis prod_cases3)
  show ?thesis
  proof (cases ok)
    case False
    have "length (clientSettings mg) = length (clientSettings (mgr (poll m)))" using c by (rule init_config_length)
    with False assms(1,2,4) c show ?thesis
      by (auto simp: init_manager_def init_inv_def flags_ok_def sizes_def)
  next
    case True
    then have c': "manager_init_config E cfg (mgr (poll m)) s = (True, mg, s1)" using c by simp
    obtain ok' mg' s2 where n: "manager_init_connections E mg s1 = (ok', mg', s2)" by (metis prod_cases3)
    let ?s = "if \<not> ok' then mn_LOG_E E 77 ''init_sys'' ''Manager ERROR: Connection fail'' s2 else s2"
    obtain q cs where q: "init_queue E MAX_CLIENT_NUM 0 mg' (queueCleen (qu m)) (cnt (poll m)) ?s = (0, q, cs, ?s)"
      and r: "ready (m\<lparr>poll := (poll m)\<lparr>mgr := mg', cnt := cs\<rparr>, qu := q\<rparr>)"
      using init_manager_ready [OF sz assms(3) _ n, where s = s and ?s3.0 = ?s] c'
      by blast
    have m': "m' = (m\<lparr>poll := (poll m)\<lparr>mgr := mg', cnt := cs\<rparr>, qu := q\<rparr>)
        \<lparr>dev_status := (dev_status m)\<lparr>ds_manager := True\<rparr>\<rparr>"
      using assms(4) True
      by (simp only: init_manager_def Let_def c n prod.case q if_False not_not if_True refl) simp
    have "sizes m'" using ready_sizes [OF r] by (simp add: m')
    with assms(1) r show ?thesis by (simp add: m' init_inv_def flags_ok_def)
  qed
qed

text \<open>A whole pass: either still initialising, or everything is up and the state is \<^verbatim>\<open>PROCESS\<close>.\<close>

lemma init_sys_inv:
  assumes "init_inv m" and "\<forall>n. 0 \<le> config_setting_length cfg n" and "init_sys E cfg m s = (r, m', s')"
  shows "init_inv m' \<or> timer_wf (tm m') \<and> sizes m' \<and> flags_ok m' \<and> all_up (dev_status m')
     \<and> ds_state (dev_status m') = PROCESS"
proof -
  obtain r0 t s0 where t: "timer_stop E (tm m) s = (r0, t, s0)" by (metis prod_cases3)
  let ?m0 = "m\<lparr>tm := t, dev_status := (dev_status m)\<lparr>ds_timer := False\<rparr>\<rparr>"
  obtain m1 s1 where 1: "init_mqtt E cfg ?m0 s0 = (m1, s1)" by (metis surj_pair)
  let ?x = "if ds_manager (dev_status m1) then (0, m1, s1) else init_manager E cfg m1 s1"
  obtain r2 m2 s2 where 2: "?x = (r2, m2, s2)" by (metis prod_cases3)
  have "timer_wf t" using timer_wf_update(1) [of E "tm m" s] assms(1) by (simp add: t init_inv_def)
  then have "init_inv ?m0" using assms(1) by (simp add: init_inv_def flags_ok_def)
  then have i1: "init_inv m1" using 1 by (rule init_mqtt_inv)
  then have i2: "init_inv m2"
    using 2 init_manager_inv [OF i1 _ assms(2)] by (auto split: if_splits)
  have run: "init_sys E cfg m s = (if r2 \<noteq> 0 then (r2, m2, s2) else
      (let (m, s) = init_timer E m2 s2; (m, s) = init_finish E m s in (0, m, s)))"
    by (simp only: init_sys_def Let_def t prod.case 1 2)
  show ?thesis
  proof (cases "r2 = 0")
    case True
    obtain m3 s3 where 3: "init_timer E m2 s2 = (m3, s3)" by (metis surj_pair)
    have i3: "init_inv m3" using i2 3 by (rule init_timer_inv)
    then show ?thesis
      using assms(3) True
      by (auto simp: run 3 init_finish_def init_inv_def flags_ok_def all_up_def split: if_splits)
  next
    case False
    with assms(3) i2 show ?thesis by (simp add: run)
  qed
qed

section \<open>The first message\<close>

lemmas field_positions = SF_BAT_def SF_SIG_def SF_VER_def SF_TS_def SF_ID_def SF_EP_def SF_TYPE_def SF_LON_def
  SF_LAT_def SF_LOC_def SF_CLIENT_POS_def

lemma field_typed [simp]:
  "json_typed (int_field n i d)" "json_typed (lint_field n l d)" "json_typed (double_field n x d)"
  "json_typed (char_field n t d)"
  by (simp_all add: json_typed_iff int_field_def lint_field_def double_field_def char_field_def set_type_def)

lemma at_field_sel [simp]:
  "length (at_field i f data) = length data"
  "i < length data \<Longrightarrow> at_field i f data ! k = (if k = i then f (data ! i) else data ! k)"
  by (simp_all add: at_field_def nth_list_update)

lemma below_10: "(k :: nat) < 10 \<longleftrightarrow> k \<in> {0, 1, 2, 3, 4, 5, 6, 7, 8, 9}"
  by auto

lemma static_fields_result:
  assumes "length data = mqtt_slots"
  shows "length (set_mqtt_static_fields data) = mqtt_slots"
    and "k \<in> {SF_VER, SF_EP, SF_TYPE, SF_LON, SF_LAT, SF_LOC} \<or> json_typed (data ! k)
       \<Longrightarrow> json_typed (set_mqtt_static_fields data ! k)"
  using assms by (auto simp: set_mqtt_static_fields_def Let_def mqtt_slots_def field_positions)

lemma dynamic_fields_result:
  assumes "length data = mqtt_slots" and "set_mqtt_dynamic_fields E data s = (data', s')"
  shows "length data' = mqtt_slots"
    and "k \<in> {SF_BAT, SF_SIG, SF_TS, SF_ID} \<or> json_typed (data ! k) \<Longrightarrow> json_typed (data' ! k)"
  using assms by (auto simp: set_mqtt_dynamic_fields_def Let_def mqtt_slots_def field_positions split: prod.splits)

lemma all_fields_typed:
  assumes "length data = mqtt_slots"
    and "set_mqtt_dynamic_fields E (set_mqtt_static_fields data) s = (data', s')" and "k < SF_CLIENT_POS"
  shows "json_typed (data' ! k)"
proof -
  have len: "length (set_mqtt_static_fields data) = mqtt_slots" using assms(1) by (rule static_fields_result)
  have "k \<in> {SF_VER, SF_EP, SF_TYPE, SF_LON, SF_LAT, SF_LOC} \<or> k \<in> {SF_BAT, SF_SIG, SF_TS, SF_ID}"
    using assms(3) by (auto simp: field_positions below_10)
  then show ?thesis
    using dynamic_fields_result(2) [OF len assms(2), of k] static_fields_result(2) [OF assms(1), of k] by blast
qed

lemma ready_poll:
  assumes "ready m" and "touches_all I (poll m) p'"
  shows "ready (m\<lparr>poll := p'\<rparr>)"
proof -
  have "same_table (mgr (poll m)) (mgr p')" using assms(2) by (simp add: touches_all_def)
  moreover have "sized (mgr (poll m))" using assms(1) poll_wf_sized by (auto simp: ready_def)
  ultimately have "clients_of r (mgr p') = clients_of r (mgr (poll m))" for r by (rule clients_of_same)
  with assms touches_all_wf [OF assms(2)] show ?thesis by (simp add: ready_def)
qed

lemma start_up_inv:
  assumes "timer_wf (tm m)" "flags_ok m" "all_up (dev_status m)" and "start_up E m s = (m', s')"
  shows "module_inv At_switch m'"
proof -
  let ?p = "poll m" and ?n = "clientsCnt (mgr (poll m))"
  have r: "ready m" using assms(2,3) by (simp add: flags_ok_def all_up_def)
  then have w: "poll_wf ?p" and len: "length (mqtt_data ?p) = mqtt_slots" by (simp_all add: ready_def poll_wf_def)
  obtain k s1 where 1: "manager_get_send_interval E (mgr ?p) s = (k, s1)" by (metis surj_pair)
  obtain data s2 where 2: "set_mqtt_dynamic_fields E (set_mqtt_static_fields (mqtt_data ?p)) s1 = (data, s2)"
    by (metis surj_pair)
  let ?p1 = "?p\<lparr>mqtt_data := data\<rparr>"
  obtain p3 s3 where 3: "first_poll E ?n (?p1, s2) = (p3, s3)" by (metis surj_pair)
  have m': "m' = set_state SEND_DATA (m\<lparr>poll := p3, clientsCount := ?n, sendDataMin := k,
      mqtt_data_count := int SF_CLIENT_POS + ?n\<rparr>)"
    using assms(4) by (simp add: start_up_def manager_get_clients_count_def Let_def 1 2 3)
  have lenst: "length (set_mqtt_static_fields (mqtt_data ?p)) = mqtt_slots"
    using len by (rule static_fields_result)
  have w1: "poll_wf ?p1" using w dynamic_fields_result(1) [OF lenst 2] by (simp add: poll_wf_def)
  have r1: "ready (m\<lparr>poll := ?p1\<rparr>)" using r w1 by (simp add: ready_def)
  have inr: "\<forall>i \<in> set [0..?n - 1]. in_range (mgr ?p1) i" by (auto simp: in_range_def)
  have t: "touches_all UNIV ?p1 p3" "\<forall>i \<in> set [0..?n - 1]. json_typed (mqtt_data p3 ! slot i)"
    using first_fold_result [of "(?p1, s2)" "[0..?n - 1]" UNIV E] w1 inr 3 by (simp_all add: first_poll_def)
  have same: "clientsCnt (mgr p3) = ?n" using t(1) by (simp add: touches_all_def same_table_def)
  have typed: "json_typed (mqtt_data p3 ! k)" if k: "k < nat (int SF_CLIENT_POS + ?n)" for k
  proof (cases "k < SF_CLIENT_POS")
    case True
    then have "json_typed (data ! k)" using all_fields_typed [OF len 2] by simp
    with t(1) show ?thesis by (simp add: touches_all_def)
  next
    case False
    let ?i = "int k - int SF_CLIENT_POS"
    have "slot ?i = k" "?i \<in> set [0..?n - 1]" using False k by (auto simp: slot_def)
    with t(2) show ?thesis by metis
  qed
  have "ready (m\<lparr>poll := p3\<rparr>)" using ready_poll [OF r1, of UNIV p3] t(1) by simp
  then have "ready m'" by (simp add: m' set_state_def ready_def)
  moreover have "sizes m'" using ready_sizes [OF \<open>ready m'\<close>] .
  ultimately show ?thesis
    using assms(1-3) typed same
    by (simp add: module_inv_def m' set_state_def flags_ok_def all_up_def message_ok_def module_states)
qed

lemma do_init_inv:
  assumes "init_inv m" and "\<forall>n. 0 \<le> config_setting_length cfg n" and "do_init E cfg m s = (m', s')"
  shows "module_inv At_switch m'"
proof -
  obtain r m1 s1 where 1: "init_sys E cfg m s = (r, m1, s1)" by (metis prod_cases3)
  consider "init_inv m1" | "timer_wf (tm m1)" "flags_ok m1" "all_up (dev_status m1)" "ds_state (dev_status m1) = PROCESS"
    using init_sys_inv [OF assms(1,2) 1] by blast
  then show ?thesis
  proof cases
    case 1
    with assms(3) \<open>init_sys E cfg m s = (r, m1, s1)\<close> show ?thesis
      by (simp add: do_init_def init_inv_def module_inv_def)
  next
    case 2
    obtain m2 s2 where u: "start_up E m1 s1 = (m2, s2)" by (metis surj_pair)
    have "m' = m2" using assms(3) 2(4) 1 by (simp add: do_init_def u module_states)
    with start_up_inv [OF 2(1-3) u] show ?thesis by simp
  qed
qed

section \<open>Every phase keeps it\<close>

definition up :: "module_t \<Rightarrow> bool" where
  "up m \<longleftrightarrow> timer_wf (tm m) \<and> flags_ok m \<and> all_up (dev_status m) \<and> message_ok m
     \<and> ds_state (dev_status m) \<in> {PROCESS, SEND_DATA}"

lemma up_ready: "up m \<Longrightarrow> ready m"
  by (simp add: up_def flags_ok_def all_up_def)

lemma module_inv_split: "module_inv k m \<longleftrightarrow> k = At_switch \<and> init_inv m \<or> up m"
proof -
  have "up m \<Longrightarrow> sizes m" by (intro ready_sizes up_ready)
  then show ?thesis by (auto simp: module_inv_def init_inv_def up_def module_states)
qed

lemma survey_up:
  assumes "up m"
  shows "\<exists>m' s'. survey_rate E r l m s = Some (m', s') \<and> up m' \<and> dev_status m' = dev_status m"
proof -
  obtain q' p' s' where run: "survey_rate E r l m s = Some (m\<lparr>qu := q', poll := p'\<rparr>, s')"
    and ok: "ready (m\<lparr>qu := q', poll := p'\<rparr>)" and t: "touches_all (set (clients_of r (mgr (poll m)))) (poll m) p'"
    using survey_ready [OF up_ready [OF assms]] by blast
  have "clientsCnt (mgr p') = clientsCnt (mgr (poll m))" using t by (simp add: touches_all_def same_table_def)
  then have "up (m\<lparr>qu := q', poll := p'\<rparr>)"
    using assms ok t by (simp add: up_def flags_ok_def message_ok_def touches_all_def)
  with run show ?thesis by simp
qed

lemma count_minute_up: "up m \<Longrightarrow> count_minute E m s = (m', s') \<Longrightarrow> up m'"
  by (auto simp: count_minute_def up_def flags_ok_def message_ok_def set_state_def all_up_def Let_def
      module_states split: prod.splits if_splits)

lemma clear_flag_wf [simp]:
  "timer_wf (clear_flag r t) = timer_wf t" "itimer_armed (clear_flag r t) = itimer_armed t"
  "handler_installed (clear_flag r t) = handler_installed t"
  by (cases r; simp add: clear_flag_def timer_wf_def)+

lemma clear_up: "up m \<Longrightarrow> up (m\<lparr>tm := clear_flag r (tm m)\<rparr>)"
  by (simp add: up_def flags_ok_def message_ok_def)

lemma reset_counters_length: "length (fst (reset_counters E n i mg cs s)) = length cs"
  by (induction n arbitrary: i cs s)
    (auto simp: counterReset_def Let_def split: option.splits prod.splits)

lemma do_send_up:
  assumes "up m" and "do_send E m s = (m', s')"
  shows "up m' \<and> ds_state (dev_status m') = PROCESS"
proof -
  let ?p = "poll m"
  have r: "ready m" using assms(1) by (rule up_ready)
  then have len: "length (mqtt_data ?p) = mqtt_slots" "length (cnt ?p) = MAX_CLIENT_NUM"
    by (simp_all add: ready_def poll_wf_def)
  obtain data s1 where 1: "set_mqtt_dynamic_fields E (mqtt_data ?p) (log_debug E ''Send data'' s) = (data, s1)"
    by (metis surj_pair)
  obtain ok buf s2 where 2: "send_data E (mq m) data (mqtt_data_count m) s1 = (ok, buf, s2)" by (metis prod_cases3)
  obtain cs s3 where 3: "(if ok = 0 then reset_counters E (nat (clientsCount m)) 0 (mgr ?p) (cnt ?p) s2
      else (cnt ?p, mn_LOG_E E 710 ''main'' ''MQTT: Send error'' s2)) = (cs, s3)" by (metis surj_pair)
  have m': "m' = set_state PROCESS (m\<lparr>send_buf := buf, poll := ?p\<lparr>mqtt_data := data, cnt := cs\<rparr>\<rparr>)"
    using assms(2) by (simp only: do_send_def Let_def 1 2 3 prod.case) simp
  have "length cs = MAX_CLIENT_NUM"
    using 3 len(2) reset_counters_length [of E "nat (clientsCount m)" 0 "mgr ?p" "cnt ?p" s2]
    by (auto split: if_splits)
  moreover note d = dynamic_fields_result [OF len(1) 1]
  ultimately have "ready m'" using r by (simp add: m' set_state_def ready_def poll_wf_def)
  then show ?thesis
    using assms(1) d(2) by (simp add: m' set_state_def up_def flags_ok_def all_up_def message_ok_def)
qed

lemma main_step_inv:
  assumes "module_inv k m" and "\<forall>n. 0 \<le> config_setting_length cfg n"
  shows "\<exists>k' m' s'. main_step E cfg k m s = Some (k', m', s') \<and> module_inv k' m'"
proof -
  have poll_phase: "\<exists>k' m' s'. (case survey_rate E r l m1 s1 of None \<Rightarrow> None | Some (m, s) \<Rightarrow> Some (k1, m, s))
      = Some (k', m', s') \<and> module_inv k' m'" if "up m1" for r l m1 s1 k1
    using survey_up [OF that, of E r l s1] by (auto simp: module_inv_split)
  consider "k = At_switch" "init_inv m" | "up m" using assms(1) by (auto simp: module_inv_split)
  then show ?thesis
  proof cases
    case 1
    obtain m' s' where "do_init E cfg m s = (m', s')" by (metis surj_pair)
    with 1 do_init_inv [OF 1(2) assms(2)] show ?thesis
      by (auto simp: main_step_def at_switch_def init_inv_def)
  next
    case up: 2
    show ?thesis
    proof (cases k)
      case At_switch
      consider "ds_state (dev_status m) = PROCESS" | "ds_state (dev_status m) = SEND_DATA"
        using up by (auto simp: up_def)
      then show ?thesis
      proof cases
        case 1
        with up poll_phase [OF up] show ?thesis
          by (auto simp: At_switch main_step_def at_switch_def module_states module_inv_split)
      next
        case 2
        obtain m' s' where "do_send E m s = (m', s')" by (metis surj_pair)
        with 2 do_send_up [OF up] show ?thesis
          by (auto simp: At_switch main_step_def at_switch_def module_states module_inv_split)
      qed
    next
      case At_1m
      obtain m1 s1 where c: "count_minute E m s = (m1, s1)" by (metis surj_pair)
      have "up m1" using up c by (rule count_minute_up)
      from poll_phase [OF this] up show ?thesis
        by (auto simp: At_1m main_step_def c module_inv_split)
    next
      case At_1s
      from poll_phase [OF up] up show ?thesis by (auto simp: At_1s main_step_def module_inv_split)
    qed (use up clear_up [OF up] in \<open>auto simp: main_step_def module_inv_split\<close>)
  qed
qed

section \<open>Machines with an invariant\<close>

text \<open>
  What the properties of the module rest on: starting configurations are safe, steps keep them
  safe, and a safe configuration can always take a step of its own.
\<close>

locale safe_machine =
  fixes starts :: "'c \<Rightarrow> bool" and step :: "'c \<Rightarrow> 'c \<Rightarrow> bool" and safe :: "'c \<Rightarrow> bool"
  assumes start_safe: "starts c \<Longrightarrow> safe c"
    and step_safe: "safe c \<Longrightarrow> step c c' \<Longrightarrow> safe c'"
begin

lemma run_safe: "starts c \<Longrightarrow> rtranclp step c c' \<Longrightarrow> safe c'"
  by (rotate_tac 1, induction rule: rtranclp_induct) (blast intro: start_safe step_safe)+

end

locale live_machine = safe_machine starts step safe
  for starts :: "'c \<Rightarrow> bool" and step :: "'c \<Rightarrow> 'c \<Rightarrow> bool" and safe :: "'c \<Rightarrow> bool" +
  fixes move :: "'c \<Rightarrow> 'c option"
  assumes safe_move: "safe c \<Longrightarrow> \<exists>c'. move c = Some c' \<and> step c c'"
begin

lemma never_stuck:
  "starts c \<Longrightarrow> rtranclp step c c' \<Longrightarrow> \<exists>c''. move c' = Some c'' \<and> rtranclp step c c''"
  by (meson run_safe safe_move rtranclp.rtrancl_into_rtrancl)

lemma moves_forever: "safe c \<Longrightarrow> \<exists>c'. ((\<lambda>x. Option.bind x move) ^^ n) (Some c) = Some c' \<and> safe c'"
proof (induction n)
  case (Suc n)
  then obtain c1 where "((\<lambda>x. Option.bind x move) ^^ n) (Some c) = Some c1" "safe c1" by blast
  with safe_move [of c1] step_safe [of c1] show ?case by auto
qed simp

end

section \<open>The step relation\<close>

type_synonym config = "pc \<times> module_t \<times> io"

text \<open>The main loop takes a phase, or the signal arrives: only when the timer is armed and the handler set.\<close>

inductive module_step :: "env \<Rightarrow> config_t \<Rightarrow> config \<Rightarrow> config \<Rightarrow> bool" for E cfg where
  phase: "main_step E cfg k m s = Some c \<Longrightarrow> module_step E cfg (k, m, s) c"
| tick: "itimer_armed (tm m) \<Longrightarrow> handler_installed (tm m) \<Longrightarrow>
    module_step E cfg (k, m, s) (k, m\<lparr>tm := timer_handler_100ms (tm m)\<rparr>, s)"

inductive_cases module_stepE: "module_step E cfg (k, m, s) c"
inductive_simps module_step_iff: "module_step E cfg (k, m, s) c"

inductive reachable :: "env \<Rightarrow> config_t \<Rightarrow> config \<Rightarrow> bool" for E cfg where
  start: "main_start E arg junk (io0 fs) = (Some m, s) \<Longrightarrow> reachable E cfg (At_switch, m, s)"
| step: "reachable E cfg c \<Longrightarrow> module_step E cfg c c' \<Longrightarrow> reachable E cfg c'"

lemma start_inv: "main_start E arg junk s = (Some m, s') \<Longrightarrow> module_inv At_switch m"
  by (auto simp: main_start_def module_start_def module_inv_split init_inv_def timer_wf_def timer0_def TIMER_1M_def
      TIMER_1S_def sizes_def manager0_def counters0_def flags_ok_def Let_def split: prod.splits if_splits)

lemma handler_kept [simp]:
  "itimer_armed (timer_handler_100ms t) = itimer_armed t"
  "handler_installed (timer_handler_100ms t) = handler_installed t"
  by (simp_all add: timer_handler_100ms_def Let_def)

lemma tick_inv: "module_inv k m \<Longrightarrow> module_inv k (m\<lparr>tm := timer_handler_100ms (tm m)\<rparr>)"
  using handler_wf [of "tm m"] by (simp add: module_inv_def flags_ok_def message_ok_def)

text \<open>The signal needs the timer: before it is armed the main loop runs alone.\<close>

lemma no_tick_before_arming:
  "\<not> itimer_armed (tm m) \<Longrightarrow> module_step E cfg (k, m, s) c \<longleftrightarrow> main_step E cfg k m s = Some c"
  by (simp add: module_step_iff)

definition lengths_ok :: "config_t \<Rightarrow> bool" where
  "lengths_ok cfg \<longleftrightarrow> (\<forall>n. 0 \<le> config_setting_length cfg n)"

definition started :: "env \<Rightarrow> config_t \<Rightarrow> config \<Rightarrow> bool" where
  "started E cfg c \<longleftrightarrow> lengths_ok cfg
     \<and> (\<exists>arg junk fs. main_start E arg junk (io0 fs) = (Some (fst (snd c)), snd (snd c)) \<and> fst c = At_switch)"

definition safe_config :: "config_t \<Rightarrow> config \<Rightarrow> bool" where
  "safe_config cfg c \<longleftrightarrow> lengths_ok cfg \<and> module_inv (fst c) (fst (snd c))"

definition move :: "env \<Rightarrow> config_t \<Rightarrow> config \<Rightarrow> config option" where
  "move E cfg c = (case c of (k, m, s) \<Rightarrow> main_step E cfg k m s)"

interpretation main_loop: live_machine "started E cfg" "module_step E cfg" "safe_config cfg" "move E cfg"
proof
  fix c assume "started E cfg c"
  then show "safe_config cfg c" by (auto simp: started_def safe_config_def start_inv)
next
  fix c c' assume safe: "safe_config cfg c" and "module_step E cfg c c'"
  obtain k m s where c: "c = (k, m, s)" by (cases c)
  then have inv: "module_inv k m" and len: "\<forall>n. 0 \<le> config_setting_length cfg n"
    using safe by (simp_all add: safe_config_def lengths_ok_def)
  from \<open>module_step E cfg c c'\<close> have "module_inv (fst c') (fst (snd c'))"
    unfolding c
  proof (rule module_stepE)
    assume "main_step E cfg k m s = Some c'"
    with main_step_inv [OF inv len, of E s] show ?thesis by auto
  next
    assume "c' = (k, m\<lparr>tm := timer_handler_100ms (tm m)\<rparr>, s)"
    with inv show ?thesis by (simp add: tick_inv)
  qed
  with safe show "safe_config cfg c'" by (simp add: safe_config_def)
next
  fix c assume safe: "safe_config cfg c"
  obtain k m s where c: "c = (k, m, s)" by (cases c)
  then have "\<exists>c'. main_step E cfg k m s = Some c'"
    using safe main_step_inv [of k m cfg E s] by (auto simp: safe_config_def lengths_ok_def)
  then show "\<exists>c'. move E cfg c = Some c' \<and> module_step E cfg c c'"
    by (auto simp: c move_def intro: module_step.phase)
qed

lemma reachable_run:
  "reachable E cfg c \<Longrightarrow> lengths_ok cfg \<Longrightarrow> \<exists>c0. started E cfg c0 \<and> rtranclp (module_step E cfg) c0 c"
proof (induction rule: reachable.induct)
  case (start arg junk fs m s)
  then have "started E cfg (At_switch, m, s)" unfolding started_def fst_conv snd_conv by blast
  then show ?case by blast
next
  case (step c c')
  then show ?case by (blast intro: rtranclp.rtrancl_into_rtrancl)
qed

lemma reachable_inv:
  assumes "reachable E cfg c" and "\<forall>n. 0 \<le> config_setting_length cfg n"
  shows "module_inv (fst c) (fst (snd c))"
proof -
  obtain c0 where "started E cfg c0" "rtranclp (module_step E cfg) c0 c"
    using reachable_run [OF assms(1)] assms(2) unfolding lengths_ok_def by blast
  then have "safe_config cfg c" by (rule main_loop.run_safe)
  then show ?thesis by (simp add: safe_config_def)
qed

lemma reachable_moves:
  assumes "reachable E cfg (k, m, s)" and "\<forall>n. 0 \<le> config_setting_length cfg n"
  shows "\<exists>c. main_step E cfg k m s = Some c"
proof -
  obtain c0 where "started E cfg c0" "rtranclp (module_step E cfg) c0 (k, m, s)"
    using reachable_run [OF assms(1)] assms(2) unfolding lengths_ok_def by blast
  from main_loop.never_stuck [OF this] show ?thesis by (auto simp: move_def)
qed

end
