(* ===== verification/TsRun.thy ===== *)
theory TsRun
  imports TsModule
begin

text \<open>
  What the invariant of the module gives: it is never stuck, the parts it works with are up, the
  message has only known types, and the passes of the main loop do what the phases say together.
\<close>

section \<open>Safety\<close>

text \<open>
  C1. In every reachable state, ticks arriving between any two phases of the main loop included:
  the state is initialising, processing or sending; once it is not initialising, the MQTT client
  exists, the timer runs with its handler, the table is well-formed, the queue holds exactly the
  clients of the table by their rates, and the message has one record for each fixed member and
  each client, inside its array.
\<close>

theorem module_invariant:
  assumes "reachable E cfg (k, m, s)" and "\<forall>n. 0 \<le> config_setting_length cfg n"
  shows "ds_state (dev_status m) \<in> {INIT_SYS, PROCESS, SEND_DATA} \<and> timer_wf (tm m)
     \<and> (ds_state (dev_status m) \<noteq> INIT_SYS \<longrightarrow>
          mosq (mq m) \<noteq> None \<and> itimer_armed (tm m) \<and> handler_installed (tm m)
          \<and> table_wf (mgr (poll m)) \<and> (\<forall>r. clients_at r (qu m) = clients_of r (mgr (poll m)))
          \<and> mqtt_data_count m = int SF_CLIENT_POS + clientsCnt (mgr (poll m))
          \<and> mqtt_data_count m \<le> int (length (mqtt_data (poll m))))"
proof -
  have inv: "module_inv k m" using reachable_inv [OF assms] by simp
  have t: "timer_wf (tm m)" "ds_state (dev_status m) \<in> {INIT_SYS, PROCESS, SEND_DATA}"
    using inv by (simp_all add: module_inv_def)
  have u: "up m" if "ds_state (dev_status m) \<noteq> INIT_SYS"
    using inv that by (auto simp: module_inv_split init_inv_def)
  have "clientsCnt (mgr (poll m)) \<le> int MAX_CLIENT_NUM \<and> length (mqtt_data (poll m)) = mqtt_slots" if "up m"
    using up_ready [OF that] by (auto simp: ready_def poll_wf_def table_wf_def sized_def)
  with t u up_ready [of m] show ?thesis
    by (auto simp: up_def flags_ok_def all_up_def message_ok_def ready_def poll_wf_def mqtt_slots_def)
qed

lemma sample_start: "\<exists>m s. main_start quiet_env None (ClientData_zero, 0, 0) (io0 fs) = (Some m, s)"
  by (simp add: main_start_def Let_def split_beta)

lemma sample_length: "\<forall>n. 0 \<le> config_setting_length sample_cfg n"
  by (simp add: sample_cfg_def)

theorem module_invariant_witness:
  "\<exists>m s. reachable quiet_env sample_cfg (At_switch, m, s)
     \<and> ds_state (dev_status m) \<in> {INIT_SYS, PROCESS, SEND_DATA}"
proof -
  obtain m s where "main_start quiet_env None (ClientData_zero, 0, 0) (io0 (\<lambda>_. None)) = (Some m, s)"
    using sample_start by blast
  then have r: "reachable quiet_env sample_cfg (At_switch, m, s)" by (rule reachable.start)
  with module_invariant [OF r sample_length] show ?thesis by blast
qed

text \<open>
  C19. The main loop is never stuck: from every reachable state the next phase ends (no survey
  runs forever) and leads to a reachable state again.
\<close>

theorem module_never_stuck:
  assumes "reachable E cfg (k, m, s)" and "\<forall>n. 0 \<le> config_setting_length cfg n"
  shows "\<exists>c. main_step E cfg k m s = Some c \<and> reachable E cfg c"
proof -
  obtain c where "main_step E cfg k m s = Some c" using reachable_moves [OF assms] by blast
  with assms(1) show ?thesis by (blast intro: reachable.step module_step.phase)
qed

theorem module_never_stuck_witness:
  "\<exists>m s c. main_start quiet_env None (ClientData_zero, 0, 0) (io0 (\<lambda>_. None)) = (Some m, s)
     \<and> main_step quiet_env sample_cfg At_switch m s = Some c"
proof -
  obtain m s where i: "main_start quiet_env None (ClientData_zero, 0, 0) (io0 (\<lambda>_. None)) = (Some m, s)"
    using sample_start by blast
  then have r: "reachable quiet_env sample_cfg (At_switch, m, s)" by (rule reachable.start)
  with i module_never_stuck [OF r sample_length] show ?thesis by blast
qed

section \<open>Start-up completes\<close>

lemma init_sys_completes:
  assumes "init_inv m" and "\<forall>n. 0 \<le> config_setting_length cfg n"
    and "\<And>q t. fst (mqtt_init E cfg q t) = 0" and "\<And>t. fst (manager_init_config E cfg (mgr (poll m)) t)"
    and "\<And>n h. rc E (Sys (C_setitimer n) # h) = 0"
  shows "ds_state (dev_status (fst (snd (init_sys E cfg m s)))) = PROCESS"
proof -
  obtain r0 t s0 where t: "timer_stop E (tm m) s = (r0, t, s0)" by (metis prod_cases3)
  let ?m0 = "m\<lparr>tm := t, dev_status := (dev_status m)\<lparr>ds_timer := False\<rparr>\<rparr>"
  obtain m1 s1 where 1: "init_mqtt E cfg ?m0 s0 = (m1, s1)" by (metis surj_pair)
  have m1: "ds_mqtt (dev_status m1)" "poll m1 = poll m" "\<not> ds_timer (dev_status m1)"
    using 1 assms(3) [of "mq ?m0" s0] by (auto simp: init_mqtt_def Let_def split: prod.splits if_splits)
  have "timer_wf t" using timer_wf_update(1) [of E "tm m" s] assms(1) by (simp add: t init_inv_def)
  then have "init_inv ?m0" using assms(1) by (simp add: init_inv_def flags_ok_def)
  then have i1: "init_inv m1" using 1 by (rule init_mqtt_inv)
  obtain m2 s2 where 2: "(if ds_manager (dev_status m1) then (0, m1, s1) else init_manager E cfg m1 s1) = (0, m2, s2)"
    and m2: "all_up (dev_status m2) \<or> \<not> ds_timer (dev_status m2) \<and> ds_manager (dev_status m2) \<and> ds_mqtt (dev_status m2)"
  proof (cases "ds_manager (dev_status m1)")
    case True
    with that [of m1 s1] m1 show thesis by simp
  next
    case False
    obtain acc mg s3 where c0: "manager_init_config E cfg (mgr (poll m1)) s1 = (acc, mg, s3)" by (metis prod_cases3)
    then have c: "manager_init_config E cfg (mgr (poll m1)) s1 = (True, mg, s3)" using assms(4) [of s1] m1(2) by simp
    obtain ok mg' s4 where n: "manager_init_connections E mg s3 = (ok, mg', s4)" by (metis prod_cases3)
    let ?s = "if \<not> ok then mn_LOG_E E 77 ''init_sys'' ''Manager ERROR: Connection fail'' s4 else s4"
    have "sizes m1" using i1 by (simp add: init_inv_def)
    from init_manager_ready [OF this assms(2) c n, where ?s3.0 = ?s]
    obtain q cs where q: "init_queue E MAX_CLIENT_NUM 0 mg' (queueCleen (qu m1)) (cnt (poll m1)) ?s = (0, q, cs, ?s)"
      by blast
    have "init_manager E cfg m1 s1 = (0, (m1\<lparr>poll := (poll m1)\<lparr>mgr := mg', cnt := cs\<rparr>, qu := q\<rparr>)
        \<lparr>dev_status := (dev_status m1)\<lparr>ds_manager := True\<rparr>\<rparr>, ?s)"
      by (simp only: init_manager_def Let_def c n prod.case q if_False not_not if_True refl) simp
    with False m1 that show thesis by auto
  qed
  have run: "init_sys E cfg m s = (let (m, s) = init_timer E m2 s2; (m, s) = init_finish E m s in (0, m, s))"
    by (simp only: init_sys_def Let_def t prod.case 1 2) simp
  have "all_up (dev_status (fst (init_timer E m2 s2)))"
    using m2 assms(5) by (auto simp: init_timer_def all_up_def timer_start_def ext_def Let_def split_beta)
  then show ?thesis by (simp add: run split_beta init_finish_def Let_def)
qed

lemma start_completes:
  assumes "init_inv m" and "\<forall>n. 0 \<le> config_setting_length cfg n"
    and "\<And>q t. fst (mqtt_init E cfg q t) = 0" and "\<And>t. fst (manager_init_config E cfg (mgr (poll m)) t)"
    and "\<And>n h. rc E (Sys (C_setitimer n) # h) = 0"
  shows "\<exists>m' s'. main_step E cfg At_switch m s = Some (At_switch, m', s') \<and> ds_state (dev_status m') = SEND_DATA"
proof -
  obtain r m1 s1 where 1: "init_sys E cfg m s = (r, m1, s1)" by (metis prod_cases3)
  have "ds_state (dev_status m1) = PROCESS"
    using init_sys_completes [OF assms, of s] by (simp add: 1)
  then have "ds_state (dev_status (fst (do_init E cfg m s))) = SEND_DATA"
    by (simp add: do_init_def 1 module_states start_up_def set_state_def Let_def split_beta)
  moreover obtain m' s' where "do_init E cfg m s = (m', s')" by (metis surj_pair)
  ultimately show ?thesis
    using assms(1) by (simp add: main_step_def at_switch_def init_inv_def)
qed

text \<open>
  C22. Start-up needs no client: once the configuration is accepted, the broker is connected and the
  timer can be set, the next pass of the initialising state reaches \<^verbatim>\<open>SEND_DATA\<close>, so that a first
  message is sent, however the Modbus and OPC UA connections of that pass turn out.
\<close>

theorem start_up_completes:
  assumes "reachable E cfg (k, m, s)" and "\<forall>n. 0 \<le> config_setting_length cfg n"
    and "ds_state (dev_status m) = INIT_SYS"
    and "\<And>q t. fst (mqtt_init E cfg q t) = 0" and "\<And>t. fst (manager_init_config E cfg (mgr (poll m)) t)"
    and "\<And>n h. rc E (Sys (C_setitimer n) # h) = 0"
  shows "\<exists>m' s'. main_step E cfg k m s = Some (At_switch, m', s') \<and> ds_state (dev_status m') = SEND_DATA"
proof -
  have "module_inv k m" using reachable_inv [OF assms(1,2)] by simp
  then have "k = At_switch" "init_inv m" using assms(3) by (auto simp: module_inv_split up_def module_states)
  then show ?thesis using start_completes [OF _ assms(2,4-6)] by simp
qed

text \<open>A configuration with a broker: the sample with one more section.\<close>

definition broker_string :: "string \<Rightarrow> string option" where
  "broker_string k = map_of [(''host'', ''cloud''), (''login'', ''me''), (''passwd'', ''pw''), (''ssl_crt'', ''ca''),
     (''topic'', ''data'')] k"

definition full_cfg :: config_t where
  "full_cfg = sample_cfg\<lparr>config_lookup := map_of [(''common'', 1), (''clients'', 3), (''mqtt'', 5)],
     config_setting_lookup_int := (\<lambda>n. if n = 6 then (\<lambda>_. Some 8883) else sample_int),
     config_setting_lookup_string := (\<lambda>n. if n = 6 then broker_string else sample_string)\<rparr>"

lemma full_cfg_length: "\<forall>n. 0 \<le> config_setting_length full_cfg n"
  by (simp add: full_cfg_def sample_cfg_def)

lemma full_cfg_accepted: "fst (manager_init_config quiet_env full_cfg manager0 t)"
  by (simp add: manager_init_config_def read_common_def read_opc_ua_def read_clients_def init_client_def
      lookup_client_def parse_client_def read_modbus_def read_modbus_address_def read_modbus_tcp_def
      set_registers_def set_modbus_def need_int_def need_string_def lookup_int_def lookup_string_def
      full_cfg_def sample_cfg_def sample_string_def sample_int_def MAX_CLIENT_NUM_def MAX_CLIENT_NAME_LEN_def Let_def)

lemma full_cfg_mqtt: "fst (mqtt_init quiet_env full_cfg q t) = 0"
  by (simp add: mqtt_init_def read_setting_def full_cfg_def sample_cfg_def broker_string_def lookup_string_def
      lookup_int_def mqtt_connect_steps_def ext_new_def ext_def Let_def split_beta)

lemma start_module:
  "main_start E arg junk t = (Some m, s) \<Longrightarrow> mgr (poll m) = manager0 \<and> ds_state (dev_status m) = INIT_SYS"
  by (auto simp: main_start_def module_start_def Let_def split: prod.splits if_splits)

theorem start_up_completes_witness:
  "\<exists>m s c. reachable quiet_env full_cfg (At_switch, m, s)
     \<and> main_step quiet_env full_cfg At_switch m s = Some c \<and> ds_state (dev_status (fst (snd c))) = SEND_DATA"
proof -
  obtain m s where i: "main_start quiet_env None (ClientData_zero, 0, 0) (io0 (\<lambda>_. None)) = (Some m, s)"
    using sample_start by blast
  then have r: "reachable quiet_env full_cfg (At_switch, m, s)" by (rule reachable.start)
  have "\<And>t. fst (manager_init_config quiet_env full_cfg (mgr (poll m)) t)"
    using start_module [OF i] full_cfg_accepted by simp
  from start_up_completes [OF r full_cfg_length _ full_cfg_mqtt this] start_module [OF i] r show ?thesis
    by fastforce
qed

lemma sending_reachable: "\<exists>m s. reachable quiet_env full_cfg (At_switch, m, s) \<and> ds_state (dev_status m) = SEND_DATA"
proof -
  obtain m s where i: "main_start quiet_env None (ClientData_zero, 0, 0) (io0 (\<lambda>_. None)) = (Some m, s)"
    using sample_start by blast
  then have r: "reachable quiet_env full_cfg (At_switch, m, s)" by (rule reachable.start)
  have "init_inv m" using start_inv [OF i] start_module [OF i] by (auto simp: module_inv_split up_def module_states)
  moreover have "\<And>t. fst (manager_init_config quiet_env full_cfg (mgr (poll m)) t)"
    using start_module [OF i] full_cfg_accepted by simp
  ultimately obtain m' s' where "main_step quiet_env full_cfg At_switch m s = Some (At_switch, m', s')"
    "ds_state (dev_status m') = SEND_DATA"
    using start_completes [OF _ full_cfg_length full_cfg_mqtt, of m s] by fastforce
  with r show ?thesis by (blast intro: reachable.step module_step.phase)
qed

section \<open>The message\<close>

lemma json_loop_result:
  "\<forall>d \<in> set ds. json_typed d \<Longrightarrow> fst (json_loop E n ds buf s) \<in> {DATA_ERR_SUCCESS, DATA_ERR_BUF}"
  by (induction ds arbitrary: buf s) (auto simp: json_typed_def Let_def split: option.splits)

text \<open>
  C23. Every record of a message has a type \<^verbatim>\<open>get_json\<close> knows: in every reachable state that
  sends, with the dynamic members rewritten as the sending state does first, the records all come
  from the array and the rendering never ends with the unknown type error.
\<close>

theorem message_types_known:
  assumes "reachable E cfg (k, m, s)" and "\<forall>n. 0 \<le> config_setting_length cfg n"
    and "ds_state (dev_status m) \<noteq> INIT_SYS"
    and "set_mqtt_dynamic_fields E (mqtt_data (poll m)) t = (data, t')"
  shows "mqtt_data_count m \<le> int (length data) \<and> (\<forall>d \<in> set (take (nat (mqtt_data_count m)) data). json_typed d)
     \<and> fst (get_json E MAX_BUF data (mqtt_data_count m) t') \<in> {DATA_ERR_SUCCESS, DATA_ERR_BUF}"
proof -
  have "module_inv k m" using reachable_inv [OF assms(1,2)] by simp
  then have u: "up m" using assms(3) by (auto simp: module_inv_split init_inv_def)
  have r: "ready m" using u by (rule up_ready)
  then have len: "length (mqtt_data (poll m)) = mqtt_slots" by (simp add: ready_def poll_wf_def)
  have cnt: "mqtt_data_count m \<le> int (length data)"
    using u r dynamic_fields_result(1) [OF len assms(4)]
    by (simp add: up_def message_ok_def ready_def poll_wf_def table_wf_def sized_def mqtt_slots_def)
  have "json_typed (data ! j)" if "j < nat (mqtt_data_count m)" for j
    using u that dynamic_fields_result(2) [OF len assms(4), of j] by (simp add: up_def message_ok_def)
  then have typed: "\<forall>d \<in> set (take (nat (mqtt_data_count m)) data). json_typed d"
    by (auto simp: in_set_conv_nth)
  with cnt json_loop_result [OF typed] show ?thesis by (simp add: get_json_def)
qed

theorem message_types_known_witness:
  "\<exists>m s data t. reachable quiet_env full_cfg (At_switch, m, s) \<and> ds_state (dev_status m) = SEND_DATA
     \<and> fst (get_json quiet_env MAX_BUF data (mqtt_data_count m) t) \<in> {DATA_ERR_SUCCESS, DATA_ERR_BUF}"
proof -
  obtain m s where r: "reachable quiet_env full_cfg (At_switch, m, s)" "ds_state (dev_status m) = SEND_DATA"
    using sending_reachable by blast
  obtain data t where d: "set_mqtt_dynamic_fields quiet_env (mqtt_data (poll m)) s = (data, t)" by (metis surj_pair)
  have "ds_state (dev_status m) \<noteq> INIT_SYS" using r(2) by (simp add: module_states)
  from message_types_known [OF r(1) full_cfg_length this d] r show ?thesis by blast
qed

section \<open>The minute countdown\<close>

definition minute :: "env \<Rightarrow> module_t \<times> io \<Rightarrow> module_t \<times> io" where
  "minute E x = count_minute E (fst x) (snd x)"

lemma minute_counts:
  "1 < sendDataMin m \<Longrightarrow> sendDataMin m < 2 ^ 31 \<Longrightarrow>
     minute E (m, s) = (m\<lparr>sendDataMin := sendDataMin m - 1\<rparr>, s)"
  by (simp add: minute_def count_minute_def fits_int_def Let_def)

lemma minute_sends:
  "sendDataMin m = 1 \<Longrightarrow> 0 < sendInterval (mgr (poll m)) \<Longrightarrow>
     minute E (m, s) = (set_state SEND_DATA (m\<lparr>sendDataMin := sendInterval (mgr (poll m))\<rparr>), s)"
  by (simp add: minute_def count_minute_def fits_int_def manager_get_send_interval_def set_state_def Let_def)

lemma minutes_count:
  assumes "sendDataMin m = int n" and "n < 2 ^ 31"
  shows "j < n \<Longrightarrow> (minute E ^^ j) (m, s) = (m\<lparr>sendDataMin := int (n - j)\<rparr>, s)"
proof (induction j)
  case 0
  then show ?case using assms(1) by simp
next
  case (Suc j)
  let ?m = "m\<lparr>sendDataMin := int (n - j)\<rparr>"
  have "1 < sendDataMin ?m" "sendDataMin ?m < 2 ^ 31" using Suc.prems assms(2) by simp_all
  from minute_counts [OF this] Suc show ?case by simp
qed

text \<open>
  A countdown of \<open>n\<close> minutes leaves the state alone for the first \<open>n - 1\<close> and requests the
  message with the \<open>n\<close>th, never earlier, with the countdown set to the configured interval again.
\<close>

lemma message_every_interval:
  assumes "sendDataMin m = int n" and "0 < n" and "n < 2 ^ 31" and "0 < sendInterval (mgr (poll m))"
  shows "(\<forall>j < n. fst ((minute E ^^ j) (m, s)) = m\<lparr>sendDataMin := int (n - j)\<rparr>)
     \<and> (minute E ^^ n) (m, s) = (set_state SEND_DATA (m\<lparr>sendDataMin := sendInterval (mgr (poll m))\<rparr>), s)"
proof -
  obtain j where n: "n = Suc j" using assms(2) by (cases n) simp_all
  have "(minute E ^^ j) (m, s) = (m\<lparr>sendDataMin := 1\<rparr>, s)"
    using minutes_count [OF assms(1,3), of j E s] by (simp add: n)
  then have "(minute E ^^ n) (m, s) = minute E (m\<lparr>sendDataMin := 1\<rparr>, s)" by (simp add: n)
  also have "\<dots> = (set_state SEND_DATA (m\<lparr>sendDataMin := sendInterval (mgr (poll m))\<rparr>), s)"
    using minute_sends [of "m\<lparr>sendDataMin := 1\<rparr>"] assms(4) by (simp add: set_state_def)
  finally show ?thesis using minutes_count [OF assms(1,3)] by simp
qed

lemma message_every_interval_example:
  "ds_state (dev_status (fst ((minute quiet_env ^^ 15) (plc_module\<lparr>sendDataMin := 15\<rparr>, io0 (\<lambda>_. None))))) = SEND_DATA"
  using message_every_interval [of "plc_module\<lparr>sendDataMin := 15\<rparr>" 15 quiet_env "io0 (\<lambda>_. None)"]
  by (simp add: plc_module_def one_plc_def set_state_def)

section \<open>A pass of the processing state\<close>

text \<open>Several phases without a tick in between.\<close>

fun phases :: "env \<Rightarrow> config_t \<Rightarrow> nat \<Rightarrow> config \<Rightarrow> config option" where
  "phases E cfg 0 c = Some c"
| "phases E cfg (Suc n) (k, m, s) = (case main_step E cfg k m s of None \<Rightarrow> None | Some c \<Rightarrow> phases E cfg n c)"

text \<open>The reference: each rate whose flag is up is served by one run over its clients.\<close>

definition serve :: "env \<Rightarrow> bool \<Rightarrow> int \<Rightarrow> InnerIdx list \<Rightarrow> poll_t \<times> io \<Rightarrow> poll_t \<times> io" where
  "serve E flag l is x = (if flag then fold (poll_client E l) is x else x)"

definition flag_up :: "RefreshRate \<Rightarrow> timer_t \<Rightarrow> bool" where
  "flag_up r t = (case r of RR_100ms \<Rightarrow> period_100ms (t_period t) | RR_1s \<Rightarrow> period_1s (t_period t)
     | RR_1m \<Rightarrow> period_1m (t_period t))"

definition pass_spec :: "env \<Rightarrow> module_t \<Rightarrow> io \<Rightarrow> poll_t \<times> io" where
  "pass_spec E m s =
     (let up = (\<lambda>r. flag_up r (tm m)); of_rate = (\<lambda>r. clients_of r (mgr (poll m)));
          (p, s) = serve E (up RR_100ms) 500 (of_rate RR_100ms) (poll m, s);
          s = (if up RR_1m then snd (count_minute E (m\<lparr>poll := p\<rparr>) s) else s);
          x = serve E (up RR_1m) 570 (of_rate RR_1m) (p, s)
      in serve E (up RR_1s) 632 (of_rate RR_1s) x)"

lemma phases_add:
  "phases E cfg a c = Some c' \<Longrightarrow> phases E cfg (a + b) c = phases E cfg b c'"
proof (induction a arbitrary: c)
  case (Suc a)
  obtain k m s where "c = (k, m, s)" by (cases c)
  with Suc show ?case by (auto split: option.splits)
qed simp

lemma phases_1: "main_step E cfg k m s = Some c \<Longrightarrow> phases E cfg 1 (k, m, s) = Some c"
  by simp

lemma phases_2:
  "main_step E cfg k m s = Some (k', m', s') \<Longrightarrow> main_step E cfg k' m' s' = Some c \<Longrightarrow>
     phases E cfg 2 (k, m, s) = Some c"
  by (simp add: numeral_2_eq_2)

lemma clear_flag_down: "\<not> flag_up r t \<Longrightarrow> clear_flag r t = t"
  by (cases r) (simp_all add: flag_up_def clear_flag_def)

lemma flag_up_clear: "flag_up r (clear_flag r' t) \<longleftrightarrow> r \<noteq> r' \<and> flag_up r t"
  by (cases r; cases r') (simp_all add: flag_up_def clear_flag_def)

lemma survey_serves:
  assumes "ready m"
  shows "\<exists>q' p' s'. survey_rate E r l m s = Some (m\<lparr>qu := q', poll := p'\<rparr>, s')
     \<and> (p', s') = serve E True l (clients_of r (mgr (poll m))) (poll m, s) \<and> ready (m\<lparr>qu := q', poll := p'\<rparr>)
     \<and> (\<forall>r'. clients_of r' (mgr p') = clients_of r' (mgr (poll m)))"
proof -
  have w: "poll_wf (poll m)" "queue_wf (qu m)" "\<And>r. clients_at r (qu m) = clients_of r (mgr (poll m))"
    using assms by (simp_all add: ready_def)
  obtain q' p' s' where run: "survey_rate E r l m s = Some (m\<lparr>qu := q', poll := p'\<rparr>, s')"
    and f: "(p', s') = fold (poll_client E l) (clients_at r (qu m)) (poll m, s)"
    and t: "touches_all (set (clients_at r (qu m))) (poll m) p'"
    using survey_rate_result [OF w(1,2)] by blast
  obtain q2 p2 s2 where "survey_rate E r l m s = Some (m\<lparr>qu := q2, poll := p2\<rparr>, s2)" "ready (m\<lparr>qu := q2, poll := p2\<rparr>)"
    using survey_ready [OF assms] by blast
  then have "ready (m\<lparr>qu := q', poll := p'\<rparr>)" using run by simp
  moreover have "clients_of r' (mgr p') = clients_of r' (mgr (poll m))" for r'
    using t poll_wf_sized [OF w(1)] by (intro clients_of_same) (simp_all add: touches_all_def)
  ultimately show ?thesis using run f w(3) by (auto simp: serve_def)
qed

text \<open>What the service of one rate leaves behind in the module.\<close>

definition served :: "RefreshRate \<Rightarrow> module_t \<Rightarrow> module_t \<Rightarrow> bool" where
  "served r m m' \<longleftrightarrow> tm m' = clear_flag r (tm m) \<and> ready m'
     \<and> (\<forall>r'. clients_of r' (mgr (poll m')) = clients_of r' (mgr (poll m)))"

lemma pass_100ms:
  assumes "ready m" and "ds_state (dev_status m) = PROCESS"
  shows "\<exists>n m' s'. 0 < n \<and> n \<le> 2 \<and> phases E cfg n (At_switch, m, s) = Some (At_1m, m', s') \<and> served RR_100ms m m'
     \<and> (poll m', s') = serve E (flag_up RR_100ms (tm m)) 500 (clients_of RR_100ms (mgr (poll m))) (poll m, s)
     \<and> sendDataMin m' = sendDataMin m"
proof (cases "flag_up RR_100ms (tm m)")
  case True
  obtain q p s' where r: "survey_rate E RR_100ms 500 m s = Some (m\<lparr>qu := q, poll := p\<rparr>, s')"
    "(p, s') = serve E True 500 (clients_of RR_100ms (mgr (poll m))) (poll m, s)" "ready (m\<lparr>qu := q, poll := p\<rparr>)"
    "\<forall>r'. clients_of r' (mgr p) = clients_of r' (mgr (poll m))" using survey_serves [OF assms(1)] by blast
  let ?m = "m\<lparr>qu := q, poll := p\<rparr>"
  have "main_step E cfg At_switch m s = Some (Clear_100ms, ?m, s')"
    using True assms(2) r(1) by (simp add: main_step_def at_switch_def module_states flag_up_def)
  then have "phases E cfg 2 (At_switch, m, s) = Some (At_1m, ?m\<lparr>tm := clear_flag RR_100ms (tm m)\<rparr>, s')"
    by (rule phases_2) (simp add: main_step_def)
  then show ?thesis
    using r(2-4) True by (intro exI [of _ 2] exI [of _ "?m\<lparr>tm := clear_flag RR_100ms (tm m)\<rparr>"] exI [of _ s'])
      (simp add: served_def)
next
  case False
  have "main_step E cfg At_switch m s = Some (At_1m, m, s)"
    using False assms(2) by (simp add: main_step_def at_switch_def module_states flag_up_def)
  then have "phases E cfg 1 (At_switch, m, s) = Some (At_1m, m, s)" by (rule phases_1)
  then show ?thesis
    using False assms(1) by (intro exI [of _ 1] exI [of _ m] exI [of _ s])
      (simp add: served_def serve_def clear_flag_down)
qed

lemma count_minute_poll:
  "count_minute E m s = (m', s') \<Longrightarrow> poll m' = poll m \<and> tm m' = tm m \<and> qu m' = qu m"
  by (auto simp: count_minute_def set_state_def Let_def split: prod.splits if_splits)

lemma count_minute_io:
  "sendDataMin m = sendDataMin m' \<Longrightarrow> poll m = poll m' \<Longrightarrow> snd (count_minute E m s) = snd (count_minute E m' s)"
  by (simp add: count_minute_def Let_def split_beta)

lemma pass_1m:
  assumes "ready m"
  shows "\<exists>n m' s'. 0 < n \<and> n \<le> 2 \<and> phases E cfg n (At_1m, m, s) = Some (At_1s, m', s') \<and> served RR_1m m m'
     \<and> (poll m', s') = serve E (flag_up RR_1m (tm m)) 570 (clients_of RR_1m (mgr (poll m)))
         (poll m, if flag_up RR_1m (tm m) then snd (count_minute E m s) else s)"
proof (cases "flag_up RR_1m (tm m)")
  case True
  obtain m1 s1 where c: "count_minute E m s = (m1, s1)" by (metis surj_pair)
  note c1 = count_minute_poll [OF c]
  have "ready m1" using assms c1 by (simp add: ready_def)
  then obtain q p s' where r: "survey_rate E RR_1m 570 m1 s1 = Some (m1\<lparr>qu := q, poll := p\<rparr>, s')"
    "(p, s') = serve E True 570 (clients_of RR_1m (mgr (poll m1))) (poll m1, s1)" "ready (m1\<lparr>qu := q, poll := p\<rparr>)"
    "\<forall>r'. clients_of r' (mgr p) = clients_of r' (mgr (poll m1))" using survey_serves by blast
  let ?m = "m1\<lparr>qu := q, poll := p\<rparr>"
  have "main_step E cfg At_1m m s = Some (Clear_1m, ?m, s')"
    using True r(1) c by (simp add: main_step_def flag_up_def)
  then have "phases E cfg 2 (At_1m, m, s) = Some (At_1s, ?m\<lparr>tm := clear_flag RR_1m (tm m1)\<rparr>, s')"
    by (rule phases_2) (simp add: main_step_def)
  then show ?thesis
    using r(2-4) True c1 c by (intro exI [of _ 2] exI [of _ "?m\<lparr>tm := clear_flag RR_1m (tm m1)\<rparr>"] exI [of _ s'])
      (simp add: served_def)
next
  case False
  have "main_step E cfg At_1m m s = Some (At_1s, m, s)" using False by (simp add: main_step_def flag_up_def)
  then have "phases E cfg 1 (At_1m, m, s) = Some (At_1s, m, s)" by (rule phases_1)
  then show ?thesis
    using False assms(1) by (intro exI [of _ 1] exI [of _ m] exI [of _ s])
      (simp add: served_def serve_def clear_flag_down)
qed

lemma pass_1s:
  assumes "ready m"
  shows "\<exists>n m' s'. 0 < n \<and> n \<le> 2 \<and> phases E cfg n (At_1s, m, s) = Some (At_switch, m', s') \<and> served RR_1s m m'
     \<and> (poll m', s') = serve E (flag_up RR_1s (tm m)) 632 (clients_of RR_1s (mgr (poll m))) (poll m, s)"
proof (cases "flag_up RR_1s (tm m)")
  case True
  obtain q p s' where r: "survey_rate E RR_1s 632 m s = Some (m\<lparr>qu := q, poll := p\<rparr>, s')"
    "(p, s') = serve E True 632 (clients_of RR_1s (mgr (poll m))) (poll m, s)" "ready (m\<lparr>qu := q, poll := p\<rparr>)"
    "\<forall>r'. clients_of r' (mgr p) = clients_of r' (mgr (poll m))" using survey_serves [OF assms(1)] by blast
  let ?m = "m\<lparr>qu := q, poll := p\<rparr>"
  have "main_step E cfg At_1s m s = Some (Clear_1s, ?m, s')"
    using True r(1) by (simp add: main_step_def flag_up_def)
  then have "phases E cfg 2 (At_1s, m, s) = Some (At_switch, ?m\<lparr>tm := clear_flag RR_1s (tm m)\<rparr>, s')"
    by (rule phases_2) (simp add: main_step_def)
  then show ?thesis
    using r(2-4) True by (intro exI [of _ 2] exI [of _ "?m\<lparr>tm := clear_flag RR_1s (tm m)\<rparr>"] exI [of _ s'])
      (simp add: served_def)
next
  case False
  have "main_step E cfg At_1s m s = Some (At_switch, m, s)" using False by (simp add: main_step_def flag_up_def)
  then have "phases E cfg 1 (At_1s, m, s) = Some (At_switch, m, s)" by (rule phases_1)
  then show ?thesis
    using False assms(1) by (intro exI [of _ 1] exI [of _ m] exI [of _ s])
      (simp add: served_def serve_def clear_flag_down)
qed


lemma processing_reachable:
  "\<exists>m s. reachable quiet_env full_cfg (At_switch, m, s) \<and> ds_state (dev_status m) = PROCESS"
proof -
  obtain m s where r: "reachable quiet_env full_cfg (At_switch, m, s)" "ds_state (dev_status m) = SEND_DATA"
    using sending_reachable by blast
  have "module_inv At_switch m" using reachable_inv [OF r(1) full_cfg_length] by simp
  then have u: "up m" using r(2) by (auto simp: module_inv_split init_inv_def module_states)
  obtain m' s' where d: "do_send quiet_env m s = (m', s')" by (metis surj_pair)
  have "main_step quiet_env full_cfg At_switch m s = Some (At_switch, m', s')"
    using r(2) by (simp add: main_step_def at_switch_def module_states d)
  with r(1) do_send_up [OF u d] show ?thesis by (blast intro: reachable.step module_step.phase)
qed


text \<open>
  Ticks that arrive after a survey and before its flag is cleared are not served: whatever number
  of them comes in, the flag is down afterwards.
\<close>

lemma ticks_before_clear_lost:
  assumes "main_step E cfg Clear_1s (m\<lparr>tm := (timer_handler_100ms ^^ n) (tm m)\<rparr>) s = Some (k, m', s')"
  shows "k = At_switch \<and> \<not> flag_up RR_1s (tm m') \<and> poll m' = poll m"
  using assms by (auto simp: main_step_def flag_up_clear)

end
