(* ===== verification/TsFrame.thy ===== *)
theory TsFrame
  imports TsRun
begin

text \<open>
  Facts about runs that survive every operation of the program.  Locale \<open>unobserved\<close>: a predicate on
  the run-time state that does not look at calls (other than publishing) and files.  Locale
  \<open>logging\<close>: it survives a message and the emptying of the log file, hence all of the logger.  Locale
  \<open>resilient\<close>: it survives logging and all undefined behaviour but that of the kinds \<open>bad\<close>; the
  lemmas say which operations of the connections and the configuration keep it, with a condition
  where an operation may dereference a null pointer.  Locale \<open>steady\<close>: a predicate that does not look at
  the logger's globals either, which is both in every environment.
\<close>

fun publishes :: "call \<Rightarrow> bool" where
  "publishes (Mosq (C_mosquitto_publish h t msg)) = True"
| "publishes _ = False"

text \<open>Where a null pointer may come from: an address that is not there, an element that does not exist.\<close>

definition located :: "ModbusClient \<Rightarrow> bool" where
  "located b \<longleftrightarrow> (case protocolType b of MPT_TCP \<Rightarrow> ipAdress b \<noteq> None | MPT_RTU \<Rightarrow> parity b \<noteq> None)"

definition located_table :: "manager_t \<Rightarrow> bool" where
  "located_table m \<longleftrightarrow> (\<forall>i. in_range m i \<and> protocol (client m i) = CP_MODBUS \<longrightarrow> located (modbus (client m i)))"

definition opc_memory :: "env \<Rightarrow> bool" where
  "opc_memory E \<longleftrightarrow> (\<forall>h. rc E (Ua C_UA_Client_new # h) \<noteq> 0)"

definition elements_exist :: "config_t \<Rightarrow> bool" where
  "elements_exist cfg \<longleftrightarrow> (\<forall>k \<in> {''common'', ''opc_ua''}. \<forall>n. config_lookup cfg k = Some n \<longrightarrow> config_setting_get_elem cfg n 0 \<noteq> None)
     \<and> (\<forall>cc. config_lookup cfg ''clients'' = Some cc \<longrightarrow>
          (\<forall>j. 0 \<le> j \<and> j < config_setting_length cfg cc \<longrightarrow> config_setting_get_elem cfg cc j \<noteq> None))"

lemma located_context: "located (b\<lparr>mb_context := x\<rparr>) = located b"
  by (cases "protocolType b") (simp_all add: located_def)

lemma same_table_located:
  assumes "same_table m m'" and "sized m"
  shows "located_table m' = located_table m"
proof -
  have "protocol (client m' i) = protocol (client m i) \<and> located (modbus (client m' i)) = located (modbus (client m i))"
    if "in_range m i" for i
    using same_table_fields [OF assms that] located_context by metis
  then show ?thesis using same_table_range [OF assms(1)] by (auto simp: located_table_def)
qed

section \<open>Predicates that see neither calls nor files\<close>

locale unobserved =
  fixes P :: "io \<Rightarrow> bool"
  assumes emit [simp]: "\<not> publishes c \<Longrightarrow> P (emit c s) = P s"
    and files [simp]: "P (s\<lparr>files := f\<rparr>) = P s"
begin

lemma kept_files [simp]:
  "P (snd (fopen E p md s)) = P s" "P (snd (fprintf E fl t s)) = P s" "P (printf_c t s) = P s"
  by (simp_all add: fopen_def fprintf_def printf_c_def ext_def Let_def split: FILE.splits)

lemma kept_timer [simp]:
  "P (snd (snd (timer_start E n t s))) = P s" "P (snd (snd (timer_stop E t s))) = P s" "P (snd (timer_init t s)) = P s"
  by (simp_all add: timer_start_def timer_stop_def timer_init_def Let_def split_beta)

lemma kept_print [simp]:
  "P (stdout_line t s) = P s" "P (archive_error t s) = P s" "P (print_to_syslog l t s) = P s"
  by (simp_all add: stdout_line_def archive_error_def print_to_syslog_def Let_def)

lemma kept_loadFile [simp]: "P (snd (loadFile E p s)) = P s"
  by (simp add: loadFile_def Let_def split_beta split: option.splits)

lemma kept_opc_close [simp]: "P (snd (opcCloseConnection h s)) = P s"
  by (simp add: opcCloseConnection_def split: option.splits)

lemma kept_init_timer: "P s \<Longrightarrow> P (snd (init_timer E m s))"
  by (simp add: init_timer_def Let_def split_beta)

end

section \<open>Predicates that logging keeps\<close>

text \<open>The message itself and the emptied log file are kept, and so is all of the logger.\<close>

locale logging = unobserved P for P +
  fixes E :: env
  assumes counter [simp]: "P (s\<lparr>stringCounter := k\<rparr>) = P s"
    and overflow [simp]: "P s \<Longrightarrow> P (ub_if b Buffer_Overflow s)"
    and call [simp]: "P s \<Longrightarrow> P (call_logger_func E l t s)"
    and reopen: "P s \<Longrightarrow> P (snd (archive_reopen E z fl s))"
begin

lemma kept_archive_copy [simp]: "P (snd (archive_copy E t s)) = P s"
proof (induction t s rule: archive_copy_induct)
  case (Nil s)
  then show ?case by (simp add: archive_copy_Nil)
next
  case (Step t s)
  then show ?case by (simp add: archive_copy_step)
qed

lemma kept_logger_archive [simp]: "P s \<Longrightarrow> P (snd (logger_archive E s))"
proof -
  have 1: "P (snd (archive_dir E d s)) = P s" for d s
    by (simp add: archive_dir_def Let_def split_beta)
  have 2: "P (snd (archive_open E z s)) = P s" for z s
    by (simp add: archive_open_def Let_def split_beta split: option.splits)
  have 3: "P s \<Longrightarrow> P (snd (archive_write E z fl s))" for z fl s
    by (simp add: archive_write_def Let_def split_beta 2 reopen)
  have 4: "P s \<Longrightarrow> P (snd (archive_into E z fl s))" for z fl s
    by (simp add: archive_into_def Let_def split_beta 3)
  show "P s \<Longrightarrow> P (snd (logger_archive E s))"
    by (simp add: logger_archive_def Let_def split_beta 1 4 split: option.splits)
qed

lemma kept_log [simp]:
  "P s \<Longrightarrow> P (log_error E f n g t s)" "P s \<Longrightarrow> P (log_warning E f n g t s)"
  "P s \<Longrightarrow> P (log_info E t s)" "P s \<Longrightarrow> P (log_debug E t s)"
proof -
  have 1: "P s \<Longrightarrow> P (log_generic E l t s)" for l t s
    by (simp add: log_generic_def)
  have 2: "P s \<Longrightarrow> P (count_and_archive E s)" for s
    by (simp add: count_and_archive_def Let_def split_beta)
  show "P s \<Longrightarrow> P (log_error E f n g t s)" "P s \<Longrightarrow> P (log_warning E f n g t s)"
    "P s \<Longrightarrow> P (log_info E t s)" "P s \<Longrightarrow> P (log_debug E t s)"
    by (simp_all add: log_error_def log_warning_def log_info_def log_debug_def log_generic_add_def 1 2)
qed

end

section \<open>Predicates that survive what may go wrong\<close>

locale resilient = unobserved P for P +
  fixes E :: env and bad :: "fault_kind set"
  assumes ub [simp]: "P s \<Longrightarrow> x \<notin> bad \<Longrightarrow> P (ub x s)"
    and log [simp]: "P s \<Longrightarrow> P (log_error E f n g t s)" "P s \<Longrightarrow> P (log_info E t s)" "P s \<Longrightarrow> P (log_debug E t s)"
    and tame [simp]: "Buffer_Overflow \<notin> bad" "Signed_Overflow \<notin> bad"
begin

lemma kept_ub_if [simp]: "P s \<Longrightarrow> x \<notin> bad \<Longrightarrow> P (ub_if b x s)"
  by (simp add: ub_if_def)

lemma kept_null: "P s \<Longrightarrow> Null_Deref \<notin> bad \<or> \<not> b \<Longrightarrow> P (ub_if b Null_Deref s)"
  by (auto simp: ub_if_def)

lemma kept_lookup [simp]:
  "P s \<Longrightarrow> Null_Deref \<notin> bad \<or> el \<noteq> None \<Longrightarrow> P (snd (lookup_string cfg el t s))"
  "P s \<Longrightarrow> Null_Deref \<notin> bad \<or> el \<noteq> None \<Longrightarrow> P (snd (lookup_int cfg el t s))"
  by (auto simp: lookup_string_def lookup_int_def split: option.splits)

lemma kept_LOG_E [simp]:
  "P s \<Longrightarrow> P (mb_LOG_E E l f t s)" "P s \<Longrightarrow> P (opc_LOG_E E l f t s)"
  "P s \<Longrightarrow> P (cm_LOG_E E l f t s)" "P s \<Longrightarrow> P (ct_LOG_E E l f t s)"
  "P s \<Longrightarrow> P (mn_LOG_E E l f t s)" "P s \<Longrightarrow> P (wrong_type E l t v c s)"
  "P s \<Longrightarrow> P (wrong_counter_type E l f s)"
  by (simp_all add: mb_LOG_E_def opc_LOG_E_def cm_LOG_E_def ct_LOG_E_def mn_LOG_E_def wrong_type_def
      wrong_counter_type_def)

section \<open>Connections\<close>

lemma kept_checkServer: "P s \<Longrightarrow> Null_Deref \<notin> bad \<or> a \<noteq> None \<Longrightarrow> P (snd (checkServer E a p s))"
  by (auto simp: checkServer_def Let_def split_beta kept_null)

lemma kept_modbus [simp]:
  "P s \<Longrightarrow> Null_Deref \<notin> bad \<or> located c \<Longrightarrow> P (snd (snd (modbusConnect E c s)))"
  "P s \<Longrightarrow> P (snd (snd (modbusReceiveData E c s)))"
  "P s \<Longrightarrow> Null_Deref \<notin> bad \<or> located c \<Longrightarrow> P (snd (modbusReconnect E c s))"
proof -
  have tcp: "P s \<Longrightarrow> Null_Deref \<notin> bad \<or> ipAdress c \<noteq> None \<Longrightarrow> P (snd (snd (modbusConnect_tcp E c s)))" for c
    by (simp add: modbusConnect_tcp_def modbus_strerror_def Let_def split_beta kept_checkServer split: option.splits)
  have rtu: "P s \<Longrightarrow> Null_Deref \<notin> bad \<or> parity c \<noteq> None \<Longrightarrow> P (snd (snd (modbusConnect_rtu E c s)))" for c
    by (simp add: modbusConnect_rtu_def modbus_strerror_def Let_def split_beta kept_null split: option.splits)
  show "P s \<Longrightarrow> Null_Deref \<notin> bad \<or> located c \<Longrightarrow> P (snd (snd (modbusConnect E c s)))"
    using tcp [of "c\<lparr>mb_context := None\<rparr>"] rtu [of "c\<lparr>mb_context := None\<rparr>"]
    by (auto simp: modbusConnect_def located_def split: ModbusProtocolType.splits)
  show "P s \<Longrightarrow> P (snd (snd (modbusReceiveData E c s)))"
    by (simp add: modbusReceiveData_def modbus_strerror_def Let_def split_beta split: option.splits ModbusProtocolType.splits)
  show "P s \<Longrightarrow> Null_Deref \<notin> bad \<or> located c \<Longrightarrow> P (snd (modbusReconnect E c s))"
    by (auto simp: modbusReconnect_def modbus_strerror_def located_def Let_def split_beta kept_checkServer
        split: option.splits ModbusProtocolType.splits)
qed

lemma kept_opc [simp]:
  "P s \<Longrightarrow> Null_Deref \<notin> bad \<or> opc_memory E \<Longrightarrow> P (snd (snd (opcConnect E srv sec md uri cert key s)))"
proof -
  have conf: "P s \<Longrightarrow> Null_Deref \<notin> bad \<or> h \<noteq> None \<Longrightarrow> P (snd (opc_configure E h sec md uri cert key s))" for h s
    by (auto simp: opc_configure_def Let_def split_beta split: option.splits)
  show "P s \<Longrightarrow> Null_Deref \<notin> bad \<or> opc_memory E \<Longrightarrow> P (snd (snd (opcConnect E srv sec md uri cert key s)))"
    by (auto simp: opcConnect_def opc_memory_def ext_new_def Let_def split_beta conf split: option.splits)
qed

section \<open>Configuration\<close>

lemma kept_need [simp]:
  "P s \<Longrightarrow> Null_Deref \<notin> bad \<or> el \<noteq> None \<Longrightarrow> P (snd (need_string E cfg el k l t s))"
  "P s \<Longrightarrow> Null_Deref \<notin> bad \<or> el \<noteq> None \<Longrightarrow> P (snd (need_int E cfg el k l t s))"
  by (simp_all add: need_string_def need_int_def Let_def split_beta split: option.splits)

text \<open>A chain of lookups, each ending the function when it fails.\<close>

lemma kept_bind:
  assumes "P s" and "Null_Deref \<notin> bad \<or> el \<noteq> None" and "\<And>x s'. P s' \<Longrightarrow> P (snd (snd (f x s')))"
  shows "P (snd (snd (case need_string E cfg el k l t s of (v, s') \<Rightarrow>
      (case v of None \<Rightarrow> (p, q, s') | Some x \<Rightarrow> f x s'))))"
  using assms by (simp add: split_beta split: option.splits)

lemma kept_bind_int:
  assumes "P s" and "Null_Deref \<notin> bad \<or> el \<noteq> None" and "\<And>x s'. P s' \<Longrightarrow> P (snd (snd (f x s')))"
  shows "P (snd (snd (case need_int E cfg el k l t s of (v, s') \<Rightarrow>
      (case v of None \<Rightarrow> (p, q, s') | Some x \<Rightarrow> f x s'))))"
  using assms by (simp add: split_beta split: option.splits)

lemmas kept_binds = kept_bind kept_bind_int

lemma kept_read_common: "P s \<Longrightarrow> Null_Deref \<notin> bad \<or> elements_exist cfg \<Longrightarrow> P (snd (snd (read_common E cfg m s)))"
  by (auto simp: read_common_def elements_exist_def Let_def split_beta split: option.splits)

lemma kept_read_opc_ua: "P s \<Longrightarrow> Null_Deref \<notin> bad \<or> elements_exist cfg \<Longrightarrow> P (snd (snd (read_opc_ua E cfg s)))"
proof (cases "config_lookup cfg ''opc_ua''")
  case (Some n)
  assume "P s" and "Null_Deref \<notin> bad \<or> elements_exist cfg"
  with Some have "P s" "Null_Deref \<notin> bad \<or> config_setting_get_elem cfg n 0 \<noteq> None" by (auto simp: elements_exist_def)
  then show ?thesis
    unfolding read_opc_ua_def Let_def Some option.case by (intro kept_binds) (auto split: option.splits)
qed (simp add: read_opc_ua_def)

lemma kept_lookup_client:
  "P s \<Longrightarrow> Null_Deref \<notin> bad \<or> el \<noteq> None \<Longrightarrow> P (snd (snd (lookup_client E cfg el i c s)))"
  unfolding lookup_client_def Let_def by (intro kept_binds) simp_all+

lemma kept_parse_client: "P s \<Longrightarrow> P (snd (snd (parse_client E r c s)))"
  by (simp only: parse_client_def Let_def split: option.splits)
    (intro conjI allI impI; simp only: fst_conv snd_conv; (rule kept_LOG_E)?; assumption)

lemma kept_read_modbus:
  "P s \<Longrightarrow> Null_Deref \<notin> bad \<or> el \<noteq> None \<Longrightarrow> P (snd (snd (read_modbus E cfg el dt c s)))"
proof -
  assume el: "Null_Deref \<notin> bad \<or> el \<noteq> None"
  have 1: "P s \<Longrightarrow> P (snd (snd (read_modbus_tcp E cfg el c s)))" for c s
    unfolding read_modbus_tcp_def Let_def using el by (intro kept_binds) simp_all
  have 2: "P s \<Longrightarrow> P (snd (snd (read_modbus_rtu E cfg el c s)))" for c s
    unfolding read_modbus_rtu_def Let_def using el by (intro kept_binds) simp_all
  have 3: "P s \<Longrightarrow> P (snd (snd (set_registers E dt c s)))" for c s
    by (simp add: set_registers_def split: option.splits)
  have 4: "P s \<Longrightarrow> P (snd (snd (read_modbus_address E cfg el ty c s)))" for ty c s
    by (simp add: read_modbus_address_def 1 2)
  show "P s \<Longrightarrow> P (snd (snd (read_modbus E cfg el dt c s)))"
    unfolding read_modbus_def Let_def using el by (intro kept_binds) (simp_all add: split_beta 3 4)
qed

lemma kept_read_opc: "P s \<Longrightarrow> Null_Deref \<notin> bad \<or> el \<noteq> None \<Longrightarrow> P (snd (snd (read_opc E cfg el oc c s)))"
  unfolding read_opc_def Let_def by (cases oc) (simp_all only: option.case, simp, intro kept_binds, simp_all)

lemma kept_init_client: "P s \<Longrightarrow> Null_Deref \<notin> bad \<or> el \<noteq> None \<Longrightarrow> P (snd (snd (init_client E cfg el oc i c s)))"
  by (simp add: init_client_def Let_def split_beta kept_lookup_client kept_parse_client kept_read_modbus kept_read_opc
      split: option.splits ClientProtocol.splits)

lemma kept_init_clients:
  "P s \<Longrightarrow> Null_Deref \<notin> bad \<or> (\<forall>j. i \<le> j \<and> j < i + int n \<longrightarrow> config_setting_get_elem cfg cc j \<noteq> None) \<Longrightarrow>
     P (snd (snd (init_clients E cfg cc oc n i m s)))"
proof (induction n arbitrary: i m s)
  case (Suc n)
  from Suc.prems(2) have "Null_Deref \<notin> bad \<or> config_setting_get_elem cfg cc i \<noteq> None"
    "Null_Deref \<notin> bad \<or> (\<forall>j. i + 1 \<le> j \<and> j < i + 1 + int n \<longrightarrow> config_setting_get_elem cfg cc j \<noteq> None)" by auto
  with Suc show ?case by (simp add: Let_def split_beta kept_init_client)
qed simp

lemma kept_init_config: "P s \<Longrightarrow> Null_Deref \<notin> bad \<or> elements_exist cfg \<Longrightarrow> P (snd (snd (manager_init_config E cfg m s)))"
proof -
  assume s: "P s" and el: "Null_Deref \<notin> bad \<or> elements_exist cfg"
  have "P (snd (snd (read_clients E cfg oc m s)))" if "P s" for oc m s
  proof (cases "config_lookup cfg ''clients''")
    case None
    with that show ?thesis by (simp add: read_clients_def)
  next
    case (Some cc)
    with el have "Null_Deref \<notin> bad
        \<or> (\<forall>j. 0 \<le> j \<and> j < 0 + int (nat (config_setting_length cfg cc)) \<longrightarrow> config_setting_get_elem cfg cc j \<noteq> None)"
      by (auto simp: elements_exist_def)
    from kept_init_clients [OF that this] that show ?thesis by (simp add: read_clients_def Some Let_def)
  qed
  with s el show ?thesis
    by (simp add: manager_init_config_def Let_def split_beta kept_read_common kept_read_opc_ua)
qed

text \<open>Connecting all clients: each needs its address, and the OPC UA client object its memory.\<close>

lemma kept_modbus_connecting:
  "P s \<Longrightarrow> Null_Deref \<notin> bad \<or> located (modbus (client m i)) \<Longrightarrow> P (snd (snd (connect_modbus E i m s)))"
  by (simp add: connect_modbus_def Let_def split_beta split: ModbusProtocolType.splits)

lemma kept_opc_connecting: "P s \<Longrightarrow> Null_Deref \<notin> bad \<or> opc_memory E \<Longrightarrow> P (snd (snd (connect_opc E i m s)))"
  by (simp add: connect_opc_def Let_def split_beta)

lemma kept_connect_loop:
  "P s \<Longrightarrow> Null_Deref \<notin> bad \<or> sized m \<and> 0 \<le> i \<and> i + int n \<le> clientsCnt m \<and> opc_memory E \<and> located_table m \<Longrightarrow>
     P (snd (snd (connect_loop E n i a b c m s)))"
proof (induction n arbitrary: i a b c m s)
  case (Suc n)
  let ?ok = "\<lambda>m. Null_Deref \<notin> bad \<or> sized m \<and> 0 \<le> i + 1 \<and> i + 1 + int n \<le> clientsCnt m \<and> opc_memory E \<and> located_table m"
  have kept: "?ok m'" if "sized m \<Longrightarrow> in_range m i \<Longrightarrow> same_table m m'" for m'
    using that same_table_sized [of m m'] same_table_located [of m m'] Suc.prems(2) by (auto simp: same_table_def in_range_def)
  show ?case
  proof (cases "protocol (client m i)")
    case CP_MODBUS
    obtain ok m1 s1 where 1: "connect_modbus E i m s = (ok, m1, s1)" by (metis prod_cases3)
    have "P s1" using kept_modbus_connecting [of s m i] Suc.prems CP_MODBUS 1 by (auto simp: located_table_def in_range_def)
    moreover have "?ok m1" using connect_modbus_table(1) [OF 1] by (intro kept) simp
    ultimately show ?thesis using Suc.IH [of s1 m1 "i + 1"] CP_MODBUS by (simp add: 1)
  next
    case CP_OPC
    obtain ok m1 s1 where 1: "(if b then connect_opc E i m s else (c, m, s)) = (ok, m1, s1)" by (metis prod_cases3)
    let ?s = "if b then (if ok then log_info E (''Client: '' @ name_of m1 i @ '', connected OK'') s1
      else cm_LOG_E E 581 ''manager_init_connections'' (''Client: '' @ name_of m1 i @ '', connection FAIL'') s1) else s1"
    let ?m = "put_client i ((client m1 i)\<lparr>connected := ok\<rparr>) m1"
    have "P s1" using 1 kept_opc_connecting [of s i m] Suc.prems by (auto split: if_splits)
    then have "P ?s" by simp
    moreover have "m1 = m\<lparr>opc_handle := opc_handle m1\<rparr>" using 1 connect_opc_sel(1) [of E i m s] by (auto split: if_splits)
    then have "same_table m m1" by (metis same_table_handle same_table_refl)
    then have "?ok ?m" by (intro kept) (simp add: same_table_put static_def)
    ultimately show ?thesis using Suc.IH [of ?s ?m "i + 1"] CP_OPC by (simp add: 1 Let_def)
  qed
qed simp

lemma kept_init_connections:
  "P s \<Longrightarrow> Null_Deref \<notin> bad \<or> sized m \<and> 0 \<le> clientsCnt m \<and> opc_memory E \<and> located_table m \<Longrightarrow>
     P (snd (snd (manager_init_connections E m s)))"
  unfolding manager_init_connections_def by (rule kept_connect_loop) auto

lemma kept_send_interval: "P s \<Longrightarrow> P (snd (manager_get_send_interval E m s))"
  by (simp add: manager_get_send_interval_def)

lemma kept_init_finish: "P s \<Longrightarrow> P (snd (init_finish E m s))"
  by (simp add: init_finish_def)

end

section \<open>Predicates that do not see the logger either\<close>

locale steady = unobserved P for P +
  assumes logger [simp]: "P (s\<lparr>log_global_set := g\<rparr>) = P s" "P (s\<lparr>logFileFullName := n\<rparr>) = P s"
      "P (s\<lparr>stringCounter := k\<rparr>) = P s"
    and ub [simp]: "P s \<Longrightarrow> x \<notin> {Out_Of_Bounds, Uninitialised} \<Longrightarrow> P (ub x s)"
begin

lemma kept_ub [simp]: "P s \<Longrightarrow> x \<notin> {Out_Of_Bounds, Uninitialised} \<Longrightarrow> P (ub_if b x s)"
  by (simp add: ub_if_def)

lemma kept_set_log [simp]: "P (set_log f s) = P s" "P (cleanup_internal s) = P s"
  by (simp_all add: set_log_def cleanup_internal_def split: option.splits)

lemma kept_call [simp]: "P s \<Longrightarrow> P (call_logger_func E l t s)"
proof -
  have "P s \<Longrightarrow> P (print_to_file E l t s)" for s
    by (simp add: print_to_file_def Let_def split_beta split: option.splits)
  then show "P s \<Longrightarrow> P (call_logger_func E l t s)"
    by (simp add: call_logger_func_def split: option.splits log_target.splits)
qed

lemma kept_reopen [simp]: "P (snd (archive_reopen E z fl s)) = P s"
  by (simp add: archive_reopen_def Let_def split_beta)

end

sublocale steady \<subseteq> logger?: logging P E for E
  by unfold_locales simp_all

sublocale steady \<subseteq> any_env?: resilient P E "{Out_Of_Bounds, Uninitialised}" for E
  by unfold_locales simp_all

context steady
begin

lemma kept_logger_init: "P s \<Longrightarrow> P (snd (logger_init E t s))"
proof -
  have 1: "P (snd (logger_set_log_file E t s)) = P s" for t s
    by (simp add: logger_set_log_file_def Let_def split_beta split: option.splits)
  show "P s \<Longrightarrow> P (snd (logger_init E t s))"
    by (simp add: logger_init_def logger_set_log_level_def Let_def split_beta 1)
qed

lemma kept_main_start: "P s \<Longrightarrow> P (snd (main_start E arg junk s))"
  by (simp add: main_start_def ext_def ext_str_def time_c_def mn_LOG_E_def Let_def split_beta kept_logger_init)

end

end
