(* ===== verification/TsSafety.thy ===== *)
theory TsSafety
  imports TsFrame
begin

text \<open>
  Which undefined behaviour a run of the module can begin with: an element outside an array and an
  uninitialised variable never come first.
\<close>

section \<open>Runs without wild accesses\<close>

text \<open>No wild access has come first; and a run from \<open>s\<close> to \<open>t\<close> that does not begin with one.\<close>

definition tame :: "'a os_scheme \<Rightarrow> bool" where
  "tame s \<longleftrightarrow> fault s \<notin> {Some Out_Of_Bounds, Some Uninitialised}"

definition calm :: "'a os_scheme \<Rightarrow> 'b os_scheme \<Rightarrow> bool" where
  "calm s t \<longleftrightarrow> (if fault s = None then tame t else fault t = fault s)"

lemma calm_refl [simp]: "calm s s"
  by (simp add: calm_def tame_def)

lemma calm_trans [trans]: "calm s t \<Longrightarrow> calm t u \<Longrightarrow> calm s u"
  by (auto simp: calm_def tame_def split: if_splits)

lemma calm_tame: "calm s t \<Longrightarrow> tame s \<Longrightarrow> tame t"
  by (auto simp: calm_def tame_def split: if_splits)

lemma calm_clean: "calm s t \<Longrightarrow> fault t = None \<Longrightarrow> fault s = None"
  by (auto simp: calm_def split: if_splits)

interpretation calm: steady "calm u"
  by unfold_locales (auto simp: calm_def tame_def ub_def split: option.splits if_splits)

lemma calm_emit [simp]: "calm u (emit c s) = calm u s"
  by (simp add: calm_def tame_def)

lemma calm_ub_if: "calm u s \<Longrightarrow> (fault s = None \<Longrightarrow> b \<Longrightarrow> k \<notin> {Out_Of_Bounds, Uninitialised}) \<Longrightarrow> calm u (ub_if b k s)"
  by (auto simp: calm_def tame_def ub_if_def ub_def split: option.splits if_splits)

section \<open>Texts stay inside their arrays\<close>

text \<open>A text value has its terminator.\<close>

definition cd_short :: "ClientData \<Rightarrow> bool" where
  "cd_short cd \<longleftrightarrow> (cd_dataType cd = MDT_CHAR \<longrightarrow> length (data_char cd) < MAX_OPC_STR_LEN)"

text \<open>No string is longer than the address space: the top byte of its length is zero.\<close>

definition strings_fit :: "env \<Rightarrow> bool" where
  "strings_fit E \<longleftrightarrow> (\<forall>h. \<forall>r \<in> set (results (ua_read_r E h)). \<forall>n p t.
     dv_value r = Some (UA_String n p t) \<longrightarrow> unat n < 2 ^ 56)"

lemma word_chars_length [simp]: "length (word_chars big w) = 8"
  by (simp add: word_chars_def Let_def)

lemma word_chars_NUL: "unat w < 2 ^ 56 \<Longrightarrow> NUL \<in> set (word_chars big w)"
proof -
  assume "unat w < 2 ^ 56"
  then have "char_of (unat w div 256 ^ 7 mod 256) = NUL" by (simp add: NUL_def char_of_def)
  then have "NUL \<in> (\<lambda>i. char_of (unat w div 256 ^ i mod 256)) ` {0..<8}"
    by (intro image_eqI [where x = 7]) simp_all
  then show ?thesis by (simp add: word_chars_def Let_def)
qed

lemma read_string_fits:
  assumes "strings_fit E" and "UA_Client_readAttribute (ua_read_r E h) = (st, Some (UA_String n p t))"
  shows "unat n < 2 ^ 56"
proof -
  let ?r = "results (ua_read_r E h)"
  have "length ?r = 1" "dv_value (?r ! 0) = Some (UA_String n p t)"
    using assms(2) by (auto simp: UA_Client_readAttribute_def Let_def UA_STATUSCODE_BADUNEXPECTEDERROR_def
        UA_STATUSCODE_GOOD_def split: if_splits)
  then show ?thesis using assms(1) unfolding strings_fit_def by (metis nth_mem zero_less_one)
qed

lemma calm_opc_convert:
  assumes "calm u s" and "\<And>n p t. v = UA_String n p t \<Longrightarrow> unat n < 2 ^ 56"
  shows "calm u (snd (snd (opc_convert E c v cd s)))"
proof -
  have "v = UA_String n p t \<Longrightarrow> NUL \<in> set (ua_string_bytes E n p)" for n p t
    using word_chars_NUL assms(2) by (simp add: ua_string_bytes_def)
  then show ?thesis
    using assms(1) by (simp add: opc_convert_def opc_store_int_def Let_def split: DataType.splits ua_value.splits)
qed

lemma length_takeWhile_less: "x \<in> set xs \<Longrightarrow> length (takeWhile (\<lambda>c. c \<noteq> x) xs) < length xs"
  by (induction xs) auto

lemma opc_convert_short:
  "oc_dataType c = cd_dataType cd \<Longrightarrow> cd_short (fst (snd (opc_convert E c v cd s)))"
proof -
  have "length (strncpy_c (ua_string_bytes E n p) MAX_OPC_STR_LEN) < MAX_OPC_STR_LEN" for n p
    using length_takeWhile_le [of "\<lambda>c. c \<noteq> NUL" "ua_string_bytes E n p"]
    by (simp add: strncpy_c_def ua_string_bytes_def MAX_OPC_STR_LEN_def)
  then show "oc_dataType c = cd_dataType cd \<Longrightarrow> ?thesis"
    by (simp add: opc_convert_def opc_store_int_def cd_short_def Let_def MAX_OPC_STR_LEN_def
        split: DataType.splits ua_value.splits)
qed

lemma opc_variant_calm:
  assumes "strings_fit E" and v: "v = snd (UA_Client_readAttribute (ua_read_r E hh))"
  shows "calm u s \<Longrightarrow> calm u (snd (snd (opc_convert_variant E c v cd s)))"
    and "oc_dataType c = cd_dataType cd \<Longrightarrow> fault (snd (snd (opc_convert_variant E c v cd s))) = None
      \<Longrightarrow> cd_short (fst (snd (opc_convert_variant E c v cd s)))"
proof -
  have "v = Some (UA_String n p t) \<Longrightarrow> unat n < 2 ^ 56" for n p t
    using read_string_fits [OF assms(1), of hh] v by (metis prod.collapse)
  then show "calm u s \<Longrightarrow> calm u (snd (snd (opc_convert_variant E c v cd s)))"
    using calm_opc_convert [of u s _ E c cd] by (auto simp: opc_convert_variant_def split: option.splits)
  show "oc_dataType c = cd_dataType cd \<Longrightarrow> fault (snd (snd (opc_convert_variant E c v cd s))) = None
      \<Longrightarrow> cd_short (fst (snd (opc_convert_variant E c v cd s)))"
    using opc_convert_short [of c cd] by (auto simp: opc_convert_variant_def split: option.splits)
qed

lemma opc_receive_calm:
  assumes "strings_fit E" and "opcReceiveData E c cd h s = (ok, cd', s')"
  shows "calm u s \<Longrightarrow> calm u s'" and "ok \<Longrightarrow> fault s' = None \<Longrightarrow> cd_short cd'"
proof -
  note fits = opc_variant_calm [OF assms(1) refl]
  have bad: "UA_STATUSCODE_BADCOMMUNICATIONERROR \<noteq> UA_STATUSCODE_GOOD"
    "UA_STATUSCODE_BADCOMMUNICATIONERROR \<noteq> UA_STATUSCODE_BADDATATYPEIDUNKNOWN"
    by (simp_all add: UA_STATUSCODE_BADCOMMUNICATIONERROR_def UA_STATUSCODE_GOOD_def
        UA_STATUSCODE_BADDATATYPEIDUNKNOWN_def)
  show "calm u s \<Longrightarrow> calm u s'"
    using assms(2) unfolding opcReceiveData_def Let_def split_beta
    by (auto simp: fits split: if_splits option.splits)
  show "ok \<Longrightarrow> fault s' = None \<Longrightarrow> cd_short cd'"
    using assms(2) bad unfolding opcReceiveData_def Let_def split_beta
    by (auto simp: fits split: if_splits option.splits)
qed

section \<open>Receiving\<close>

lemma modbus_data_calm:
  assumes "modbusToClientData E d dt cd s = (ok, cd', s')"
  shows "calm u s \<Longrightarrow> calm u s'" and "ok \<Longrightarrow> cd_short cd'"
  using assms by (auto simp: modbusToClientData_def cd_short_def Let_def split: DataType.splits)

lemma reconnect_calm:
  "in_range m i \<Longrightarrow> calm u s \<Longrightarrow> calm u (snd (snd (manager_reconnect E i m s)))"
proof -
  have 1: "calm u s \<Longrightarrow> calm u (snd (snd (connect_opc E i m s)))" for m s
    by (simp add: connect_opc_def Let_def split_beta)
  show "in_range m i \<Longrightarrow> calm u s \<Longrightarrow> calm u (snd (snd (manager_reconnect E i m s)))"
    by (simp add: manager_reconnect_def in_range_def Let_def split_beta 1 split: ClientProtocol.splits)
qed

lemma reconnect_run:
  assumes "manager_reconnect E i m s = (ok, m', s')" and "in_range m i" and "calm u s"
  shows "calm u s'"
  using reconnect_calm [OF assms(2,3), of E] unfolding assms(1) by simp

lemma receive_simple_calm:
  assumes "strings_fit E" and "in_range m i" and "manager_receive_data_simple E i cd m s = (ok, cd', m', s')"
  shows "calm u s \<Longrightarrow> calm u s'" and "ok \<Longrightarrow> fault s' = None \<Longrightarrow> cd_short cd'"
proof -
  obtain got d s1 where 1: "modbusReceiveData E (modbus (client m i)) s = (got, d, s1)" by (metis prod_cases3)
  obtain ok2 cd2 s2 where 2: "modbusToClientData E d (cs_dataType (client m i)) cd s1 = (ok2, cd2, s2)"
    by (metis prod_cases3)
  obtain ok3 cd3 s3 where 3: "opcReceiveData E (opc (client m i)) cd (opc_handle m) s = (ok3, cd3, s3)"
    by (metis prod_cases3)
  have r: "\<not> (i < 0 \<or> clientsCnt m - 1 < i)" using assms(2) by (simp add: in_range_def)
  have c1: "calm u s \<Longrightarrow> calm u s1" using calm.kept_modbus(2) [of u s E "modbus (client m i)"] by (simp add: 1)
  note run = assms(3) [unfolded manager_receive_data_simple_def Let_def 1 2 3 prod.case if_not_P [OF r]]
  show "calm u s \<Longrightarrow> calm u s'"
    using run c1 modbus_data_calm(1) [OF 2] opc_receive_calm(1) [OF assms(1) 3]
    by (auto split: if_splits ClientProtocol.splits)
  show "ok \<Longrightarrow> fault s' = None \<Longrightarrow> cd_short cd'"
    using run modbus_data_calm(2) [OF 2] opc_receive_calm(2) [OF assms(1) 3]
    by (auto split: if_splits ClientProtocol.splits)
qed

lemma in_range_status [simp]: "in_range (setConnectStatus i b m) j = in_range m j"
  by (simp add: in_range_def setConnectStatus_def split: ClientProtocol.splits)

lemma in_range_handle [simp]: "in_range (m\<lparr>opc_handle := h\<rparr>) j = in_range m j"
  by (simp add: in_range_def)

lemma in_range_reconnect: "manager_reconnect E i m s = (re, m', s') \<Longrightarrow> in_range m' j = in_range m j"
  by (auto simp: manager_reconnect_def connect_opc_def Let_def split: prod.splits if_splits ClientProtocol.splits)

lemma in_range_simple:
  "manager_receive_data_simple E i cd m s = (ok, cd', m', s') \<Longrightarrow> in_range m' j = in_range m j"
  by (auto simp: manager_receive_data_simple_def Let_def split: prod.splits if_splits ClientProtocol.splits)

lemma receive_again_calm:
  assumes "strings_fit E" and "in_range m i" and "receive_again E i cd m s = (ok, cd', m', s')"
  shows "calm u s \<Longrightarrow> calm u s'" and "ok \<Longrightarrow> fault s' = None \<Longrightarrow> cd_short cd'"
proof -
  let ?m = "setConnectStatus i False m"
  let ?s = "cm_LOG_E E 768 ''manager_receive_data''
    (''Error receiving data, client: '' @ name_of m i @ '', try to reconnect'') s"
  obtain re m1 s1 where 1: "manager_reconnect E i ?m ?s = (re, m1, s1)" by (metis prod_cases3)
  obtain ok2 cd2 m2 s2 where 2: "manager_receive_data_simple E i cd m1 s1 = (ok2, cd2, m2, s2)" by (metis prod_cases4)
  have r1: "in_range m1 i" using in_range_reconnect [OF 1] assms(2) by simp
  have c1: "calm u s \<Longrightarrow> calm u s1"
    by (rule reconnect_run [OF 1]) (simp_all only: in_range_status assms(2) calm.kept_LOG_E)
  note run = assms(3) [unfolded receive_again_def Let_def 1 prod.case 2]
  show "calm u s \<Longrightarrow> calm u s'"
    using run c1 receive_simple_calm(1) [OF assms(1) r1 2] by (auto split: if_splits)
  show "ok \<Longrightarrow> fault s' = None \<Longrightarrow> cd_short cd'"
    using run receive_simple_calm(2) [OF assms(1) r1 2] by (auto split: if_splits)
qed

lemma ensure_calm:
  assumes "in_range m i" and "ensure_connected E i m s = (ok, m', s')"
  shows "calm u s \<Longrightarrow> calm u s'" and "in_range m' i"
proof -
  let ?s = "cm_LOG_E E 755 ''manager_receive_data''
    (''Client: '' @ name_of m i @ '' not connected, try to reconnect'') s"
  obtain re m1 s1 where 1: "manager_reconnect E i m ?s = (re, m1, s1)" by (metis prod_cases3)
  note run = assms(2) [unfolded ensure_connected_def Let_def 1 prod.case]
  have "calm u s \<Longrightarrow> calm u s1"
    by (rule reconnect_run [OF 1 assms(1)]) (simp only: calm.kept_LOG_E)
  then show "calm u s \<Longrightarrow> calm u s'" using run by (auto split: if_splits)
  show "in_range m' i" using run in_range_reconnect [OF 1] assms(1) by (auto split: if_splits)
qed

lemma receive_calm:
  assumes "strings_fit E" and "in_range m i" and "manager_receive_data E i cd m s = (ok, cd', m', s')"
  shows "calm u s \<Longrightarrow> calm u s'" and "ok \<Longrightarrow> fault s' = None \<Longrightarrow> cd_short cd'"
proof -
  obtain up m1 s1 where 1: "ensure_connected E i m s = (up, m1, s1)" by (metis prod_cases3)
  obtain ok2 cd2 m2 s2 where 2: "manager_receive_data_simple E i cd m1 s1 = (ok2, cd2, m2, s2)" by (metis prod_cases4)
  obtain ok3 cd3 m3 s3 where 3: "receive_again E i cd2 m2 s2 = (ok3, cd3, m3, s3)" by (metis prod_cases4)
  note r1 = ensure_calm(2) [OF assms(2) 1]
  have r2: "in_range m2 i" using in_range_simple [OF 2] r1 by simp
  have r: "\<not> (i < 0 \<or> clientsCnt m - 1 < i)" using assms(2) by (simp add: in_range_def)
  note run = assms(3) [unfolded manager_receive_data_def Let_def if_not_P [OF r] 1 prod.case 2 3]
  note c = ensure_calm(1) [OF assms(2) 1] receive_simple_calm(1) [OF assms(1) r1 2] receive_again_calm(1) [OF assms(1) r2 3]
  show "calm u s \<Longrightarrow> calm u s'" using run c by (auto split: if_splits)
  show "ok \<Longrightarrow> fault s' = None \<Longrightarrow> cd_short cd'"
    using run receive_simple_calm(2) [OF assms(1) r1 2] receive_again_calm(2) [OF assms(1) r2 3] by (auto split: if_splits)
qed

section \<open>Polling\<close>

text \<open>The texts kept in the counters and in the message have their terminators.\<close>

definition texts_short :: "poll_t \<Rightarrow> bool" where
  "texts_short p \<longleftrightarrow> (\<forall>ci \<in> set (cnt p). cd_short (currentData ci))
     \<and> (\<forall>d \<in> set (mqtt_data p). length (ch_data d) < MAX_OPC_STR_LEN)"

lemma texts_short_update [simp]:
  "texts_short (p\<lparr>mgr := m\<rparr>) = texts_short p" "texts_short (p\<lparr>clientData := cd\<rparr>) = texts_short p"
  by (simp_all add: texts_short_def)

lemma update_info_calm:
  "update_info E ct dt cd ci s = (ok, ci', s') \<Longrightarrow>
     (calm u s \<longrightarrow> calm u s') \<and> (currentData ci' = cd \<or> currentData ci' = currentData ci)"
proof -
  have 1: "calm u s \<Longrightarrow> calm u (snd (int_delta a b s))" for a b s
    by (simp add: int_delta_def)
  show "update_info E ct dt cd ci s = (ok, ci', s') \<Longrightarrow> ?thesis"
    using 1 unfolding update_info_def update_difference_def update_not_100_def update_cumul_def Let_def split_beta
    by (auto split: CounterType.splits DataType.splits if_splits)
qed

lemma poll_wf_counter:
  assumes "poll_wf p" and "in_range (mgr p) i"
  shows "innerIdx (client (mgr p) i) = i" "has_counter i" "nat i < length (cnt p)"
  using poll_wf_client [OF assms] assms by (auto simp: poll_wf_def in_range_def has_counter_def table_wf_def sized_def)

lemma texts_short_old: "texts_short p \<Longrightarrow> nat i < length (cnt p) \<Longrightarrow> cd_short (currentData (info (cnt p) i))"
  by (simp add: texts_short_def info_def)

lemma update_stage_calm:
  assumes "poll_wf p" and "in_range (mgr p) i" and "update_stage E l i p s = (p', s')"
  shows "calm u s \<Longrightarrow> calm u s'" and "clientData p' = clientData p"
    and "texts_short p \<Longrightarrow> cd_short (clientData p) \<Longrightarrow> texts_short p'"
proof -
  let ?c = "client (mgr p) i"
  note i = poll_wf_counter [OF assms(1,2)]
  obtain ok ci s1 where 1: "update_info E (counter ?c) (cs_dataType ?c) (clientData p) (info (cnt p) i)
      (ub_if (\<not> has_counter i) Out_Of_Bounds s) = (ok, ci, s1)"
    by (metis prod_cases3)
  note u = update_info_calm [OF 1, of u]
  have put: "texts_short (p\<lparr>cnt := (cnt p)[nat i := ci]\<rparr>)" if "texts_short p" "cd_short (clientData p)"
  proof -
    have "cd_short (currentData ci)" using u texts_short_old [OF that(1) i(3)] that(2) by auto
    with that(1) set_update_subset_insert [of "cnt p" "nat i" ci] show ?thesis by (auto simp: texts_short_def)
  qed
  note run = assms(3) [unfolded update_stage_def counterUpdate_def Let_def i(1) 1 prod.case]
  show "calm u s \<Longrightarrow> calm u s'" using run u i(2) by (auto split: if_splits)
  show "clientData p' = clientData p" using run by (auto split: if_splits)
  show "texts_short p \<Longrightarrow> cd_short (clientData p) \<Longrightarrow> texts_short p'"
    using run put by (auto split: if_splits simp: texts_short_def)
qed

lemma get_stage_calm:
  assumes "poll_wf p" and "in_range (mgr p) i" and "get_stage E l i p s = (p', s')"
  shows "calm u s \<Longrightarrow> calm u s'" and "texts_short p' = texts_short p"
    and "texts_short p \<Longrightarrow> cd_short (clientData p) \<Longrightarrow> cd_short (clientData p')"
proof -
  let ?c = "client (mgr p) i"
  note i = poll_wf_counter [OF assms(1,2)]
  obtain ok cd s1 where 1: "counterGet E ?c (clientData p) (cnt p) s = (ok, cd, s1)" by (metis prod_cases3)
  have g: "calm u s \<Longrightarrow> calm u s1" "texts_short p \<Longrightarrow> cd_short (clientData p) \<Longrightarrow> cd_short cd"
    using 1 i texts_short_old [OF _ i(3)] unfolding counterGet_def Let_def deliver_def
    by (auto simp: cd_short_def split: CounterType.splits DataType.splits)
  note run = assms(3) [unfolded get_stage_def Let_def 1 prod.case]
  show "calm u s \<Longrightarrow> calm u s'" using run g by (auto split: if_splits)
  show "texts_short p' = texts_short p" using run by (auto split: if_splits)
  show "texts_short p \<Longrightarrow> cd_short (clientData p) \<Longrightarrow> cd_short (clientData p')" using run g by (auto split: if_splits)
qed

lemma computation_stage_calm:
  assumes "computation_stage E l i p s = (p', s')"
  shows "calm u s \<Longrightarrow> calm u s'" and "texts_short p' = texts_short p"
    and "cd_short (clientData p) \<Longrightarrow> cd_short (clientData p')"
proof -
  let ?c = "client (mgr p) i"
  obtain ok cd s1 where 1: "client_computation E ?c (clientData p) s = (ok, cd, s1)" by (metis prod_cases3)
  have g: "(calm u s \<longrightarrow> calm u s1) \<and> (cd_short (clientData p) \<longrightarrow> cd_short cd)"
    using 1 unfolding client_computation_def Let_def
    by (auto simp: cd_short_def split: DataType.splits if_splits)
  note run = assms [unfolded computation_stage_def Let_def 1 prod.case]
  show "calm u s \<Longrightarrow> calm u s'" using run g by (auto split: if_splits)
  show "texts_short p' = texts_short p" using run by (auto split: if_splits)
  show "cd_short (clientData p) \<Longrightarrow> cd_short (clientData p')" using run g by (auto split: if_splits)
qed

lemma client_to_mqtt_calm:
  assumes "client_to_mqtt E c cd d s = (ok, d', s')"
  shows "calm u s \<Longrightarrow> (fault s = None \<Longrightarrow> cd_short cd) \<Longrightarrow> calm u s'"
    and "cd_short cd \<Longrightarrow> length (ch_data d) < MAX_OPC_STR_LEN \<Longrightarrow> length (ch_data d') < MAX_OPC_STR_LEN"
proof -
  have "cd_dataType cd = MDT_CHAR \<Longrightarrow> calm u s \<Longrightarrow> (fault s = None \<Longrightarrow> cd_short cd) \<Longrightarrow>
      calm u (ub_if (debug_on s \<and> length (data_char cd) = MAX_OPC_STR_LEN) Out_Of_Bounds s)"
    by (rule calm_ub_if) (auto simp: cd_short_def)
  then show "calm u s \<Longrightarrow> (fault s = None \<Longrightarrow> cd_short cd) \<Longrightarrow> calm u s'"
    using assms unfolding client_to_mqtt_def Let_def
    by (auto simp: set_type_def ext_str_def split: DataType.splits)
  show "cd_short cd \<Longrightarrow> length (ch_data d) < MAX_OPC_STR_LEN \<Longrightarrow> length (ch_data d') < MAX_OPC_STR_LEN"
    using assms length_takeWhile_le [of "\<lambda>c. c \<noteq> NUL" "data_char cd"]
    unfolding client_to_mqtt_def Let_def cd_short_def
    by (auto simp: set_type_def strncpy_c_def ext_str_def split: DataType.splits)
qed

lemma convert_stage_calm:
  assumes "poll_wf p" and "in_range (mgr p) i" and "convert_stage E l i p s = (ok, p', s')"
  shows "calm u s \<Longrightarrow> (fault s = None \<Longrightarrow> cd_short (clientData p)) \<Longrightarrow> calm u s'"
    and "texts_short p \<Longrightarrow> cd_short (clientData p) \<Longrightarrow> texts_short p'"
proof -
  let ?c = "client (mgr p) i" and ?k = "nat (int SF_CLIENT_POS + i)"
  have i: "innerIdx ?c = i" using assms(1,2) by (rule poll_wf_client)
  have k: "\<not> (int SF_CLIENT_POS + i < 0 \<or> int mqtt_slots \<le> int SF_CLIENT_POS + i)" "?k < length (mqtt_data p)"
    using assms(1,2) by (auto simp: poll_wf_def in_range_def table_wf_def sized_def mqtt_slots_def)
  obtain ok1 d s1 where 1: "client_to_mqtt E ?c (clientData p) (mqtt_data p ! ?k) s = (ok1, d, s1)"
    by (metis prod_cases3)
  note c = client_to_mqtt_calm [OF 1]
  note run = assms(3) [unfolded convert_stage_def Let_def i ub_if_def if_not_P [OF k(1)] 1 prod.case]
  show "calm u s \<Longrightarrow> (fault s = None \<Longrightarrow> cd_short (clientData p)) \<Longrightarrow> calm u s'"
    using run c(1) by (auto split: if_splits)
  assume t: "texts_short p" "cd_short (clientData p)"
  then have "length (ch_data d) < MAX_OPC_STR_LEN" using c(2) k(2) by (simp add: texts_short_def)
  then have "texts_short (p\<lparr>mqtt_data := (mqtt_data p)[?k := d]\<rparr>)"
    using t set_update_subset_insert [of "mqtt_data p" ?k d] by (auto simp: texts_short_def)
  then show "texts_short p'" using run by (auto split: if_splits)
qed

text \<open>
  The state between two operations: nothing wild has come first, and as long as nothing has gone
  wrong at all, the texts are short.
\<close>

definition sound :: "poll_t \<times> io \<Rightarrow> bool" where
  "sound x \<longleftrightarrow> tame (snd x) \<and> (fault (snd x) = None \<longrightarrow> texts_short (fst x))"

lemma poll_received_sound:
  assumes "poll_wf p" and "in_range (mgr p) i" and "sound (p, s)" and "fault s = None \<Longrightarrow> cd_short (clientData p)"
    and "poll_received E l i p s = (p', s')"
  shows "sound (p', s')"
proof -
  obtain p1 s1 where 1: "update_stage E (l + 11) i p s = (p1, s1)" by (metis surj_pair)
  obtain p2 s2 where 2: "get_stage E (l + 15) i p1 s1 = (p2, s2)" by (metis surj_pair)
  obtain p3 s3 where 3: "computation_stage E (l + 19) i p2 s2 = (p3, s3)" by (metis surj_pair)
  obtain ok p4 s4 where 4: "convert_stage E (l + 24) i p3 s3 = (ok, p4, s4)" by (metis prod_cases3)
  have w1: "poll_wf p1" "in_range (mgr p1) i"
    using touches_wf touches_range touches_update_stage [OF assms(1,2) 1] assms(1,2) by blast+
  have w2: "poll_wf p2" "in_range (mgr p2) i"
    using touches_wf touches_range touches_get_stage [OF 2] w1 by blast+
  have w3: "poll_wf p3" "in_range (mgr p3) i"
    using touches_wf touches_range touches_computation_stage [OF 3] w2 by blast+
  note a = update_stage_calm [OF assms(1,2) 1] and b = get_stage_calm [OF w1 2]
    and c = computation_stage_calm [OF 3] and d = convert_stage_calm [OF w3 4]
  have c3: "calm s s3" by (intro c(1) b(1) a(1) calm_refl)
  have short: "texts_short p3 \<and> cd_short (clientData p3)" if "fault s3 = None"
  proof -
    have "fault s = None" using calm_clean [OF c3 that] .
    then have "texts_short p" "cd_short (clientData p)" using assms(3,4) by (simp_all add: sound_def)
    with a(2,3) b(2,3) c(2,3) show ?thesis by simp
  qed
  have c4: "calm s3 s4" by (rule d(1)) (use short in simp_all)
  have "calm s s4" using c3 c4 by (rule calm_trans)
  moreover have "texts_short p4" if "fault s4 = None" using d(2) short calm_clean [OF c4 that] by blast
  moreover have "p' = p4" "calm s4 s'" using assms(5) by (auto simp: poll_received_def 1 2 3 4)
  ultimately show ?thesis
    using assms(3) calm_tame [of s s4] calm_tame [of s4 s'] calm_clean [of s4 s'] by (simp add: sound_def)
qed

lemma sound_calm: "sound (p, s) \<Longrightarrow> calm s s' \<Longrightarrow> sound (p, s')"
  using calm_tame [of s s'] calm_clean [of s s'] by (auto simp: sound_def)

lemma poll_missing_sound:
  assumes "poll_wf p" and "in_range (mgr p) i" and "sound (p, s)" and "poll_missing E i p s = (p', s')"
  shows "sound (p', s')"
proof -
  let ?p = "p\<lparr>clientData := ClientData_zero\<lparr>cd_dataType := cs_dataType (client (mgr p) i)\<rparr>\<rparr>"
  obtain p1 s1 where 1: "update_stage E 452 i ?p s = (p1, s1)" by (metis surj_pair)
  obtain p2 s2 where 2: "get_stage E 456 i p1 s1 = (p2, s2)" by (metis surj_pair)
  obtain ok p4 s4 where 4: "convert_stage E 461 i p2 s2 = (ok, p4, s4)" by (metis prod_cases3)
  have w0: "poll_wf ?p" "in_range (mgr ?p) i" using assms(1,2) by (simp_all add: poll_wf_def)
  have w1: "poll_wf p1" "in_range (mgr p1) i"
    using touches_wf touches_range touches_update_stage [OF w0 1] w0 by blast+
  have w2: "poll_wf p2" "in_range (mgr p2) i"
    using touches_wf touches_range touches_get_stage [OF 2] w1 by blast+
  note a = update_stage_calm [OF w0 1] and b = get_stage_calm [OF w1 2] and d = convert_stage_calm [OF w2 4]
  have c2: "calm s s2" by (intro b(1) a(1) calm_refl)
  have "cd_short (clientData ?p)" by (simp add: cd_short_def ClientData_zero_def MAX_OPC_STR_LEN_def)
  then have short: "texts_short p2 \<and> cd_short (clientData p2)" if "fault s2 = None"
    using calm_clean [OF c2 that] assms(3) a(2,3) b(2,3) by (simp add: sound_def)
  have c4: "calm s2 s4" by (rule d(1)) (use short in simp_all)
  have "sound (p4, s4)"
    using calm_tame [OF calm_trans [OF c2 c4]] d(2) short calm_clean [OF c4] assms(3) by (auto simp: sound_def)
  moreover have "p' = p4" "calm s4 s'" using assms(4) by (auto simp: poll_missing_def Let_def 1 2 4)
  ultimately show ?thesis using sound_calm by blast
qed

lemma poll_receive_sound:
  assumes "strings_fit E" and "poll_wf p" and "in_range (mgr p) i" and "sound (p, s)" and "poll_receive E i p s = (ok, p', s')"
  shows "sound (p', s')" and "ok \<Longrightarrow> fault s' = None \<Longrightarrow> cd_short (clientData p')"
proof -
  have i: "innerIdx (client (mgr p) i) = i" using assms(2,3) by (rule poll_wf_client)
  let ?s = "log_debug E (''Read data, client: '' @ name_of (mgr p) i) s"
  obtain ok1 cd m s1 where 1: "manager_receive_data E i (clientData p) (mgr p) ?s = (ok1, cd, m, s1)"
    by (metis prod_cases4)
  note run = assms(5) [unfolded poll_receive_def Let_def i 1 prod.case]
  note r = receive_calm [OF assms(1,3) 1]
  have "calm s s1" by (intro r(1) calm.kept_log calm_refl)
  then show "sound (p', s')" using run assms(4) sound_calm [of p s s1] by (auto simp: sound_def)
  show "ok \<Longrightarrow> fault s' = None \<Longrightarrow> cd_short (clientData p')" using run r(2) by auto
qed

lemma poll_client_sound:
  assumes "strings_fit E" and "poll_wf p" and "sound (p, s)"
  shows "sound (poll_client E l i (p, s))"
    and "in_range (mgr p) i \<Longrightarrow> sound (poll_client_first E i (p, s))"
proof -
  obtain ok p1 s1 where 1: "poll_receive E i p s = (ok, p1, s1)" by (metis prod_cases3)
  have *: "sound (p1, s1)" "sound (poll_received E k i p1 s1)" if ok "in_range (mgr p) i" for k
  proof -
    have r: "poll_wf p1" "in_range (mgr p1) i"
      using touches_wf touches_range poll_receive_result [OF assms(2) that(2) 1] assms(2) that(2) by blast+
    note q = poll_receive_sound [OF assms(1,2) that(2) assms(3) 1]
    show "sound (p1, s1)" by (rule q)
    obtain p2 s2 where "poll_received E k i p1 s1 = (p2, s2)" by (metis surj_pair)
    with poll_received_sound [OF r q(1) q(2) [OF that(1)] this] show "sound (poll_received E k i p1 s1)" by simp
  qed
  have miss: "sound (poll_missing E i p1 s1)" if "in_range (mgr p) i"
  proof -
    have r: "poll_wf p1" "in_range (mgr p1) i"
      using touches_wf touches_range poll_receive_result [OF assms(2) that 1] assms(2) that by blast+
    obtain p2 s2 where "poll_missing E i p1 s1 = (p2, s2)" by (metis surj_pair)
    with poll_missing_sound [OF r poll_receive_sound(1) [OF assms(1,2) that assms(3) 1] this]
    show ?thesis by simp
  qed
  have fail: "sound (p1, mn_LOG_E E k f t s1)" if "in_range (mgr p) i" for k f t
    by (rule sound_calm [OF poll_receive_sound(1) [OF assms(1,2) that assms(3) 1]]) (simp only: calm.kept_LOG_E calm_refl)
  have out: "sound (p, mn_LOG_E E k f t s)" for k f t
    by (rule sound_calm [OF assms(3)]) (simp only: calm.kept_LOG_E calm_refl)
  show "sound (poll_client E l i (p, s))"
    using * fail out by (simp add: poll_client_def get_client_in_range 1)
  show "in_range (mgr p) i \<Longrightarrow> sound (poll_client_first E i (p, s))"
    using * miss by (simp add: poll_client_first_def get_client_in_range 1)
qed

lemma poll_fold_sound:
  assumes "strings_fit E"
  shows "poll_wf (fst x) \<Longrightarrow> sound x \<Longrightarrow> sound (fold (poll_client E l) is x)"
proof (induction "is" arbitrary: x)
  case (Cons i js)
  obtain p s where x: "x = (p, s)" by (cases x)
  obtain p1 s1 where 1: "poll_client E l i (p, s) = (p1, s1)" by (metis surj_pair)
  have "poll_wf p1" using touches_wf [OF poll_client_result [OF _ 1]] Cons.prems(1) by (simp add: x)
  moreover have "sound (p1, s1)" using poll_client_sound(1) [OF assms, of p s l i] Cons.prems by (simp add: x 1)
  ultimately show ?case using Cons.IH by (simp add: x 1)
qed simp

lemma first_fold_sound:
  assumes "strings_fit E"
  shows "poll_wf (fst x) \<Longrightarrow> (\<forall>i \<in> set is. in_range (mgr (fst x)) i) \<Longrightarrow> sound x \<Longrightarrow>
     sound (fold (poll_client_first E) is x)"
proof (induction "is" arbitrary: x)
  case (Cons i js)
  obtain p s where x: "x = (p, s)" by (cases x)
  obtain p1 s1 where 1: "poll_client_first E i (p, s) = (p1, s1)" by (metis surj_pair)
  have r: "poll_wf p" "in_range (mgr p) i" using Cons.prems(1,2) by (simp_all add: x)
  note t = poll_first_result(1) [OF r 1]
  have "sound (p1, s1)" using poll_client_sound(2) [OF assms r(1) _ r(2), of s] Cons.prems(3) by (simp add: x 1)
  moreover have "poll_wf p1" "\<forall>i \<in> set js. in_range (mgr p1) i"
    using touches_wf [OF t r(1)] touches_range [OF t] Cons.prems(2) by (simp_all add: x)
  ultimately show ?case using Cons.IH by (simp add: x 1)
qed simp

end
