(* ===== verification/TsFaults.thy ===== *)
theory TsFaults
  imports TsSafety
begin

text \<open>
  The module's runs: initialisation, start-up, surveys and sending, each kept free of wild
  accesses, and the kinds of undefined behaviour with which a run can begin.
\<close>

section \<open>Initialisation\<close>

text \<open>The \<^verbatim>\<open>mqtt\<close> section with every setting that \<^verbatim>\<open>mqtt_init\<close> passes on.\<close>

definition mqtt_complete :: "config_t \<Rightarrow> bool" where
  "mqtt_complete cfg \<longleftrightarrow> (case config_lookup cfg ''mqtt'' of None \<Rightarrow> False | Some n \<Rightarrow>
     (case config_setting_get_elem cfg n 0 of None \<Rightarrow> False | Some el \<Rightarrow>
        config_setting_lookup_string cfg el ''host'' \<noteq> None \<and> config_setting_lookup_string cfg el ''login'' \<noteq> None
        \<and> config_setting_lookup_string cfg el ''passwd'' \<noteq> None
        \<and> config_setting_lookup_string cfg el ''ssl_crt'' \<noteq> None \<and> config_setting_lookup_int cfg el ''port'' \<noteq> None))"

lemma mqtt_init_calm:
  assumes "mqtt_complete cfg" and "calm u s"
  shows "calm u (snd (snd (mqtt_init E cfg q s)))"
proof -
  have steps: "calm u (snd (mqtt_connect_steps E x st s))"
    if "calm u s" "login st \<noteq> None" "passwd st \<noteq> None" "ssl_crt st \<noteq> None" "host st \<noteq> None" "port st \<noteq> None" for x st s
    using that by (auto simp: mqtt_connect_steps_def Let_def split_beta)
  obtain st q1 s1 where r: "read_setting cfg q s = (st, q1, s1)" by (metis prod_cases3)
  have "calm u s1 \<and> login st \<noteq> None \<and> passwd st \<noteq> None \<and> ssl_crt st \<noteq> None \<and> host st \<noteq> None \<and> port st \<noteq> None"
    using r assms by (auto simp: read_setting_def mqtt_complete_def lookup_string_def lookup_int_def Let_def
        split: option.splits)
  then show ?thesis using steps by (simp add: mqtt_init_def r Let_def split_beta split: option.splits)
qed

lemma init_mqtt_calm:
  assumes "mqtt_complete cfg" and "init_mqtt E cfg m s = (m', s')"
  shows "calm u s \<Longrightarrow> calm u s'" and "poll m' = poll m"
  using assms mqtt_init_calm [of cfg u s E "mq m"] by (auto simp: init_mqtt_def Let_def split: prod.splits if_splits)

lemma init_timer_calm:
  assumes "init_timer E m s = (m', s')"
  shows "calm u s \<Longrightarrow> calm u s'" and "poll m' = poll m"
  using assms by (auto simp: init_timer_def Let_def split_beta split: if_splits)

lemma init_finish_calm:
  assumes "init_finish E m s = (m', s')"
  shows "calm u s \<Longrightarrow> calm u s'" and "poll m' = poll m"
  using assms by (auto simp: init_finish_def split: if_splits)

lemma registered_data [simp]: "currentData (registered c ci) = currentData ci"
  by (simp add: registered_def Let_def)

lemma init_queue_short:
  assumes "table_wf m" and "length cs = MAX_CLIENT_NUM"
    and "init_queue E MAX_CLIENT_NUM 0 m (queueCleen q) cs s = (r, q', cs', s')"
    and "\<forall>ci \<in> set cs. cd_short (currentData ci)"
  shows "s' = s" and "\<forall>ci \<in> set cs'. cd_short (currentData ci)"
proof -
  have run: "s' = s" "length cs' = MAX_CLIENT_NUM"
    "\<forall>j. 0 \<le> j \<longrightarrow> info cs' j = (if in_range m j then registered (client m j) (info cs j) else info cs j)"
    using init_queue_run [OF assms(1,2), where E = E and q = q and s = s] by (auto simp: assms(3))
  show "s' = s" by (rule run)
  have "cd_short (currentData (cs' ! j))" if "j < length cs'" for j
    using run(2,3) that assms(2,4) by (auto simp: info_def dest: spec [of _ "int j"])
  then show "\<forall>ci \<in> set cs'. cd_short (currentData ci)" by (auto simp: in_set_conv_nth)
qed

lemma init_manager_sound:
  assumes "sizes m" and "lengths_ok cfg" and "sound (poll m, s)" and "init_manager E cfg m s = (r, m', s')"
  shows "sound (poll m', s')"
proof -
  have sz: "length (clientSettings (mgr (poll m))) = MAX_CLIENT_NUM + 1" "length (cnt (poll m)) = MAX_CLIENT_NUM"
    using assms(1) by (simp_all add: sizes_def)
  have len: "\<forall>n. 0 \<le> config_setting_length cfg n" using assms(2) by (simp add: lengths_ok_def)
  obtain ok mg s1 where c: "manager_init_config E cfg (mgr (poll m)) s = (ok, mg, s1)" by (metis prod_cases3)
  have c1: "calm s s1" using calm.kept_init_config [OF calm_refl, where s = s and E = E and cfg = cfg and m = "mgr (poll m)"] by (simp add: c)
  show ?thesis
  proof (cases ok)
    case False
    have "calm s (mn_LOG_E E 72 ''init_sys'' ''Manager ERROR: Wrong config'' s1)" using c1 by (simp only: calm.kept_LOG_E)
    then have "sound (poll m, mn_LOG_E E 72 ''init_sys'' ''Manager ERROR: Wrong config'' s1)"
      by (rule sound_calm [OF assms(3)])
    moreover have "m' = m\<lparr>poll := (poll m)\<lparr>mgr := mg\<rparr>\<rparr> \<and> s' = mn_LOG_E E 72 ''init_sys'' ''Manager ERROR: Wrong config'' s1"
      using assms(4) False by (simp add: init_manager_def c)
    ultimately show ?thesis by (simp add: sound_def)
  next
    case True
    obtain ok' mg' s2 where n: "manager_init_connections E mg s1 = (ok', mg', s2)" by (metis prod_cases3)
    let ?s = "if \<not> ok' then mn_LOG_E E 77 ''init_sys'' ''Manager ERROR: Connection fail'' s2 else s2"
    obtain r1 q cs s3 where q: "init_queue E MAX_CLIENT_NUM 0 mg' (queueCleen (qu m)) (cnt (poll m)) ?s = (r1, q, cs, s3)"
      by (metis prod_cases4)
    have wf: "table_wf mg" using init_config_table [OF sz(1) len, of E s] c True by simp
    then have "sized mg" "0 \<le> clientsCnt mg" by (simp_all add: table_wf_def)
    from init_connections_result [OF this, where E = E and s = s1] have "same_table mg mg'" by (simp add: n)
    then have wf': "table_wf mg'" using wf by (rule same_table_wf)
    have "calm s s2"
      using calm.kept_init_connections [OF c1, where E = E and m = mg] by (simp add: n)
    then have c2: "calm s ?s" by (simp only: calm.kept_LOG_E if_split) simp
    have m': "s' = s3" "mqtt_data (poll m') = mqtt_data (poll m)" "cnt (poll m') = cs"
      using assms(4) True unfolding init_manager_def Let_def c n prod.case q by (auto split: if_splits)
    have st: "s3 = ?s"
      using init_queue_run [OF wf' sz(2), where E = E and q = "qu m" and s = ?s] q by auto
    have "texts_short (poll m')" if "fault s' = None"
    proof -
      have "fault s = None" using calm_clean [OF c2] that st m'(1) by simp
      then have "texts_short (poll m)" using assms(3) by (simp add: sound_def)
      with init_queue_short(2) [OF wf' sz(2) q] show ?thesis by (simp add: texts_short_def m')
    qed
    moreover have "tame s'" using calm_tame [OF c2] assms(3) st m'(1) by (simp add: sound_def)
    ultimately show ?thesis by (simp add: sound_def)
  qed
qed

lemma init_sys_sound:
  assumes "init_inv m" and "lengths_ok cfg" and "mqtt_complete cfg" and "sound (poll m, s)"
    and "init_sys E cfg m s = (r, m', s')"
  shows "sound (poll m', s')"
proof -
  obtain r0 t s0 where t: "timer_stop E (tm m) s = (r0, t, s0)" by (metis prod_cases3)
  let ?m0 = "m\<lparr>tm := t, dev_status := (dev_status m)\<lparr>ds_timer := False\<rparr>\<rparr>"
  obtain m1 s1 where 1: "init_mqtt E cfg ?m0 s0 = (m1, s1)" by (metis surj_pair)
  let ?x = "if ds_manager (dev_status m1) then (0, m1, s1) else init_manager E cfg m1 s1"
  obtain r2 m2 s2 where 2: "?x = (r2, m2, s2)" by (metis prod_cases3)
  have w: "timer_wf t" using timer_wf_update(1) [of E "tm m" s] assms(1) by (simp add: t init_inv_def)
  have "init_inv ?m0" using assms(1) w by (simp add: init_inv_def flags_ok_def)
  then have i1: "init_inv m1" using 1 by (rule init_mqtt_inv)
  have "calm s s0" using calm.kept_timer(2) [where u = s and E = E and t = "tm m" and s = s] by (simp add: t)
  then have "calm s s1" "poll m1 = poll m" using init_mqtt_calm [OF assms(3) 1] by simp_all
  then have "sound (poll m1, s1)" using sound_calm [OF assms(4)] by simp
  then have x2: "sound (poll m2, s2)"
    using 2 init_manager_sound [of m1 cfg s1 E r2 m2 s2] i1 assms(2) by (auto simp: init_inv_def split: if_splits)
  obtain m3 s3 where 3: "init_timer E m2 s2 = (m3, s3)" by (metis surj_pair)
  obtain m4 s4 where 4: "init_finish E m3 s3 = (m4, s4)" by (metis surj_pair)
  have c4: "calm s2 s4" by (intro init_finish_calm(1) [OF 4] init_timer_calm(1) [OF 3] calm_refl)
  have p4: "poll m4 = poll m2" using init_finish_calm(2) [OF 4] init_timer_calm(2) [OF 3] by simp
  have x4: "sound (poll m4, s4)" using sound_calm [OF x2 c4] by (simp add: p4)
  have "init_sys E cfg m s = (if r2 \<noteq> 0 then (r2, m2, s2) else (0, m4, s4))"
    by (simp only: init_sys_def Let_def t prod.case 1 2 3 4)
  with assms(5) x2 x4 show ?thesis by (auto split: if_splits)
qed

section \<open>The fixed members\<close>

definition short_records :: "t_data list \<Rightarrow> bool" where
  "short_records data \<longleftrightarrow> (\<forall>d \<in> set data. length (ch_data d) < MAX_OPC_STR_LEN)"

lemma short_at_field:
  assumes "\<And>d. length (ch_data d) < MAX_OPC_STR_LEN \<Longrightarrow> length (ch_data (f d)) < MAX_OPC_STR_LEN"
    and "short_records data"
  shows "short_records (at_field k f data)"
proof (cases "k < length data")
  case True
  then have "length (ch_data (f (data ! k))) < MAX_OPC_STR_LEN" using assms by (simp add: short_records_def)
  then show ?thesis
    using assms(2) set_update_subset_insert [of data k "f (data ! k)"] by (auto simp: short_records_def at_field_def)
qed (use assms(2) in \<open>simp add: at_field_def list_update_beyond\<close>)

lemma short_fields:
  "ch_data (int_field n i d) = ch_data d" "ch_data (lint_field n l d) = ch_data d"
  "ch_data (double_field n x d) = ch_data d" "length (ch_data (char_field n t d)) \<le> length t"
  using length_takeWhile_le [of "\<lambda>c. c \<noteq> NUL" t]
  by (simp_all add: int_field_def lint_field_def double_field_def char_field_def set_type_def strncpy_c_def)

lemma short_static: "short_records data \<Longrightarrow> short_records (set_mqtt_static_fields data)"
proof -
  have "length (ch_data (char_field n t d)) < MAX_OPC_STR_LEN" if "length t < MAX_OPC_STR_LEN" for n t d
    using short_fields(4) [of n t d] that by simp
  then show "short_records data \<Longrightarrow> ?thesis"
    unfolding set_mqtt_static_fields_def Let_def
    by (intro short_at_field) (simp_all add: short_fields(1-3) MAX_OPC_STR_LEN_def)
qed

lemma short_dynamic:
  assumes "set_mqtt_dynamic_fields E data s = (data', s')"
  shows "short_records data \<Longrightarrow> short_records data'" and "calm u s \<Longrightarrow> calm u s'"
proof -
  show "short_records data \<Longrightarrow> short_records data'"
    using assms unfolding set_mqtt_dynamic_fields_def Let_def
    by (auto split: prod.splits intro!: short_at_field simp: short_fields(1-3))
  show "calm u s \<Longrightarrow> calm u s'"
    using assms by (auto simp: set_mqtt_dynamic_fields_def Let_def time_c_def)
qed

lemma texts_short_records:
  "texts_short p \<longleftrightarrow> (\<forall>ci \<in> set (cnt p). cd_short (currentData ci)) \<and> short_records (mqtt_data p)"
  by (simp add: texts_short_def short_records_def)

lemma start_up_sound:
  assumes "strings_fit E" and "ready m" and "sound (poll m, s)" and "start_up E m s = (m', s')"
  shows "sound (poll m', s')"
proof -
  let ?p = "poll m" and ?n = "clientsCnt (mgr (poll m))"
  have w: "poll_wf ?p" and len: "length (mqtt_data ?p) = mqtt_slots" using assms(2) by (simp_all add: ready_def poll_wf_def)
  obtain k s1 where 1: "manager_get_send_interval E (mgr ?p) s = (k, s1)" by (metis surj_pair)
  obtain data s2 where 2: "set_mqtt_dynamic_fields E (set_mqtt_static_fields (mqtt_data ?p)) s1 = (data, s2)"
    by (metis surj_pair)
  let ?p1 = "?p\<lparr>mqtt_data := data\<rparr>"
  have "calm s s1" using 1 by (auto simp: manager_get_send_interval_def)
  then have c: "calm s s2" by (rule short_dynamic(2) [OF 2])
  have lenst: "length (set_mqtt_static_fields (mqtt_data ?p)) = mqtt_slots" using len by (rule static_fields_result)
  have w1: "poll_wf ?p1" using w dynamic_fields_result(1) [OF lenst 2] by (simp add: poll_wf_def)
  have "texts_short ?p1" if "fault s2 = None"
  proof -
    have "texts_short ?p" using calm_clean [OF c that] assms(3) by (simp add: sound_def)
    then show ?thesis using short_dynamic(1) [OF 2] short_static by (simp add: texts_short_records)
  qed
  then have x1: "sound (?p1, s2)" using calm_tame [OF c] assms(3) by (simp add: sound_def)
  have "sound (first_poll E ?n (?p1, s2))"
    unfolding first_poll_def
    by (rule first_fold_sound [OF assms(1)]) (use w1 x1 in \<open>auto simp: in_range_def\<close>)
  moreover have "(poll m', s') = first_poll E ?n (?p1, s2)"
    using assms(4) by (auto simp: start_up_def set_state_def manager_get_clients_count_def Let_def 1 2 split: prod.splits)
  ultimately show ?thesis by simp
qed

section \<open>Surveys and sending\<close>

lemma survey_sound:
  assumes "strings_fit E" and "ready m" and "sound (poll m, s)" and "survey_rate E r l m s = Some (m', s')"
  shows "sound (poll m', s')"
proof -
  have w: "poll_wf (poll m)" "queue_wf (qu m)" using assms(2) by (simp_all add: ready_def)
  obtain q' p' t' where "survey_rate E r l m s = Some (m\<lparr>qu := q', poll := p'\<rparr>, t')"
    "(p', t') = fold (poll_client E l) (clients_at r (qu m)) (poll m, s)"
    using survey_rate_result [OF w] by blast
  with poll_fold_sound [OF assms(1), of "(poll m, s)" l "clients_at r (qu m)"] w(1) assms(3,4) show ?thesis by auto
qed

lemma json_loop_calm:
  "(fault s = None \<longrightarrow> short_records ds) \<Longrightarrow> calm u s \<Longrightarrow> calm u (snd (snd (json_loop E n ds buf s)))"
proof (induction ds arbitrary: buf s)
  case (Cons d ds)
  let ?s = "ub_if (td_type d = TS_CHAR \<and> length (ch_data d) = MAX_OPC_STR_LEN) Out_Of_Bounds s"
  have c: "calm u ?s" using Cons.prems by (intro calm_ub_if) (auto simp: short_records_def)
  have d: "fault s = None \<Longrightarrow> short_records ds" using Cons.prems(1) by (simp add: short_records_def)
  show ?case
  proof (cases "json_field d")
    case None
    with Cons.prems(2) show ?thesis by simp
  next
    case (Some t)
    let ?s2 = "ub_if (n < length (buf @ t) + 1) Buffer_Overflow ?s"
    have "calm u ?s2" using c by simp
    moreover have "fault ?s2 = None \<longrightarrow> short_records ds" using d by simp
    ultimately have "calm u (snd (snd (json_loop E n ds (buf @ t) ?s2)))" by (rule Cons.IH [rotated])
    with \<open>calm u ?s2\<close> Some show ?thesis by (simp add: Let_def)
  qed
qed simp

lemma send_data_calm:
  assumes "send_data E q data count s = (r, buf, s')" and "count \<le> int (length data)"
    and "fault s = None \<Longrightarrow> short_records data"
  shows "calm s s'"
proof -
  obtain r1 b1 s1 where 1: "get_json E MAX_BUF data count s = (r1, b1, s1)" by (metis prod_cases3)
  have "fault s = None \<longrightarrow> short_records (take (nat count) data)"
    using assms(3) by (auto simp: short_records_def dest: in_set_takeD)
  then have "calm s s1"
    using json_loop_calm [of s "take (nat count) data" s E MAX_BUF "''{''"] 1 assms(2) by (simp add: get_json_def)
  then have "calm s (snd (mqtt_send E q b1 (log_info E b1 s1)))"
    by (simp add: mqtt_send_def Let_def split_beta)
  moreover have "s' = snd (mqtt_send E q b1 (log_info E b1 s1))"
    using assms(1) unfolding send_data_def Let_def 1 prod.case by (auto simp: split_beta)
  ultimately show ?thesis by simp
qed

lemma counterReset_data:
  "counterReset c cs s = (cs', s') \<Longrightarrow> \<forall>ci \<in> set cs. cd_short (currentData ci) \<Longrightarrow>
     0 \<le> innerIdx c \<Longrightarrow> nat (innerIdx c) < length cs \<Longrightarrow> \<forall>ci \<in> set cs'. cd_short (currentData ci)"
proof -
  assume run: "counterReset c cs s = (cs', s')" and old: "\<forall>ci \<in> set cs. cd_short (currentData ci)"
    and i: "0 \<le> innerIdx c" "nat (innerIdx c) < length cs"
  have "cd_short (currentData (info cs (innerIdx c)))" using old i by (simp add: info_def)
  moreover obtain ci where "cs' = cs[nat (innerIdx c) := ci]" "currentData ci = currentData (info cs (innerIdx c))"
    using run by (auto simp: counterReset_def Let_def)
  ultimately show ?thesis using old set_update_subset_insert [of cs "nat (innerIdx c)" ci] by auto
qed

lemma reset_counters_calm:
  assumes "table_wf m"
  shows "length cs = MAX_CLIENT_NUM \<Longrightarrow> calm u s \<Longrightarrow> reset_counters E n i m cs s = (cs', s') \<Longrightarrow>
     calm u s' \<and> ((\<forall>ci \<in> set cs. cd_short (currentData ci)) \<longrightarrow> (\<forall>ci \<in> set cs'. cd_short (currentData ci)))"
proof (induction n arbitrary: i cs s)
  case (Suc n)
  show ?case
  proof (cases "in_range m i")
    case False
    have "calm u (mn_LOG_E E 701 ''main'' (''Manager: Wrong client num '' @ dec_int i) s)"
      using Suc.prems(2) by (simp only: calm.kept_LOG_E)
    moreover have "reset_counters E n (i + 1) m cs (mn_LOG_E E 701 ''main'' (''Manager: Wrong client num '' @ dec_int i) s) = (cs', s')"
      using Suc.prems(3) False by (simp only: reset_counters.simps get_client_in_range if_False option.case)
    ultimately show ?thesis by (rule Suc.IH [OF Suc.prems(1)])
  next
    case True
    let ?c = "client m i"
    have i: "innerIdx ?c = i" "has_counter i"
      using table_wf_client [OF assms True] True assms by (auto simp: in_range_def has_counter_def table_wf_def sized_def)
    obtain cs1 s1 where 1: "counterReset ?c cs s = (cs1, s1)" by (metis surj_pair)
    have s1: "s1 = s" "length cs1 = MAX_CLIENT_NUM" using 1 i Suc.prems(1) by (auto simp: counterReset_def Let_def)
    have "(\<forall>ci \<in> set cs. cd_short (currentData ci)) \<longrightarrow> (\<forall>ci \<in> set cs1. cd_short (currentData ci))"
      using counterReset_data [OF 1] i Suc.prems(1) by (auto simp: has_counter_def)
    moreover have "reset_counters E n (i + 1) m cs1 s = (cs', s')"
      using Suc.prems(3) by (simp add: get_client_in_range True 1 s1(1))
    ultimately show ?thesis using Suc.IH [OF s1(2) Suc.prems(2)] by blast
  qed
qed simp

lemma do_send_sound:
  assumes "up m" and "sound (poll m, s)" and "do_send E m s = (m', s')"
  shows "sound (poll m', s')"
proof -
  let ?p = "poll m"
  have r: "ready m" using assms(1) by (rule up_ready)
  then have len: "length (mqtt_data ?p) = mqtt_slots" "length (cnt ?p) = MAX_CLIENT_NUM" and wf: "table_wf (mgr ?p)"
    by (simp_all add: ready_def poll_wf_def)
  obtain data s1 where 1: "set_mqtt_dynamic_fields E (mqtt_data ?p) (log_debug E ''Send data'' s) = (data, s1)"
    by (metis surj_pair)
  obtain ok buf s2 where 2: "send_data E (mq m) data (mqtt_data_count m) s1 = (ok, buf, s2)" by (metis prod_cases3)
  obtain cs s3 where 3: "(if ok = 0 then reset_counters E (nat (clientsCount m)) 0 (mgr ?p) (cnt ?p) s2
      else (cnt ?p, mn_LOG_E E 710 ''main'' ''MQTT: Send error'' s2)) = (cs, s3)" by (metis surj_pair)
  have m': "poll m' = ?p\<lparr>mqtt_data := data, cnt := cs\<rparr>" "s' = s3"
    using assms(3) unfolding do_send_def Let_def 1 2 3 prod.case by (auto simp: set_state_def)
  have c1: "calm s s1" by (intro short_dynamic(2) [OF 1] calm.kept_log calm_refl)
  have short: "(\<forall>ci \<in> set (cnt ?p). cd_short (currentData ci)) \<and> short_records data" if "fault s1 = None"
    using calm_clean [OF c1 that] assms(2) short_dynamic(1) [OF 1] by (simp add: sound_def texts_short_records)
  have "mqtt_data_count m \<le> int (length data)"
    using assms(1) dynamic_fields_result(1) [OF len(1) 1] wf
    by (simp add: up_def message_ok_def mqtt_slots_def table_wf_def sized_def)
  then have c2: "calm s1 s2" using send_data_calm [OF 2] short by simp
  have c3: "calm s2 s3 \<and> ((\<forall>ci \<in> set (cnt ?p). cd_short (currentData ci)) \<longrightarrow> (\<forall>ci \<in> set cs. cd_short (currentData ci)))"
  proof (cases "ok = 0")
    case True
    with 3 have "reset_counters E (nat (clientsCount m)) 0 (mgr ?p) (cnt ?p) s2 = (cs, s3)" by simp
    then show ?thesis by (rule reset_counters_calm [OF wf len(2) calm_refl])
  next
    case False
    have "calm s2 (mn_LOG_E E 710 ''main'' ''MQTT: Send error'' s2)" by (simp only: calm.kept_LOG_E calm_refl)
    with 3 False show ?thesis by auto
  qed
  have "calm s1 s3" using c2 c3 calm_trans by blast
  then have "fault s3 = None \<Longrightarrow> fault s1 = None" by (rule calm_clean)
  moreover have "tame s3" using calm_tame [OF calm_trans [OF c1 \<open>calm s1 s3\<close>]] assms(2) by (simp add: sound_def)
  ultimately show ?thesis using short c3 by (simp add: sound_def m' texts_short_records)
qed

section \<open>Every phase\<close>

lemma do_init_sound:
  assumes "init_inv m" and "lengths_ok cfg" and "mqtt_complete cfg" and "strings_fit E" and "sound (poll m, s)"
    and "do_init E cfg m s = (m', s')"
  shows "sound (poll m', s')"
proof -
  obtain r m1 s1 where 1: "init_sys E cfg m s = (r, m1, s1)" by (metis prod_cases3)
  have x1: "sound (poll m1, s1)" using assms(1-3,5) 1 by (rule init_sys_sound)
  have emit: "sound (p, emit c t) = sound (p, t)" for p c t
    by (simp add: sound_def tame_def)
  show ?thesis
  proof (cases "ds_state (dev_status m1) = INIT_SYS")
    case True
    with assms(6) x1 show ?thesis by (auto simp: do_init_def 1 emit)
  next
    case False
    then have "ready m1"
      using init_sys_inv [OF assms(1) _ 1] assms(2) by (auto simp: lengths_ok_def init_inv_def flags_ok_def all_up_def)
    obtain m2 s2 where u: "start_up E m1 s1 = (m2, s2)" by (metis surj_pair)
    have "sound (poll m2, s2)" using assms(4) \<open>ready m1\<close> x1 u by (rule start_up_sound)
    with assms(6) False show ?thesis by (auto simp: do_init_def 1 u emit)
  qed
qed

lemma main_step_sound:
  assumes "module_inv k m" and "lengths_ok cfg" and "mqtt_complete cfg" and "strings_fit E" and "sound (poll m, s)"
    and "main_step E cfg k m s = Some (k', m', s')"
  shows "sound (poll m', s')"
proof -
  have survey: "sound (poll m2, s2)" if "up m1" "sound (poll m1, s1)" "survey_rate E r l m1 s1 = Some (m2, s2)" for m1 s1 r l m2 s2
    using survey_sound [OF assms(4) up_ready [OF that(1)] that(2,3)] .
  have minute: "sound (poll m1, s1)" if "count_minute E m s = (m1, s1)" for m1 s1
  proof -
    have "calm s s1" "poll m1 = poll m"
      using that by (auto simp: count_minute_def manager_get_send_interval_def set_state_def Let_def split: if_splits)
    then show ?thesis using sound_calm [OF assms(5)] by simp
  qed
  obtain m0 s0 where i: "do_init E cfg m s = (m0, s0)" by (metis surj_pair)
  obtain m1 s1 where d: "do_send E m s = (m1, s1)" by (metis surj_pair)
  obtain m2 s2 where c: "count_minute E m s = (m2, s2)" by (metis surj_pair)
  have emit: "sound (p, emit c t) = sound (p, t)" for p c t
    by (simp add: sound_def tame_def)
  consider "k = At_switch" "init_inv m" | "up m" using assms(1) by (auto simp: module_inv_split)
  then show ?thesis
  proof cases
    case 1
    with assms(6) do_init_sound [OF 1(2) assms(2-5) i] show ?thesis
      by (auto simp: main_step_def at_switch_def init_inv_def i)
  next
    case 2
    then have "ds_state (dev_status m) \<noteq> INIT_SYS" by (auto simp: up_def module_states)
    with assms(5,6) survey [OF 2 assms(5)] do_send_sound [OF 2 assms(5) d] minute [OF c]
      survey [OF count_minute_up [OF 2 c] minute [OF c]] show ?thesis
      by (auto simp: main_step_def at_switch_def Let_def d c emit split: pc.splits if_splits option.splits)
  qed
qed


lemma full_cfg_complete: "mqtt_complete full_cfg"
  by (simp add: mqtt_complete_def full_cfg_def sample_cfg_def broker_string_def)

lemma quiet_strings: "strings_fit quiet_env"
  by (simp add: strings_fit_def)


end
