(* ===== verification/ConfigSpec.thy ===== *)
theory ConfigSpec
  imports ClientManager
begin

text \<open>
  What a configuration file means: when it is valid, and which client each of its entries describes.
  The specification looks up each parameter once, in no particular order and without any state;
  \<^verbatim>\<open>manager_init_config\<close> is shown to accept exactly the valid files and to fill the table with the
  clients they describe.
\<close>

section \<open>The meaning of a configuration\<close>

abbreviation given :: "config_t \<Rightarrow> config_setting_t \<Rightarrow> string \<Rightarrow> string option" where
  "given \<equiv> config_setting_lookup_string"

abbreviation given_int :: "config_t \<Rightarrow> config_setting_t \<Rightarrow> string \<Rightarrow> int option" where
  "given_int \<equiv> config_setting_lookup_int"

text \<open>A parameter with a fixed set of words.\<close>

definition choice :: "(string \<Rightarrow> 'a option) \<Rightarrow> config_t \<Rightarrow> config_setting_t \<Rightarrow> string \<Rightarrow> 'a option" where
  "choice parse cfg x k = Option.bind (given cfg x k) parse"

lemma choice_eq: "choice parse cfg x k = (case given cfg x k of None \<Rightarrow> None | Some t \<Rightarrow> parse t)"
  by (simp add: choice_def split: option.splits)

definition head_valid :: "config_t \<Rightarrow> config_setting_t \<Rightarrow> bool" where
  "head_valid cfg x \<longleftrightarrow>
     (case given cfg x ''name'' of None \<Rightarrow> False | Some n \<Rightarrow> length n \<le> MAX_CLIENT_NAME_LEN)
     \<and> given cfg x ''unit'' \<noteq> None
     \<and> choice parse_refresh_rate cfg x ''refresh_rate'' \<noteq> None
     \<and> choice parse_data_type cfg x ''data_type'' \<noteq> None
     \<and> choice parse_protocol cfg x ''protocol'' \<noteq> None
     \<and> choice parse_counter_type cfg x ''counter'' \<noteq> None
     \<and> choice parse_computation cfg x ''computation'' \<noteq> None"

text \<open>The address a Modbus client of a type needs; other types need none.\<close>

definition address_given :: "config_t \<Rightarrow> config_setting_t \<Rightarrow> string \<Rightarrow> bool" where
  "address_given cfg x ty \<longleftrightarrow>
     (ty = ''TCP'' \<longrightarrow> given_int cfg x ''mb_port'' \<noteq> None \<and> given cfg x ''mb_ip'' \<noteq> None)
     \<and> (ty = ''RTU'' \<longrightarrow> given cfg x ''mb_device'' \<noteq> None \<and> given cfg x ''mb_parity'' \<noteq> None
          \<and> given_int cfg x ''mb_baud_rate'' \<noteq> None \<and> given_int cfg x ''mb_data_bit'' \<noteq> None
          \<and> given_int cfg x ''mb_stop_bit'' \<noteq> None)"

definition modbus_valid :: "config_t \<Rightarrow> config_setting_t \<Rightarrow> bool" where
  "modbus_valid cfg x \<longleftrightarrow> given_int cfg x ''mb_id'' \<noteq> None \<and> given_int cfg x ''mb_offset'' \<noteq> None
     \<and> (case given cfg x ''mb_type'' of None \<Rightarrow> False | Some ty \<Rightarrow> address_given cfg x ty)
     \<and> choice parse_data_type cfg x ''data_type'' \<noteq> Some MDT_CHAR"

definition opc_valid :: "config_t \<Rightarrow> config_setting_t \<Rightarrow> bool" where
  "opc_valid cfg x \<longleftrightarrow> config_lookup cfg ''opc_ua'' \<noteq> None
     \<and> given_int cfg x ''opc_ns'' \<noteq> None \<and> given cfg x ''opc_node'' \<noteq> None"

definition entry_valid :: "config_t \<Rightarrow> config_setting_t \<Rightarrow> bool" where
  "entry_valid cfg x \<longleftrightarrow> head_valid cfg x
     \<and> (choice parse_protocol cfg x ''protocol'' = Some CP_MODBUS \<longrightarrow> modbus_valid cfg x)
     \<and> (choice parse_protocol cfg x ''protocol'' = Some CP_OPC \<longrightarrow> opc_valid cfg x)"

text \<open>The first element of a section.\<close>

definition section_head :: "config_t \<Rightarrow> string \<Rightarrow> config_setting_t option" where
  "section_head cfg k = Option.bind (config_lookup cfg k) (\<lambda>n. config_setting_get_elem cfg n 0)"

definition server_valid :: "config_t \<Rightarrow> bool" where
  "server_valid cfg \<longleftrightarrow> (case section_head cfg ''opc_ua'' of
      None \<Rightarrow> config_lookup cfg ''opc_ua'' = None
    | Some x \<Rightarrow> given cfg x ''server'' \<noteq> None \<and> given cfg x ''secure'' \<noteq> None
        \<and> choice parse_security_mode cfg x ''security_mode'' \<noteq> None)"

definition interval_of :: "config_t \<Rightarrow> int option" where
  "interval_of cfg = Option.bind (section_head cfg ''common'') (\<lambda>x. given_int cfg x ''send_interval_min'')"

definition entries_valid :: "config_t \<Rightarrow> config_setting_t \<Rightarrow> nat \<Rightarrow> bool" where
  "entries_valid cfg cc n \<longleftrightarrow> (\<forall>j < n. case config_setting_get_elem cfg cc (int j) of
      None \<Rightarrow> False | Some x \<Rightarrow> entry_valid cfg x)"

definition config_valid :: "config_t \<Rightarrow> bool" where
  "config_valid cfg \<longleftrightarrow> interval_of cfg \<noteq> None \<and> server_valid cfg
     \<and> (case config_lookup cfg ''clients'' of None \<Rightarrow> False | Some cc \<Rightarrow>
          1 \<le> config_setting_length cfg cc \<and> config_setting_length cfg cc \<le> int MAX_CLIENT_NUM
          \<and> entries_valid cfg cc (nat (config_setting_length cfg cc)))"

text \<open>The client that an entry describes.\<close>

definition head_described :: "config_t \<Rightarrow> config_setting_t \<Rightarrow> ClientSettings \<Rightarrow> bool" where
  "head_described cfg x c \<longleftrightarrow>
     cs_name c = given cfg x ''name'' \<and> cs_unit c = given cfg x ''unit''
     \<and> choice parse_refresh_rate cfg x ''refresh_rate'' = Some (refreshRate c)
     \<and> choice parse_data_type cfg x ''data_type'' = Some (cs_dataType c)
     \<and> choice parse_protocol cfg x ''protocol'' = Some (protocol c)
     \<and> choice parse_counter_type cfg x ''counter'' = Some (counter c)
     \<and> choice parse_computation cfg x ''computation'' = Some (computation c)"

definition addressed_as :: "config_t \<Rightarrow> config_setting_t \<Rightarrow> string \<Rightarrow> ModbusClient \<Rightarrow> bool" where
  "addressed_as cfg x ty b \<longleftrightarrow>
     (ty = ''TCP'' \<longrightarrow> protocolType b = MPT_TCP
          \<and> given_int cfg x ''mb_port'' = Some (mb_port b) \<and> given cfg x ''mb_ip'' = ipAdress b)
     \<and> (ty = ''RTU'' \<longrightarrow> protocolType b = MPT_RTU
          \<and> given cfg x ''mb_device'' = device b \<and> given cfg x ''mb_parity'' = parity b
          \<and> given_int cfg x ''mb_baud_rate'' = Some (baudRate b) \<and> given_int cfg x ''mb_data_bit'' = Some (dataBit b)
          \<and> given_int cfg x ''mb_stop_bit'' = Some (stopBit b))"

definition modbus_described :: "config_t \<Rightarrow> config_setting_t \<Rightarrow> ClientSettings \<Rightarrow> bool" where
  "modbus_described cfg x c \<longleftrightarrow> given_int cfg x ''mb_id'' = Some (mb_id (modbus c))
     \<and> given_int cfg x ''mb_offset'' = Some (mb_offset (modbus c))
     \<and> registers_for (cs_dataType c) = Some (registersToRead (modbus c))
     \<and> (case given cfg x ''mb_type'' of None \<Rightarrow> False | Some ty \<Rightarrow> addressed_as cfg x ty (modbus c))"

definition opc_described :: "config_t \<Rightarrow> config_setting_t \<Rightarrow> ClientSettings \<Rightarrow> bool" where
  "opc_described cfg x c \<longleftrightarrow> (let b = opc c in
     given_int cfg x ''opc_ns'' = Some (nameSpace b) \<and> given cfg x ''opc_node'' = node b
     \<and> oc_dataType b = cs_dataType c
     \<and> (case section_head cfg ''opc_ua'' of None \<Rightarrow> False | Some y \<Rightarrow>
          given cfg y ''server'' = serverName b \<and> secure b = (given cfg y ''secure'' = Some ''Y'')
          \<and> choice parse_security_mode cfg y ''security_mode'' = Some (securityMode b)))"

definition entry_described :: "config_t \<Rightarrow> config_setting_t \<Rightarrow> ClientSettings \<Rightarrow> bool" where
  "entry_described cfg x c \<longleftrightarrow> head_described cfg x c
     \<and> (case protocol c of CP_MODBUS \<Rightarrow> modbus_described cfg x c | CP_OPC \<Rightarrow> opc_described cfg x c)"

section \<open>One entry\<close>

lemma need_given:
  "need_string E cfg el k l t s = (v, s') \<Longrightarrow> Option.bind el (\<lambda>x. given cfg x k) = v"
  "need_int E cfg el k l t s = (n, s') \<Longrightarrow> Option.bind el (\<lambda>x. given_int cfg x k) = n"
  by (auto simp: need_string_def need_int_def lookup_string_def lookup_int_def Let_def split: option.splits)

lemma need_found [simp]:
  "given cfg x k = Some v \<Longrightarrow> need_string E cfg (Some x) k l t s = (Some v, s)"
  "given_int cfg x k = Some n \<Longrightarrow> need_int E cfg (Some x) k l t s = (Some n, s)"
  by (simp_all add: need_string_def need_int_def lookup_string_def lookup_int_def Let_def)

text \<open>The parameters that every client must have, as the code reads them.\<close>

definition raw_of :: "config_t \<Rightarrow> config_setting_t \<Rightarrow> raw_client option" where
  "raw_of cfg x =
     (case (given cfg x ''protocol'', given cfg x ''refresh_rate'', given cfg x ''data_type'', given cfg x ''counter'',
            given cfg x ''computation'') of
        (Some p, Some r, Some d, Some c, Some k) \<Rightarrow>
          Some \<lparr>r_protocol = p, r_refresh = r, r_type = d, r_counter = c, r_computation = k\<rparr>
      | _ \<Rightarrow> None)"

definition named :: "config_t \<Rightarrow> config_setting_t \<Rightarrow> bool" where
  "named cfg x \<longleftrightarrow> (case given cfg x ''name'' of None \<Rightarrow> False | Some n \<Rightarrow> length n \<le> MAX_CLIENT_NAME_LEN)
     \<and> given cfg x ''unit'' \<noteq> None"

lemma lookup_client_missing:
  "lookup_client E cfg None i c s = (r, c', s') \<Longrightarrow> r = None"
  unfolding lookup_client_def Let_def by (auto split: prod.splits option.splits dest!: need_given)

lemma lookup_client_spec:
  assumes "lookup_client E cfg (Some x) i c s = (r, c', s')"
  shows "r = (if named cfg x then raw_of cfg x else None)"
    and "r \<noteq> None \<Longrightarrow> innerIdx c' = i \<and> cs_name c' = given cfg x ''name'' \<and> cs_unit c' = given cfg x ''unit''
      \<and> modbus c' = modbus c \<and> opc c' = opc c"
  using assms unfolding lookup_client_def Let_def raw_of_def named_def
  by (auto split: prod.splits option.splits if_splits dest!: need_given)

lemma raw_of_Some:
  "raw_of cfg x = Some raw \<Longrightarrow> given cfg x ''protocol'' = Some (r_protocol raw)
     \<and> given cfg x ''refresh_rate'' = Some (r_refresh raw) \<and> given cfg x ''data_type'' = Some (r_type raw)
     \<and> given cfg x ''counter'' = Some (r_counter raw) \<and> given cfg x ''computation'' = Some (r_computation raw)"
  by (auto simp: raw_of_def split: option.splits)

lemmas words_hidden = parse_refresh_rate.simps parse_data_type.simps parse_protocol.simps
  parse_counter_type.simps parse_computation.simps

lemma parse_client_spec:
  assumes "parse_client E r c s = (ok, c', s')"
  shows "ok \<longleftrightarrow> parse_refresh_rate (r_refresh r) \<noteq> None \<and> parse_data_type (r_type r) \<noteq> None
       \<and> parse_protocol (r_protocol r) \<noteq> None \<and> parse_counter_type (r_counter r) \<noteq> None
       \<and> parse_computation (r_computation r) \<noteq> None"
    and "ok \<Longrightarrow> innerIdx c' = innerIdx c \<and> cs_name c' = cs_name c \<and> cs_unit c' = cs_unit c
       \<and> modbus c' = modbus c \<and> opc c' = opc c
       \<and> parse_refresh_rate (r_refresh r) = Some (refreshRate c') \<and> parse_data_type (r_type r) = Some (cs_dataType c')
       \<and> parse_protocol (r_protocol r) = Some (protocol c') \<and> parse_counter_type (r_counter r) = Some (counter c')
       \<and> parse_computation (r_computation r) = Some (computation c')"
  using assms unfolding parse_client_def Let_def by (auto split: option.splits simp del: words_hidden)

lemma entry_head:
  assumes "init_client E cfg (Some x) oc i c s = (ok, c', s')"
  shows "ok \<Longrightarrow> head_valid cfg x"
    and "head_valid cfg x \<Longrightarrow> \<exists>t c2 s2. innerIdx c2 = i \<and> head_described cfg x c2
      \<and> (case protocol c2 of CP_MODBUS \<Rightarrow> read_modbus E cfg (Some x) t c2 s2
         | CP_OPC \<Rightarrow> read_opc E cfg (Some x) oc c2 s2) = (ok, c', s')"
proof -
  obtain r c1 s1 where 1: "lookup_client E cfg (Some x) i c s = (r, c1, s1)" by (metis prod_cases3)
  note l = lookup_client_spec [OF 1]
  have hv: "head_valid cfg x \<longleftrightarrow> named cfg x \<and> (\<exists>raw. raw_of cfg x = Some raw
      \<and> parse_refresh_rate (r_refresh raw) \<noteq> None \<and> parse_data_type (r_type raw) \<noteq> None
      \<and> parse_protocol (r_protocol raw) \<noteq> None \<and> parse_counter_type (r_counter raw) \<noteq> None
      \<and> parse_computation (r_computation raw) \<noteq> None)"
    by (auto simp: head_valid_def named_def raw_of_def choice_eq split: option.splits simp del: words_hidden)
  show "head_valid cfg x" if k: ok
  proof -
    obtain raw where raw: "r = Some raw" using assms k by (cases r) (simp_all add: init_client_def 1)
    obtain ok2 c2 s2 where 2: "parse_client E raw c1 s1 = (ok2, c2, s2)" by (metis prod_cases3)
    have ok2 using assms k by (cases ok2) (simp_all add: init_client_def 1 raw 2)
    moreover have "named cfg x" "raw_of cfg x = Some raw" using l(1) by (simp_all add: raw split: if_splits)
    ultimately show ?thesis using parse_client_spec(1) [OF 2] unfolding hv by blast
  qed
  assume "head_valid cfg x"
  then obtain raw where raw: "r = Some raw" "raw_of cfg x = Some raw"
    and p: "parse_refresh_rate (r_refresh raw) \<noteq> None \<and> parse_data_type (r_type raw) \<noteq> None
      \<and> parse_protocol (r_protocol raw) \<noteq> None \<and> parse_counter_type (r_counter raw) \<noteq> None
      \<and> parse_computation (r_computation raw) \<noteq> None"
    using l(1) unfolding hv by (auto simp del: words_hidden)
  obtain ok2 c2 s2 where 2: "parse_client E raw c1 s1 = (ok2, c2, s2)" by (metis prod_cases3)
  have ok2: ok2 using parse_client_spec(1) [OF 2] p by blast
  have "innerIdx c2 = i \<and> head_described cfg x c2"
    using parse_client_spec(2) [OF 2 ok2] l(2) raw_of_Some [OF raw(2)] raw(1)
    by (simp add: head_described_def choice_eq del: words_hidden)
  moreover have "(case protocol c2 of CP_MODBUS \<Rightarrow> read_modbus E cfg (Some x) (r_type raw) c2 s2
         | CP_OPC \<Rightarrow> read_opc E cfg (Some x) oc c2 s2) = (ok, c', s')"
    using assms ok2 by (simp add: init_client_def 1 raw(1) 2)
  ultimately show "\<exists>t c2 s2. innerIdx c2 = i \<and> head_described cfg x c2
      \<and> (case protocol c2 of CP_MODBUS \<Rightarrow> read_modbus E cfg (Some x) t c2 s2
         | CP_OPC \<Rightarrow> read_opc E cfg (Some x) oc c2 s2) = (ok, c', s')" by blast
qed

text \<open>The settings of the two protocols leave the head alone.\<close>

lemma modbus_tcp_spec:
  assumes "read_modbus_tcp E cfg (Some x) c s = (ok, c', s')"
  shows "ok \<longleftrightarrow> address_given cfg x ''TCP''"
    and "ok \<Longrightarrow> \<exists>b. c' = c\<lparr>modbus := b\<rparr> \<and> mb_id b = mb_id (modbus c) \<and> mb_offset b = mb_offset (modbus c)
      \<and> addressed_as cfg x ''TCP'' b"
  using assms unfolding read_modbus_tcp_def Let_def set_modbus_def address_given_def addressed_as_def
  by (auto split: prod.splits option.splits dest!: need_given)

lemma modbus_rtu_spec:
  assumes "read_modbus_rtu E cfg (Some x) c s = (ok, c', s')"
  shows "ok \<longleftrightarrow> address_given cfg x ''RTU''"
    and "ok \<Longrightarrow> \<exists>b. c' = c\<lparr>modbus := b\<rparr> \<and> mb_id b = mb_id (modbus c) \<and> mb_offset b = mb_offset (modbus c)
      \<and> addressed_as cfg x ''RTU'' b"
  using assms unfolding read_modbus_rtu_def Let_def set_modbus_def address_given_def addressed_as_def
  by (auto split: prod.splits option.splits dest!: need_given)

lemma modbus_address_spec:
  assumes "read_modbus_address E cfg (Some x) ty c s = (ok, c', s')"
  shows "ok \<longleftrightarrow> address_given cfg x ty"
    and "ok \<Longrightarrow> \<exists>b. c' = c\<lparr>modbus := b\<rparr> \<and> mb_id b = mb_id (modbus c) \<and> mb_offset b = mb_offset (modbus c)
      \<and> addressed_as cfg x ty b"
proof -
  consider "ty = ''TCP''" | "ty = ''RTU''" | "ty \<noteq> ''TCP''" "ty \<noteq> ''RTU''" by blast
  then have "(ok \<longleftrightarrow> address_given cfg x ty) \<and> (ok \<longrightarrow> (\<exists>b. c' = c\<lparr>modbus := b\<rparr>
      \<and> mb_id b = mb_id (modbus c) \<and> mb_offset b = mb_offset (modbus c) \<and> addressed_as cfg x ty b))"
  proof cases
    case 1
    with assms modbus_tcp_spec [of E cfg x c s ok c' s'] show ?thesis by (simp add: read_modbus_address_def)
  next
    case 2
    with assms modbus_rtu_spec [of E cfg x c s ok c' s'] show ?thesis by (simp add: read_modbus_address_def)
  next
    case 3
    with assms have "ok \<and> c' = c\<lparr>modbus := modbus c\<rparr>" by (simp add: read_modbus_address_def)
    with 3 show ?thesis unfolding address_given_def addressed_as_def by blast
  qed
  then show "ok \<longleftrightarrow> address_given cfg x ty" "ok \<Longrightarrow> \<exists>b. c' = c\<lparr>modbus := b\<rparr>
      \<and> mb_id b = mb_id (modbus c) \<and> mb_offset b = mb_offset (modbus c) \<and> addressed_as cfg x ty b"
    by blast+
qed

lemma read_modbus_spec:
  assumes "read_modbus E cfg (Some x) t c s = (ok, c', s')" and "choice parse_data_type cfg x ''data_type'' = Some (cs_dataType c)"
  shows "ok \<longleftrightarrow> modbus_valid cfg x"
    and "ok \<Longrightarrow> (\<exists>b. c' = c\<lparr>modbus := b\<rparr>) \<and> modbus_described cfg x c'"
proof -
  have "(ok \<longleftrightarrow> modbus_valid cfg x) \<and> (ok \<longrightarrow> (\<exists>b. c' = c\<lparr>modbus := b\<rparr>) \<and> modbus_described cfg x c')"
  proof (cases "given_int cfg x ''mb_id'' = None \<or> given_int cfg x ''mb_offset'' = None \<or> given cfg x ''mb_type'' = None")
    case True
    then have "\<not> ok" using assms(1) unfolding read_modbus_def Let_def
      by (auto split: prod.splits option.splits dest!: need_given)
    with True show ?thesis by (auto simp: modbus_valid_def)
  next
    case False
    then obtain n f ty where all: "given_int cfg x ''mb_id'' = Some n" "given_int cfg x ''mb_offset'' = Some f"
      "given cfg x ''mb_type'' = Some ty" by auto
    let ?c = "c\<lparr>modbus := (modbus c)\<lparr>mb_id := n, mb_offset := f\<rparr>\<rparr>"
    obtain ok2 c2 s2 where a: "read_modbus_address E cfg (Some x) ty ?c s = (ok2, c2, s2)" by (metis prod_cases3)
    then have r: "(if \<not> ok2 then (False, c2, s2) else set_registers E t c2 s2) = (ok, c', s')"
      using assms(1) unfolding read_modbus_def Let_def by (simp add: all set_modbus_def)
    have valid: "modbus_valid cfg x \<longleftrightarrow> address_given cfg x ty \<and> cs_dataType c \<noteq> MDT_CHAR"
      by (auto simp: modbus_valid_def all assms(2))
    note a = modbus_address_spec [OF a]
    show ?thesis
    proof (cases ok2)
      case False
      with r a(1) valid show ?thesis by simp
    next
      case True
      then obtain b where b: "c2 = c\<lparr>modbus := b\<rparr>" "mb_id b = n" "mb_offset b = f" "addressed_as cfg x ty b"
        using a(2) by auto
      have d: "modbus_described cfg x (c\<lparr>modbus := b\<lparr>registersToRead := k\<rparr>\<rparr>) \<longleftrightarrow> registers_for (cs_dataType c) = Some k" for k
        using b(2-4) all by (simp add: modbus_described_def addressed_as_def)
      have "set_registers E t c2 s2 = (ok, c', s')" using r True by simp
      moreover have "registers_for (cs_dataType c) = None \<longleftrightarrow> cs_dataType c = MDT_CHAR" by (cases "cs_dataType c") simp_all
      ultimately show ?thesis using a(1) True valid d b(1)
        by (cases "registers_for (cs_dataType c)") (auto simp: set_registers_def set_modbus_def)
    qed
  qed
  then show "ok \<longleftrightarrow> modbus_valid cfg x" "ok \<Longrightarrow> (\<exists>b. c' = c\<lparr>modbus := b\<rparr>) \<and> modbus_described cfg x c'" by blast+
qed

text \<open>The server settings that every OPC UA client shares.\<close>

definition opc_section :: "config_t \<Rightarrow> opc_conf option \<Rightarrow> bool" where
  "opc_section cfg oconf \<longleftrightarrow> (case oconf of
      None \<Rightarrow> config_lookup cfg ''opc_ua'' = None
    | Some oc \<Rightarrow> config_lookup cfg ''opc_ua'' \<noteq> None \<and> (case section_head cfg ''opc_ua'' of None \<Rightarrow> False | Some y \<Rightarrow>
        given cfg y ''server'' = Some (oc_server oc) \<and> oc_secure oc = (given cfg y ''secure'' = Some ''Y'')
        \<and> choice parse_security_mode cfg y ''security_mode'' = Some (oc_mode oc)))"

lemma read_opc_spec:
  assumes "read_opc E cfg (Some x) oconf c s = (ok, c', s')" and "opc_section cfg oconf"
  shows "ok \<longleftrightarrow> opc_valid cfg x"
    and "ok \<Longrightarrow> (\<exists>b. c' = c\<lparr>opc := b\<rparr>) \<and> opc_described cfg x c'"
proof -
  have "(ok \<longleftrightarrow> opc_valid cfg x) \<and> (ok \<longrightarrow> (\<exists>b. c' = c\<lparr>opc := b\<rparr>) \<and> opc_described cfg x c')"
  proof (cases oconf)
    case None
    with assms show ?thesis by (simp add: read_opc_def opc_section_def opc_valid_def Let_def)
  next
    case (Some oc)
    show ?thesis
    proof (cases "given_int cfg x ''opc_ns'' = None \<or> given cfg x ''opc_node'' = None")
      case True
      then have "\<not> ok" using assms(1) unfolding read_opc_def Let_def Some
        by (auto split: prod.splits option.splits dest!: need_given)
      with True show ?thesis by (auto simp: opc_valid_def)
    next
      case False
      then obtain n t where all: "given_int cfg x ''opc_ns'' = Some n" "given cfg x ''opc_node'' = Some t" by auto
      have "ok \<and> c' = c\<lparr>opc := (opc c)\<lparr>nameSpace := n, node := Some t, serverName := Some (oc_server oc),
          secure := oc_secure oc, securityMode := oc_mode oc, oc_dataType := cs_dataType c\<rparr>\<rparr>"
        using assms(1) by (auto simp: read_opc_def Let_def Some all)
      moreover have "opc_valid cfg x" using assms(2) by (simp add: opc_valid_def all opc_section_def Some)
      moreover have "opc_described cfg x (c\<lparr>opc := (opc c)\<lparr>nameSpace := n, node := Some t, serverName := Some (oc_server oc),
          secure := oc_secure oc, securityMode := oc_mode oc, oc_dataType := cs_dataType c\<rparr>\<rparr>)"
        using assms(2) by (simp add: opc_described_def opc_section_def Some all Let_def split: option.splits)
      ultimately show ?thesis by blast
    qed
  qed
  then show "ok \<longleftrightarrow> opc_valid cfg x" "ok \<Longrightarrow> (\<exists>b. c' = c\<lparr>opc := b\<rparr>) \<and> opc_described cfg x c'" by blast+
qed

lemma init_client_spec:
  assumes "init_client E cfg (Some x) oconf i c s = (ok, c', s')" and "opc_section cfg oconf"
  shows "ok \<longleftrightarrow> entry_valid cfg x" and "ok \<Longrightarrow> innerIdx c' = i \<and> entry_described cfg x c'"
proof -
  have "(ok \<longleftrightarrow> entry_valid cfg x) \<and> (ok \<longrightarrow> innerIdx c' = i \<and> entry_described cfg x c')"
  proof (cases "head_valid cfg x")
    case False
    with entry_head(1) [OF assms(1)] show ?thesis by (auto simp: entry_valid_def)
  next
    case True
    then obtain t c2 s2 where c2: "innerIdx c2 = i" "head_described cfg x c2"
      and run: "(case protocol c2 of CP_MODBUS \<Rightarrow> read_modbus E cfg (Some x) t c2 s2
         | CP_OPC \<Rightarrow> read_opc E cfg (Some x) oconf c2 s2) = (ok, c', s')"
      using entry_head(2) [OF assms(1)] by blast
    have p: "choice parse_protocol cfg x ''protocol'' = Some (protocol c2)"
      "choice parse_data_type cfg x ''data_type'' = Some (cs_dataType c2)" using c2(2) by (simp_all add: head_described_def)
    show ?thesis
    proof (cases "protocol c2")
      case CP_MODBUS
      with run read_modbus_spec [of E cfg x t c2 s2 ok c' s'] p c2 True show ?thesis
        by (auto simp: entry_valid_def entry_described_def head_described_def)
    next
      case CP_OPC
      with run read_opc_spec [of E cfg x oconf c2 s2 ok c' s', OF _ assms(2)] p c2 True show ?thesis
        by (auto simp: entry_valid_def entry_described_def head_described_def)
    qed
  qed
  then show "ok \<longleftrightarrow> entry_valid cfg x" "ok \<Longrightarrow> innerIdx c' = i \<and> entry_described cfg x c'" by blast+
qed

section \<open>The whole file\<close>

definition entry_at :: "config_t \<Rightarrow> config_setting_t \<Rightarrow> manager_t \<Rightarrow> InnerIdx \<Rightarrow> bool" where
  "entry_at cfg cc m j \<longleftrightarrow> (case config_setting_get_elem cfg cc j of None \<Rightarrow> False | Some x \<Rightarrow>
     innerIdx (client m j) = j \<and> entry_described cfg x (client m j))"

lemma init_clients_spec:
  assumes "opc_section cfg oconf"
  shows "init_clients E cfg cc oconf n i m s = (ok, m', s') \<Longrightarrow> length (clientSettings m) = MAX_CLIENT_NUM + 1 \<Longrightarrow>
     0 \<le> i \<Longrightarrow> i + int n \<le> int MAX_CLIENT_NUM \<Longrightarrow>
     (ok \<longleftrightarrow> (\<forall>j < n. case config_setting_get_elem cfg cc (i + int j) of None \<Rightarrow> False | Some x \<Rightarrow> entry_valid cfg x))
     \<and> (ok \<longrightarrow> clientsCnt m' = clientsCnt m \<and> sendInterval m' = sendInterval m
          \<and> (\<forall>j. 0 \<le> j \<and> j < i \<longrightarrow> client m' j = client m j)
          \<and> (\<forall>j < n. entry_at cfg cc m' (i + int j)))"
proof (induction n arbitrary: i m s)
  case (Suc n)
  let ?el = "config_setting_get_elem cfg cc i"
  obtain ok1 c s1 where c: "init_client E cfg ?el oconf i (client m i) s = (ok1, c, s1)" by (metis prod_cases3)
  let ?m = "put_client i c m"
  have cm: "client ?m j = (if nat j = nat i then c else client m j)" for j
    using Suc.prems(2-4) by (intro client_put) linarith
  have split: "(\<forall>j < Suc n. Q j) \<longleftrightarrow> Q 0 \<and> (\<forall>j < n. Q (Suc j))" for Q :: "nat \<Rightarrow> bool"
    by (auto simp: less_Suc_eq_0_disj)
  have ok1: "ok1 \<longleftrightarrow> (case ?el of None \<Rightarrow> False | Some x \<Rightarrow> entry_valid cfg x)"
  proof (cases ?el)
    case None
    obtain r c1 s2 where "lookup_client E cfg None i (client m i) s = (r, c1, s2)" by (metis prod_cases3)
    with lookup_client_missing [OF this] c None show ?thesis by (simp add: init_client_def)
  next
    case (Some x)
    with init_client_spec(1) [OF c [unfolded Some] assms] show ?thesis by simp
  qed
  show ?case
  proof (cases ok1)
    case False
    with Suc.prems(1) ok1 show ?thesis unfolding split by (simp add: c)
  next
    case True
    then obtain x where x: "?el = Some x" using ok1 by (cases ?el) simp_all
    have d: "innerIdx c = i \<and> entry_described cfg x c" using init_client_spec(2) [OF c [unfolded x] assms True] .
    have rest: "init_clients E cfg cc oconf n (i + 1) ?m s1 = (ok, m', s')" using Suc.prems(1) True by (simp add: c)
    have "length (clientSettings ?m) = MAX_CLIENT_NUM + 1" "0 \<le> i + 1" "i + 1 + int n \<le> int MAX_CLIENT_NUM"
      using Suc.prems(2-4) by simp_all
    note ih = Suc.IH [OF rest this]
    have "client m' i = c" if ok using ih that Suc.prems(3) by (auto simp: cm)
    then have "entry_at cfg cc m' i" if ok using that d by (simp add: entry_at_def x)
    with ih True ok1 Suc.prems(3) show ?thesis unfolding split by (auto simp: cm add.assoc)
  qed
qed simp

lemma read_common_spec:
  assumes "read_common E cfg m s = (ok, m', s')"
  shows "ok \<longleftrightarrow> interval_of cfg \<noteq> None" and "ok \<Longrightarrow> interval_of cfg = Some (sendInterval m')"
    and "length (clientSettings m') = length (clientSettings m)"
  using assms unfolding read_common_def interval_of_def section_head_def Let_def
  by (auto split: option.splits prod.splits dest!: need_given)

lemma read_opc_ua_spec:
  assumes "read_opc_ua E cfg s = (ok, oconf, s')"
  shows "ok \<longleftrightarrow> server_valid cfg" and "ok \<Longrightarrow> opc_section cfg oconf"
proof -
  have "(ok \<longleftrightarrow> server_valid cfg) \<and> (ok \<longrightarrow> opc_section cfg oconf)"
  proof (cases "section_head cfg ''opc_ua''")
    case None
    then show ?thesis using assms unfolding read_opc_ua_def section_head_def server_valid_def opc_section_def Let_def
      by (auto split: option.splits prod.splits dest!: need_given)
  next
    case (Some y)
    then obtain n where n: "config_lookup cfg ''opc_ua'' = Some n" "config_setting_get_elem cfg n 0 = Some y"
      by (auto simp: section_head_def split: bind_splits)
    show ?thesis
    proof (cases "given cfg y ''server'' = None \<or> given cfg y ''secure'' = None \<or> given cfg y ''security_mode'' = None")
      case True
      then have "\<not> ok" using assms unfolding read_opc_ua_def Let_def
        by (auto simp: n simp del: parse_security_mode.simps split: option.splits prod.splits dest!: need_given)
      with True show ?thesis by (auto simp: server_valid_def Some choice_eq split: option.splits)
    next
      case False
      then obtain a b c where all: "given cfg y ''server'' = Some a" "given cfg y ''secure'' = Some b"
        "given cfg y ''security_mode'' = Some c" by auto
      show ?thesis
      proof (cases "parse_security_mode c")
        case None
        with assms have "\<not> ok" by (simp add: read_opc_ua_def n all Let_def del: parse_security_mode.simps)
        with None show ?thesis by (simp add: server_valid_def Some all choice_eq del: parse_security_mode.simps)
      next
        case (Some md)
        with assms have "ok \<and> oconf = Some \<lparr>oc_server = a, oc_secure = (b = ''Y''), oc_mode = md\<rparr>"
          by (simp add: read_opc_ua_def n all Let_def del: parse_security_mode.simps)
        with Some show ?thesis
          by (simp add: server_valid_def opc_section_def \<open>section_head cfg ''opc_ua'' = Some y\<close> n all choice_eq
              del: parse_security_mode.simps)
      qed
    qed
  qed
  then show "ok \<longleftrightarrow> server_valid cfg" "ok \<Longrightarrow> opc_section cfg oconf" by blast+
qed

lemma init_config_spec:
  assumes "length (clientSettings m) = MAX_CLIENT_NUM + 1" and "\<forall>n. 0 \<le> config_setting_length cfg n"
    and "manager_init_config E cfg m s = (ok, m', s')"
  shows "ok \<longleftrightarrow> config_valid cfg"
    and "ok \<Longrightarrow> interval_of cfg = Some (sendInterval m')
      \<and> (\<exists>cc. config_lookup cfg ''clients'' = Some cc \<and> clientsCnt m' = config_setting_length cfg cc
           \<and> (\<forall>j. in_range m' j \<longrightarrow> entry_at cfg cc m' j))"
proof -
  obtain ok1 m1 s1 where 1: "read_common E cfg m s = (ok1, m1, s1)" by (metis prod_cases3)
  obtain ok2 oconf s2 where 2: "read_opc_ua E cfg s1 = (ok2, oconf, s2)" by (metis prod_cases3)
  note c = read_common_spec [OF 1] and o = read_opc_ua_spec [OF 2]
  have run: "(ok, m', s') = (if \<not> ok1 then (False, m1, s1) else if \<not> ok2 then (False, m1, s2)
      else read_clients E cfg oconf m1 s2)"
    using assms(3) by (simp add: manager_init_config_def 1 2 split: if_splits)
  have "(ok \<longleftrightarrow> config_valid cfg) \<and> (ok \<longrightarrow> interval_of cfg = Some (sendInterval m')
      \<and> (\<exists>cc. config_lookup cfg ''clients'' = Some cc \<and> clientsCnt m' = config_setting_length cfg cc
           \<and> (\<forall>j. in_range m' j \<longrightarrow> entry_at cfg cc m' j)))"
  proof (cases "ok1 \<and> ok2")
    case False
    then have "\<not> ok" using run by (auto split: if_splits)
    with False c(1) o(1) show ?thesis by (auto simp: config_valid_def)
  next
    case True
    then have r: "read_clients E cfg oconf m1 s2 = (ok, m', s')" using run by simp
    have pre: "interval_of cfg \<noteq> None" "server_valid cfg" "opc_section cfg oconf" "interval_of cfg = Some (sendInterval m1)"
      using True c o by auto
    show ?thesis
    proof (cases "config_lookup cfg ''clients''")
      case None
      with r show ?thesis by (simp add: read_clients_def config_valid_def)
    next
      case (Some cc)
      let ?n = "config_setting_length cfg cc" and ?m = "m1\<lparr>clientsCnt := config_setting_length cfg cc\<rparr>"
      have n0: "0 \<le> ?n" using assms(2) by simp
      show ?thesis
      proof (cases "1 \<le> ?n \<and> ?n \<le> int MAX_CLIENT_NUM")
        case False
        with r n0 have "\<not> ok" by (auto simp: read_clients_def Some Let_def split: if_splits)
        with False Some show ?thesis by (auto simp: config_valid_def)
      next
        case n: True
        then have "init_clients E cfg cc oconf (nat ?n) 0 ?m s2 = (ok, m', s')"
          using r by (auto simp: read_clients_def Some Let_def split: if_splits)
        from init_clients_spec [OF pre(3) this] n c(3) assms(1)
        have i: "(ok \<longleftrightarrow> entries_valid cfg cc (nat ?n)) \<and> (ok \<longrightarrow> clientsCnt m' = ?n \<and> sendInterval m' = sendInterval m1
          \<and> (\<forall>j < nat ?n. entry_at cfg cc m' (int j)))" by (simp add: entries_valid_def)
        have "entry_at cfg cc m' j" if ok "in_range m' j" for j
          using i that(1) that(2) spec [of "\<lambda>j. j < nat ?n \<longrightarrow> entry_at cfg cc m' (int j)" "nat j"]
          by (auto simp: in_range_def)
        with i n pre Some show ?thesis by (auto simp: config_valid_def)
      qed
    qed
  qed
  then show "ok \<longleftrightarrow> config_valid cfg" "ok \<Longrightarrow> interval_of cfg = Some (sendInterval m')
      \<and> (\<exists>cc. config_lookup cfg ''clients'' = Some cc \<and> clientsCnt m' = config_setting_length cfg cc
           \<and> (\<forall>j. in_range m' j \<longrightarrow> entry_at cfg cc m' j))" by blast+
qed

text \<open>
  C6. A configuration is accepted exactly when it is valid: it names a send interval, its OPC UA section is
  complete if there is one, and it has 1 to 50 clients each with every common parameter, all words
  among those allowed, and the settings of its protocol.  The table then holds, in order, the clients
  that the entries describe, parameter by parameter.
\<close>

theorem configuration_faithful:
  assumes "length (clientSettings m) = MAX_CLIENT_NUM + 1" and "\<forall>n. 0 \<le> config_setting_length cfg n"
  shows "case manager_init_config E cfg m s of (ok, m', s') \<Rightarrow>
     (ok \<longleftrightarrow> config_valid cfg)
     \<and> (ok \<longrightarrow> interval_of cfg = Some (sendInterval m')
          \<and> (\<exists>cc. config_lookup cfg ''clients'' = Some cc \<and> clientsCnt m' = config_setting_length cfg cc
               \<and> (\<forall>j. in_range m' j \<longrightarrow> entry_at cfg cc m' j)))"
  using init_config_spec [OF assms] by (auto split: prod.splits)

text \<open>The sample configuration, and the same without its computation.\<close>

definition without_computation :: config_t where
  "without_computation = sample_cfg\<lparr>config_setting_lookup_string :=
     (\<lambda>_. (sample_string)(''computation'' := None))\<rparr>"

lemma sample_cfg_valid: "config_valid sample_cfg" "\<not> config_valid without_computation"
  by (simp_all add: config_valid_def interval_of_def section_head_def server_valid_def entries_valid_def entry_valid_def
      head_valid_def modbus_valid_def address_given_def choice_def without_computation_def sample_cfg_def sample_string_def sample_int_def
      MAX_CLIENT_NUM_def MAX_CLIENT_NAME_LEN_def)

theorem configuration_faithful_witness:
  "(case manager_init_config quiet_env sample_cfg manager0 (io0 (\<lambda>_. None)) of (ok, m', s') \<Rightarrow>
      ok \<and> clientsCnt m' = 1 \<and> sendInterval m' = 1 \<and> cs_name (client m' 0) = Some ''tp1''
      \<and> refreshRate (client m' 0) = RR_1s \<and> ipAdress (modbus (client m' 0)) = Some ''10.0.0.1'')
   \<and> \<not> fst (manager_init_config quiet_env without_computation manager0 (io0 (\<lambda>_. None)))"
proof -
  have l: "length (clientSettings manager0) = MAX_CLIENT_NUM + 1" by (simp add: manager0_def)
  have n: "\<forall>n. 0 \<le> config_setting_length sample_cfg n" "\<forall>n. 0 \<le> config_setting_length without_computation n"
    by (simp_all add: sample_cfg_def without_computation_def)
  obtain ok m' s' where r: "manager_init_config quiet_env sample_cfg manager0 (io0 (\<lambda>_. None)) = (ok, m', s')"
    by (metis prod_cases3)
  have k: "ok" "interval_of sample_cfg = Some (sendInterval m')"
    and "\<exists>cc. config_lookup sample_cfg ''clients'' = Some cc \<and> clientsCnt m' = config_setting_length sample_cfg cc
      \<and> (\<forall>j. in_range m' j \<longrightarrow> entry_at sample_cfg cc m' j)"
    using configuration_faithful [OF l n(1), of quiet_env "io0 (\<lambda>_. None)"] sample_cfg_valid(1) by (simp_all add: r)
  then have c: "clientsCnt m' = 1" "entry_described sample_cfg 4 (client m' 0)"
    by (auto simp: sample_cfg_def in_range_def entry_at_def)
  have "cs_name (client m' 0) = Some ''tp1'' \<and> refreshRate (client m' 0) = RR_1s
      \<and> ipAdress (modbus (client m' 0)) = Some ''10.0.0.1''"
    using c(2) by (auto simp: entry_described_def head_described_def modbus_described_def addressed_as_def choice_def sample_cfg_def
        sample_string_def Let_def split: ClientProtocol.splits)
  moreover have "sendInterval m' = 1"
    using k(2) by (simp add: interval_of_def section_head_def sample_cfg_def sample_int_def)
  moreover have "\<not> fst (manager_init_config quiet_env without_computation manager0 (io0 (\<lambda>_. None)))"
    using configuration_faithful [OF l n(2), of quiet_env "io0 (\<lambda>_. None)"] sample_cfg_valid(2) by (simp add: split_beta)
  ultimately show ?thesis using k(1) c(1) by (simp add: r)
qed

end
