(* ===== verification/TsNulls.thy ===== *)
theory TsNulls
  imports TsFaults ConfigSpec
begin

text \<open>
  Null pointers.  A predicate that survives everything but a null dereference is kept by polling a
  client, provided that the library's allocations succeed and that each client of the table has the
  address or the node it is read from.
\<close>

section \<open>What the run relies on\<close>

text \<open>
  The allocations of the OPC UA stack succeed, a good status comes with a value, and the log file can
  be opened again for writing once it was archived.
\<close>

definition sturdy_env :: "env \<Rightarrow> bool" where
  "sturdy_env E \<longleftrightarrow> opc_memory E \<and> (\<forall>h. rc E (Ua C_UA_Variant_new # h) \<noteq> 0)
     \<and> (\<forall>h. fst (UA_Client_readAttribute (ua_read_r E h)) = UA_STATUSCODE_GOOD \<longrightarrow>
          snd (UA_Client_readAttribute (ua_read_r E h)) \<noteq> None)
     \<and> (\<forall>p h. rc E (Stdio (C_fopen p ''w'') # h) \<noteq> 0)"

text \<open>Every client has its address or its node.\<close>

definition furnished :: "manager_t \<Rightarrow> bool" where
  "furnished m \<longleftrightarrow> sized m \<and> located_table m
     \<and> (\<forall>i. in_range m i \<and> protocol (client m i) = CP_OPC \<longrightarrow> node (opc (client m i)) \<noteq> None)"

lemma same_table_furnished: "same_table m m' \<Longrightarrow> furnished m \<Longrightarrow> furnished m'"
  unfolding furnished_def using same_table_sized [of m m'] same_table_located [of m m'] same_table_range [of m m']
    same_table_fields(4,8) [of m m'] by metis

lemma kept_furnished: "kept m m' \<Longrightarrow> furnished m \<Longrightarrow> furnished m'"
  using same_table_furnished by (auto simp: kept_def)

section \<open>Polling without a null pointer\<close>

locale null_free = resilient P E "{Null_Deref}" for P :: "io \<Rightarrow> bool" and E :: env +
  assumes unseen [simp]: "P (emit c s) = P s"
begin

lemma kept_opc_receive:
  assumes "sturdy_env E" and "node c \<noteq> None" and "P s"
  shows "P (snd (snd (opcReceiveData E c cd h s)))"
proof -
  have conv: "P s \<Longrightarrow> P (snd (snd (opc_convert E c v cd s)))" for v cd s
    by (simp add: opc_convert_def opc_store_int_def Let_def split: DataType.splits ua_value.splits)
  have read: "P (snd (snd (opc_convert_variant E c (snd (UA_Client_readAttribute (ua_read_r E hh))) cd s)))"
    if s: "P s" and good: "fst (UA_Client_readAttribute (ua_read_r E hh)) = UA_STATUSCODE_GOOD" for hh cd s
  proof -
    obtain v where "snd (UA_Client_readAttribute (ua_read_r E hh)) = Some v"
      using assms(1) good by (auto simp: sturdy_env_def)
    then show ?thesis using conv s by (simp add: opc_convert_variant_def)
  qed
  have new: "fst (ext_new E (Ua C_UA_Variant_new) s) \<noteq> None" for s :: io
    using assms(1) by (simp add: ext_new_def sturdy_env_def)
  show ?thesis
    using assms(2,3) new by (auto simp: opcReceiveData_def Let_def split_beta read kept_null split: option.splits)
qed

lemma kept_modbus_data: "P s \<Longrightarrow> P (snd (snd (modbusToClientData E d dt cd s)))"
  by (simp add: modbusToClientData_def Let_def split: DataType.splits)

lemma kept_reconnect:
  assumes "sturdy_env E" and "furnished m" and "in_range m i" and "P s"
  shows "P (snd (snd (manager_reconnect E i m s)))"
proof -
  have "\<not> (i < 0 \<or> clientsCnt m - 1 < i)" using assms(3) by (simp add: in_range_def)
  moreover have "opc_memory E" using assms(1) by (simp add: sturdy_env_def)
  moreover have "protocol (client m i) = CP_MODBUS \<Longrightarrow> located (modbus (client m i))"
    using assms(2,3) by (simp add: furnished_def located_table_def)
  ultimately show ?thesis
    using assms(4) by (simp add: manager_reconnect_def Let_def split_beta kept_opc_connecting split: ClientProtocol.splits)
qed

lemma kept_receive_simple:
  assumes "sturdy_env E" and "furnished m" and "in_range m i" and "P s"
  shows "P (snd (snd (snd (manager_receive_data_simple E i cd m s))))"
proof -
  have "\<not> (i < 0 \<or> clientsCnt m - 1 < i)" using assms(3) by (simp add: in_range_def)
  moreover have "protocol (client m i) = CP_OPC \<Longrightarrow> node (opc (client m i)) \<noteq> None"
    using assms(2,3) by (simp add: furnished_def)
  ultimately show ?thesis
    using assms(4) kept_opc_receive [OF assms(1)]
    by (simp add: manager_receive_data_simple_def Let_def split_beta kept_modbus_data split: ClientProtocol.splits)
qed

lemma kept_receive_again:
  assumes "sturdy_env E" and "furnished m" and "in_range m i" and "P s"
  shows "P (snd (snd (snd (receive_again E i cd m s))))"
proof -
  let ?m = "setConnectStatus i False m"
  let ?s = "cm_LOG_E E 768 ''manager_receive_data''
    (''Error receiving data, client: '' @ name_of m i @ '', try to reconnect'') s"
  have m: "furnished ?m" "in_range ?m i" using same_table_furnished [OF same_table_status [OF same_table_refl]] assms(2,3) by simp_all
  obtain re m1 s1 where 1: "manager_reconnect E i ?m ?s = (re, m1, s1)" by (metis prod_cases3)
  have "P ?s" using assms(4) by (rule kept_LOG_E)
  from kept_reconnect [OF assms(1) m this] have s1: "P s1" by (simp only: 1 snd_conv)
  have "sized ?m" using m(1) by (simp add: furnished_def)
  from reconnect_result(1) [OF this m(2) 1] have "furnished m1" "in_range m1 i"
    using kept_furnished kept_range m by auto
  from kept_receive_simple [OF assms(1) this s1, of cd] s1 show ?thesis
    unfolding receive_again_def Let_def 1 prod.case by (simp add: split_beta)
qed

lemma kept_ensure:
  assumes "sturdy_env E" and "furnished m" and "in_range m i" and "P s"
  shows "P (snd (snd (ensure_connected E i m s)))"
proof -
  let ?s = "cm_LOG_E E 755 ''manager_receive_data''
    (''Client: '' @ name_of m i @ '' not connected, try to reconnect'') s"
  have "P ?s" using assms(4) by (rule kept_LOG_E)
  from kept_reconnect [OF assms(1-3) this] show ?thesis
    using assms(4) unfolding ensure_connected_def Let_def by (simp add: split_beta)
qed

lemma kept_receive:
  assumes "sturdy_env E" and "furnished m" and "table_wf m" and "in_range m i" and "P s"
  shows "P (snd (snd (snd (manager_receive_data E i cd m s))))"
proof -
  have r: "\<not> (i < 0 \<or> clientsCnt m - 1 < i)" using assms(4) by (simp add: in_range_def)
  obtain ok m1 s1 where 1: "ensure_connected E i m s = (ok, m1, s1)" by (metis prod_cases3)
  have s1: "P s1" using kept_ensure [OF assms(1,2,4,5)] by (simp add: 1)
  have k1: "kept m m1" using ensure_connected_result(1) [OF table_wf_sized [OF assms(3)] assms(4) 1] .
  have m1: "furnished m1" "table_wf m1" "in_range m1 i"
    using kept_furnished [OF k1 assms(2)] kept_wf [OF k1 assms(3)] kept_range [OF k1] assms(4) by simp_all
  obtain ok2 cd2 m2 s2 where 2: "manager_receive_data_simple E i cd m1 s1 = (ok2, cd2, m2, s2)" by (metis prod_cases4)
  have s2: "P s2" using kept_receive_simple [OF assms(1) m1(1,3) s1, of cd] by (simp add: 2)
  have k2: "kept m1 m2" using receive_simple_result(1) [OF m1(2,3) 2] .
  have "furnished m2" "in_range m2 i" using kept_furnished [OF k2 m1(1)] kept_range [OF k2] m1(3) by simp_all
  from kept_receive_again [OF assms(1) this s2, of cd2] s1 s2 show ?thesis
    unfolding manager_receive_data_def Let_def if_not_P [OF r] 1 prod.case by (simp add: 2)
qed

section \<open>The stages\<close>

text \<open>None of them looks at a pointer that may be null.\<close>

lemma kept_counterUpdate: "P s \<Longrightarrow> P (snd (snd (counterUpdate E c cd cs s)))"
proof -
  have "P s \<Longrightarrow> P (snd (snd (update_info E ct dt cd ci s)))" for ct dt ci s
    unfolding update_info_def update_difference_def update_not_100_def update_cumul_def int_delta_def Let_def
    by (simp split: CounterType.splits DataType.splits)
  then show "P s \<Longrightarrow> P (snd (snd (counterUpdate E c cd cs s)))"
    by (simp add: counterUpdate_def Let_def split_beta)
qed

lemma kept_update_stage: "P s \<Longrightarrow> P (snd (update_stage E l i p s))"
  using kept_counterUpdate [of s "client (mgr p) i" "clientData p" "cnt p"]
  by (simp add: update_stage_def Let_def split_beta)

lemma kept_get_stage: "P s \<Longrightarrow> P (snd (get_stage E l i p s))"
  by (simp add: get_stage_def counterGet_def deliver_def Let_def split_beta split: CounterType.splits DataType.splits)

lemma kept_computation_stage: "P s \<Longrightarrow> P (snd (computation_stage E l i p s))"
  by (simp add: computation_stage_def client_computation_def Let_def split_beta split: DataType.splits)

lemma kept_client_to_mqtt: "P s \<Longrightarrow> P (snd (snd (client_to_mqtt E c cd d s)))"
  by (simp add: client_to_mqtt_def ext_str_def Let_def split: DataType.splits)

lemma kept_convert_stage: "P s \<Longrightarrow> P (snd (snd (convert_stage E l i p s)))"
  by (simp add: convert_stage_def Let_def split_beta kept_client_to_mqtt)

lemma kept_poll_received: "P s \<Longrightarrow> P (snd (poll_received E l i p s))"
  by (simp add: poll_received_def Let_def split_beta kept_update_stage kept_get_stage kept_computation_stage
      kept_convert_stage)

lemma kept_poll_missing: "P s \<Longrightarrow> P (snd (poll_missing E i p s))"
  by (simp add: poll_missing_def Let_def split_beta kept_update_stage kept_get_stage kept_convert_stage)

lemma kept_poll_client:
  assumes "sturdy_env E" and "furnished (mgr p)" and "poll_wf p" and "P s"
  shows "P (snd (poll_client E l i (p, s)))" and "in_range (mgr p) i \<Longrightarrow> P (snd (poll_client_first E i (p, s)))"
proof -
  obtain ok p1 s1 where 1: "poll_receive E i p s = (ok, p1, s1)" by (metis prod_cases3)
  have s1: "P s1" if "in_range (mgr p) i"
  proof -
    have i: "innerIdx (client (mgr p) i) = i" using assms(3) that by (rule poll_wf_client)
    have "table_wf (mgr p)" using assms(3) by (simp add: poll_wf_def)
    from kept_receive [OF assms(1,2) this that, where s = "log_debug E (''Read data, client: '' @ name_of (mgr p) i) s"
        and cd = "clientData p"] assms(4) 1 show ?thesis
      by (auto simp: poll_receive_def Let_def i split: prod.splits)
  qed
  show "P (snd (poll_client E l i (p, s)))"
    using s1 assms(4) kept_poll_received [of s1 l i p1]
    by (auto simp: poll_client_def get_client_in_range 1 intro!: kept_LOG_E)
  show "in_range (mgr p) i \<Longrightarrow> P (snd (poll_client_first E i (p, s)))"
    using s1 kept_poll_received [of s1 414 i p1] kept_poll_missing [of s1 i p1]
    by (simp add: poll_client_first_def get_client_in_range 1)
qed

lemma kept_poll_fold:
  assumes "sturdy_env E"
  shows "furnished (mgr (fst x)) \<Longrightarrow> poll_wf (fst x) \<Longrightarrow> P (snd x) \<Longrightarrow> P (snd (fold (poll_client E l) is x))"
proof (induction "is" arbitrary: x)
  case (Cons i js)
  obtain p s where x: "x = (p, s)" by (cases x)
  obtain p1 s1 where 1: "poll_client E l i (p, s) = (p1, s1)" by (metis surj_pair)
  have w: "furnished (mgr p)" "poll_wf p" "P s" using Cons.prems by (simp_all add: x)
  have t: "touches i p p1" using poll_client_result [OF w(2) 1] .
  then have "same_table (mgr p) (mgr p1)" by (simp add: touches_def)
  then have "furnished (mgr p1)" "poll_wf p1" using same_table_furnished touches_wf [OF t w(2)] w(1) by simp_all
  moreover have "P s1" using kept_poll_client(1) [OF assms w, of l i] by (simp add: 1)
  ultimately show ?case using Cons.IH by (simp add: x 1)
qed simp

lemma kept_first_fold:
  assumes "sturdy_env E"
  shows "furnished (mgr (fst x)) \<Longrightarrow> poll_wf (fst x) \<Longrightarrow> (\<forall>i \<in> set is. in_range (mgr (fst x)) i) \<Longrightarrow> P (snd x) \<Longrightarrow>
     P (snd (fold (poll_client_first E) is x))"
proof (induction "is" arbitrary: x)
  case (Cons i js)
  obtain p s where x: "x = (p, s)" by (cases x)
  obtain p1 s1 where 1: "poll_client_first E i (p, s) = (p1, s1)" by (metis surj_pair)
  have w: "furnished (mgr p)" "poll_wf p" "P s" "in_range (mgr p) i" using Cons.prems by (simp_all add: x)
  have t: "touches i p p1" using poll_first_result(1) [OF w(2,4) 1] .
  then have "same_table (mgr p) (mgr p1)" by (simp add: touches_def)
  then have "furnished (mgr p1)" "poll_wf p1" "\<forall>j \<in> set js. in_range (mgr p1) j"
    using same_table_furnished touches_wf [OF t w(2)] touches_range [OF t] w(1) Cons.prems(3) by (simp_all add: x)
  moreover have "P s1" using kept_poll_client(2) [OF assms w] by (simp add: 1)
  ultimately show ?case using Cons.IH by (simp add: x 1)
qed simp

section \<open>Sending\<close>

lemma kept_json_loop: "P s \<Longrightarrow> P (snd (snd (json_loop E n ds buf s)))"
  by (induction ds arbitrary: buf s) (simp_all add: Let_def split: option.splits)

lemma kept_send_data: "P s \<Longrightarrow> P (snd (snd (send_data E q data count s)))"
  by (simp add: send_data_def get_json_def mqtt_send_def Let_def split_beta kept_json_loop)

lemma kept_dynamic: "P s \<Longrightarrow> P (snd (set_mqtt_dynamic_fields E data s))"
  by (simp add: set_mqtt_dynamic_fields_def Let_def time_c_def)

lemma kept_reset_counters: "P s \<Longrightarrow> P (snd (reset_counters E n i m cs s))"
  by (induction n arbitrary: i cs s) (simp_all add: counterReset_def Let_def split: option.splits)

lemma kept_do_send: "P s \<Longrightarrow> P (snd (do_send E m s))"
  by (simp add: do_send_def Let_def split_beta kept_dynamic kept_send_data kept_reset_counters)

end

end
