(* ===== verification/TsNullFree.thy ===== *)
theory TsNullFree
  imports TsNulls
begin

text \<open>
  The module's runs never dereference a null pointer when the configuration's sections are not empty
  and every Modbus entry names a type the program knows: initialisation fills in every address,
  and from then on nothing takes one away.
\<close>

section \<open>Configurations that name everything\<close>

text \<open>The sections that are there have the elements that are read.\<close>

definition sections_filled :: "config_t \<Rightarrow> bool" where
  "sections_filled cfg \<longleftrightarrow> elements_exist cfg
     \<and> (\<forall>n. config_lookup cfg ''mqtt'' = Some n \<longrightarrow> config_setting_get_elem cfg n 0 \<noteq> None)"

definition types_known :: "config_t \<Rightarrow> bool" where
  "types_known cfg \<longleftrightarrow> (\<forall>cc j x. config_lookup cfg ''clients'' = Some cc \<and> config_setting_get_elem cfg cc j = Some x
     \<and> choice parse_protocol cfg x ''protocol'' = Some CP_MODBUS \<longrightarrow> given cfg x ''mb_type'' \<in> {Some ''TCP'', Some ''RTU''})"

text \<open>Once the table is set up, every client has its address or its node.\<close>

definition supplied :: "module_t \<Rightarrow> bool" where
  "supplied m \<longleftrightarrow> (ds_manager (dev_status m) \<longrightarrow> furnished (mgr (poll m)))"

lemma entry_located:
  assumes "entry_valid cfg x" and "entry_described cfg x c"
  shows "protocol c = CP_MODBUS \<Longrightarrow> given cfg x ''mb_type'' \<in> {Some ''TCP'', Some ''RTU''} \<Longrightarrow> located (modbus c)"
    and "protocol c = CP_OPC \<Longrightarrow> node (opc c) \<noteq> None"
proof -
  have p: "choice parse_protocol cfg x ''protocol'' = Some (protocol c)"
    using assms(2) by (simp add: entry_described_def head_described_def)
  show "located (modbus c)" if "protocol c = CP_MODBUS" "given cfg x ''mb_type'' \<in> {Some ''TCP'', Some ''RTU''}"
  proof -
    have "modbus_valid cfg x" "modbus_described cfg x c" using assms p that(1) by (simp_all add: entry_valid_def entry_described_def)
    with that(2) show ?thesis
      by (auto simp: modbus_valid_def modbus_described_def address_given_def addressed_as_def located_def)
  qed
  show "node (opc c) \<noteq> None" if "protocol c = CP_OPC"
    using assms p that by (auto simp: entry_valid_def entry_described_def opc_valid_def opc_described_def Let_def)
qed

lemma config_furnishes:
  assumes "length (clientSettings m) = MAX_CLIENT_NUM + 1" and "\<forall>n. 0 \<le> config_setting_length cfg n"
    and "types_known cfg" and "manager_init_config E cfg m s = (True, m', s')"
  shows "furnished m'"
proof -
  have valid: "config_valid cfg" using init_config_spec(1) [OF assms(1,2,4)] by simp
  obtain cc where cc: "config_lookup cfg ''clients'' = Some cc" "clientsCnt m' = config_setting_length cfg cc"
    "\<And>j. in_range m' j \<Longrightarrow> entry_at cfg cc m' j"
    using init_config_spec(2) [OF assms(1,2,4)] by blast
  have "\<exists>x. config_setting_get_elem cfg cc i = Some x \<and> entry_valid cfg x \<and> entry_described cfg x (client m' i)"
    if i: "in_range m' i" for i
  proof -
    obtain x where x: "config_setting_get_elem cfg cc i = Some x" "entry_described cfg x (client m' i)"
      using cc(3) [OF i] by (auto simp: entry_at_def split: option.splits)
    have "nat i < nat (config_setting_length cfg cc)" "int (nat i) = i" using i cc(2) by (auto simp: in_range_def)
    moreover have "entries_valid cfg cc (nat (config_setting_length cfg cc))"
      using valid by (simp add: config_valid_def cc(1))
    ultimately have "entry_valid cfg x" using x(1) unfolding entries_valid_def by fastforce
    with x show ?thesis by blast
  qed
  note entry = this
  have known: "given cfg x ''mb_type'' \<in> {Some ''TCP'', Some ''RTU''}"
    if "config_setting_get_elem cfg cc i = Some x" "entry_described cfg x c" "protocol c = CP_MODBUS" for i x c
  proof -
    have "choice parse_protocol cfg x ''protocol'' = Some CP_MODBUS"
      using that(2,3) by (simp add: entry_described_def head_described_def)
    then show ?thesis using assms(3) cc(1) that(1) unfolding types_known_def by blast
  qed
  have "located_table m'" unfolding located_table_def using entry known entry_located(1) by blast
  moreover have "in_range m' i \<Longrightarrow> protocol (client m' i) = CP_OPC \<Longrightarrow> node (opc (client m' i)) \<noteq> None" for i
    using entry entry_located(2) by blast
  moreover have "sized m'" using init_config_table [OF assms(1,2,4)] by (rule table_wf_sized)
  ultimately show ?thesis by (simp add: furnished_def)
qed

section \<open>The phases\<close>

context null_free
begin

lemma kept_mqtt_init:
  assumes "sections_filled cfg" and "P s"
  shows "P (snd (snd (mqtt_init E cfg q s)))"
proof -
  have "P (snd (mqtt_connect_steps E x st s))" if "P s" for x st s
    using that by (simp add: mqtt_connect_steps_def Let_def split_beta)
  moreover have "P (snd (snd (read_setting cfg q s)))"
    using assms by (auto simp: read_setting_def sections_filled_def Let_def split_beta split: option.splits)
  ultimately show ?thesis by (simp add: mqtt_init_def Let_def split_beta split: option.splits)
qed

lemma kept_init_mqtt:
  assumes "sections_filled cfg" and "P s" and "init_mqtt E cfg m s = (m', s')"
  shows "P s'" and "poll m' = poll m" and "ds_manager (dev_status m') = ds_manager (dev_status m)"
  using assms(2,3) kept_mqtt_init [OF assms(1), of s "mq m"]
  by (auto simp: init_mqtt_def Let_def split: prod.splits if_splits)

lemma kept_init_manager:
  assumes "sturdy_env E" and "sections_filled cfg" and "types_known cfg" and "lengths_ok cfg" and "sizes m" and "P s"
    and "\<not> ds_manager (dev_status m)" and "init_manager E cfg m s = (r, m', s')"
  shows "P s' \<and> supplied m'"
proof -
  have sz: "length (clientSettings (mgr (poll m))) = MAX_CLIENT_NUM + 1" "length (cnt (poll m)) = MAX_CLIENT_NUM"
    using assms(5) by (simp_all add: sizes_def)
  have len: "\<forall>n. 0 \<le> config_setting_length cfg n" using assms(4) by (simp add: lengths_ok_def)
  obtain ok mg s1 where c: "manager_init_config E cfg (mgr (poll m)) s = (ok, mg, s1)" by (metis prod_cases3)
  have s1: "P s1" using kept_init_config [OF assms(6), of cfg "mgr (poll m)"] assms(2) by (simp add: c sections_filled_def)
  show ?thesis
  proof (cases ok)
    case False
    have "P (mn_LOG_E E 72 ''init_sys'' ''Manager ERROR: Wrong config'' s1)" using s1 by (rule kept_LOG_E)
    with False assms(7,8) show ?thesis by (auto simp: init_manager_def c supplied_def)
  next
    case True
    have f: "furnished mg" using config_furnishes [OF sz(1) len assms(3)] c True by simp
    have wf: "table_wf mg" using init_config_table [OF sz(1) len] c True by simp
    obtain ok' mg' s2 where n: "manager_init_connections E mg s1 = (ok', mg', s2)" by (metis prod_cases3)
    let ?s = "if \<not> ok' then mn_LOG_E E 77 ''init_sys'' ''Manager ERROR: Connection fail'' s2 else s2"
    obtain r1 q cs s3 where q: "init_queue E MAX_CLIENT_NUM 0 mg' (queueCleen (qu m)) (cnt (poll m)) ?s = (r1, q, cs, s3)"
      by (metis prod_cases4)
    have w: "sized mg" "0 \<le> clientsCnt mg" using wf by (simp_all add: table_wf_def)
    from init_connections_result [OF this, where E = E and s = s1] have t: "same_table mg mg'" by (simp add: n)
    have "P s2" using kept_init_connections [OF s1, of mg] w f assms(1) by (simp add: n furnished_def sturdy_env_def)
    then have "P ?s" by simp
    moreover have "s3 = ?s"
      using init_queue_run [OF same_table_wf [OF t wf] sz(2), where E = E and q = "qu m" and s = ?s] q by auto
    moreover have "furnished mg'" using t f by (rule same_table_furnished)
    moreover have "s' = s3 \<and> mgr (poll m') = mg'"
      using assms(8) True unfolding init_manager_def Let_def c n prod.case q by (auto split: if_splits)
    ultimately show ?thesis by (simp add: supplied_def)
  qed
qed

lemma kept_init_end:
  assumes "init_timer E m s = (m1, s1)" and "init_finish E m1 s1 = (m', s')" and "P s"
  shows "P s'" and "poll m' = poll m" and "ds_manager (dev_status m') = ds_manager (dev_status m)"
proof -
  have s1: "P s1" using kept_init_timer [OF assms(3), of E m] by (simp add: assms(1))
  show "P s'" using kept_init_finish [OF s1, of m1] by (simp add: assms(2))
  show "poll m' = poll m" "ds_manager (dev_status m') = ds_manager (dev_status m)"
    using assms(1,2) by (auto simp: init_timer_def init_finish_def Let_def split_beta split: if_splits)
qed

lemma kept_init_sys:
  assumes "sturdy_env E" and "sections_filled cfg" and "types_known cfg" and "lengths_ok cfg" and "init_inv m" and "supplied m"
    and "P s" and "init_sys E cfg m s = (r, m', s')"
  shows "P s' \<and> supplied m'"
proof -
  obtain r0 t s0 where t: "timer_stop E (tm m) s = (r0, t, s0)" by (metis prod_cases3)
  let ?m0 = "m\<lparr>tm := t, dev_status := (dev_status m)\<lparr>ds_timer := False\<rparr>\<rparr>"
  obtain m1 s1 where 1: "init_mqtt E cfg ?m0 s0 = (m1, s1)" by (metis surj_pair)
  let ?x = "if ds_manager (dev_status m1) then (0, m1, s1) else init_manager E cfg m1 s1"
  obtain r2 m2 s2 where 2: "?x = (r2, m2, s2)" by (metis prod_cases3)
  have "timer_wf t" using timer_wf_update(1) [of E "tm m" s] assms(5) by (simp add: t init_inv_def)
  then have "init_inv ?m0" using assms(5) by (simp add: init_inv_def flags_ok_def)
  then have i1: "init_inv m1" using 1 by (rule init_mqtt_inv)
  have "P s0" using kept_timer(2) [of E "tm m" s] assms(7) by (simp add: t)
  note k1 = kept_init_mqtt [OF assms(2) this 1]
  have x2: "P s2 \<and> supplied m2"
  proof (cases "ds_manager (dev_status m1)")
    case True
    with 2 k1 assms(6) show ?thesis by (auto simp: supplied_def)
  next
    case False
    with 2 have "init_manager E cfg m1 s1 = (r2, m2, s2)" by simp
    from kept_init_manager [OF assms(1-4) _ k1(1) False this] i1 show ?thesis by (simp add: init_inv_def)
  qed
  obtain m3 s3 where 3: "init_timer E m2 s2 = (m3, s3)" by (metis surj_pair)
  obtain m4 s4 where 4: "init_finish E m3 s3 = (m4, s4)" by (metis surj_pair)
  have "P s4 \<and> supplied m4" using kept_init_end [OF 3 4] x2 by (simp add: supplied_def)
  moreover have "init_sys E cfg m s = (if r2 \<noteq> 0 then (r2, m2, s2) else (0, m4, s4))"
    by (simp only: init_sys_def Let_def t prod.case 1 2 3 4)
  ultimately show ?thesis using assms(8) x2 by (auto split: if_splits)
qed

lemma kept_start_up:
  assumes "sturdy_env E" and "ready m" and "furnished (mgr (poll m))" and "P s" and "start_up E m s = (m', s')"
  shows "P s' \<and> furnished (mgr (poll m'))"
proof -
  let ?p = "poll m" and ?n = "clientsCnt (mgr (poll m))"
  have w: "poll_wf ?p" and len: "length (mqtt_data ?p) = mqtt_slots" using assms(2) by (simp_all add: ready_def poll_wf_def)
  obtain k s1 where 1: "manager_get_send_interval E (mgr ?p) s = (k, s1)" by (metis surj_pair)
  obtain data s2 where 2: "set_mqtt_dynamic_fields E (set_mqtt_static_fields (mqtt_data ?p)) s1 = (data, s2)"
    by (metis surj_pair)
  let ?p1 = "?p\<lparr>mqtt_data := data\<rparr>"
  have "P s1" using kept_send_interval [OF assms(4), of "mgr ?p"] by (simp add: 1)
  then have s2: "P s2" using kept_dynamic [of s1 "set_mqtt_static_fields (mqtt_data ?p)"] by (simp add: 2)
  have w1: "poll_wf ?p1"
    using w dynamic_fields_result(1) [OF static_fields_result(1) [OF len] 2] by (simp add: poll_wf_def)
  obtain p' t where f: "first_poll E ?n (?p1, s2) = (p', t)" by (metis surj_pair)
  have r: "\<forall>i \<in> set [0..?n - 1]. in_range (mgr ?p1) i" by (auto simp: in_range_def)
  have "P t" using kept_first_fold [OF assms(1), of "(?p1, s2)" "[0..?n - 1]"] w1 r s2 assms(3) f by (simp add: first_poll_def)
  moreover have "same_table (mgr ?p1) (mgr p')"
    using first_fold_result [of "(?p1, s2)" "[0..?n - 1]" "{i. in_range (mgr ?p) i}" E] w1 r f
    by (auto simp: first_poll_def touches_all_def)
  then have "furnished (mgr p')" using assms(3) same_table_furnished [of "mgr ?p1" "mgr p'"] by simp
  moreover have "s' = t \<and> poll m' = p'"
    using assms(5) f by (auto simp: start_up_def set_state_def manager_get_clients_count_def Let_def 1 2)
  ultimately show ?thesis by simp
qed

lemma kept_survey:
  assumes "sturdy_env E" and "ready m" and "furnished (mgr (poll m))" and "P s" and "survey_rate E r l m s = Some (m', s')"
  shows "P s' \<and> furnished (mgr (poll m'))"
proof -
  have w: "poll_wf (poll m)" "queue_wf (qu m)" using assms(2) by (simp_all add: ready_def)
  obtain q' p' t where run: "survey_rate E r l m s = Some (m\<lparr>qu := q', poll := p'\<rparr>, t)"
    "(p', t) = fold (poll_client E l) (clients_at r (qu m)) (poll m, s)"
    "touches_all (set (clients_at r (qu m))) (poll m) p'"
    using survey_rate_result [OF w] by blast
  have "P (snd (fold (poll_client E l) (clients_at r (qu m)) (poll m, s)))"
    by (rule kept_poll_fold [OF assms(1)]) (use w(1) assms(3,4) in simp_all)
  then have "P t" unfolding run(2) [symmetric] by simp
  moreover have "furnished (mgr p')" using run(3) assms(3) same_table_furnished by (auto simp: touches_all_def)
  ultimately show ?thesis using run(1) assms(5) by auto
qed

lemma kept_count_minute: "P s \<Longrightarrow> P (snd (count_minute E m s))"
  by (simp add: count_minute_def Let_def split_beta kept_send_interval)

lemma kept_main_step:
  assumes env: "sturdy_env E" "sections_filled cfg" "types_known cfg" "lengths_ok cfg"
    and m: "module_inv k m" "supplied m" and s: "P s" and run: "main_step E cfg k m s = Some (k', m', s')"
  shows "P s' \<and> supplied m'"
proof -
  consider "k = At_switch" "init_inv m" | "up m" using m(1) by (auto simp: module_inv_split)
  then show ?thesis
  proof cases
    case 1
    obtain m0 s0 where i: "do_init E cfg m s = (m0, s0)" by (metis surj_pair)
    obtain r m1 s1 where 2: "init_sys E cfg m s = (r, m1, s1)" by (metis prod_cases3)
    have x: "P s1 \<and> supplied m1" using kept_init_sys [OF env 1(2) m(2) s 2] .
    have "P s0 \<and> supplied m0"
    proof (cases "ds_state (dev_status m1) = INIT_SYS")
      case True
      with i x show ?thesis by (auto simp: do_init_def 2)
    next
      case False
      then have up: "flags_ok m1" "all_up (dev_status m1)"
        using init_sys_inv [OF 1(2) _ 2] env(4) by (auto simp: lengths_ok_def init_inv_def)
      then have f: "ready m1" "furnished (mgr (poll m1))" using x by (auto simp: flags_ok_def all_up_def supplied_def)
      obtain m2 s2 where u: "start_up E m1 s1 = (m2, s2)" by (metis surj_pair)
      from kept_start_up [OF env(1) f _ u] x i False show ?thesis by (auto simp: do_init_def 2 u supplied_def)
    qed
    with run 1 i show ?thesis by (auto simp: main_step_def at_switch_def init_inv_def)
  next
    case 2
    then have st: "ds_state (dev_status m) \<noteq> INIT_SYS" and f: "furnished (mgr (poll m))"
      using m(2) by (auto simp: up_def all_up_def supplied_def module_states)
    have survey: "P t \<and> supplied n"
      if "up m1" "furnished (mgr (poll m1))" "P s1" "survey_rate E r l m1 s1 = Some (n, t)" for m1 s1 r l n t
      using kept_survey [OF env(1) up_ready [OF that(1)] that(2-4)] by (simp add: supplied_def)
    have send: "P s1 \<and> supplied m1" if "do_send E m s = (m1, s1)" for m1 s1
      using kept_do_send [OF s, of m] that f by (auto simp: do_send_def set_state_def supplied_def Let_def split: prod.splits)
    have minute: "P s1 \<and> furnished (mgr (poll m1))" if "count_minute E m s = (m1, s1)" for m1 s1
      using kept_count_minute [OF s, of m] that f by (auto simp: count_minute_def set_state_def Let_def split: prod.splits if_splits)
    obtain m1 s1 where c: "count_minute E m s = (m1, s1)" by (metis surj_pair)
    note minute = minute [OF c] and up1 = count_minute_up [OF 2 c]
    show ?thesis
    proof (cases k)
      case At_switch
      with run st s m(2) survey [OF 2 f s] send show ?thesis
        by (auto simp: main_step_def at_switch_def Let_def split: if_splits option.splits prod.splits)
    next
      case At_1m
      with run s m(2) survey [OF up1] minute c show ?thesis
        by (auto simp: main_step_def split: if_splits option.splits)
    next
      case At_1s
      with run s m(2) survey [OF 2 f s] show ?thesis
        by (auto simp: main_step_def split: if_splits option.splits)
    qed (use run s m(2) in \<open>auto simp: main_step_def supplied_def\<close>)
  qed
qed

end

section \<open>The predicate\<close>

text \<open>No null dereference has come first, and the logger has somewhere to write to.\<close>

definition firm :: "env \<Rightarrow> io \<Rightarrow> bool" where
  "firm E s \<longleftrightarrow> (sturdy_env E \<longrightarrow> fault s \<noteq> Some Null_Deref \<and> ready_target (log_global_set s))"

lemma firm_updates [simp]:
  "firm E (emit c s) = firm E s" "firm E (s\<lparr>files := f\<rparr>) = firm E s" "firm E (s\<lparr>stringCounter := k\<rparr>) = firm E s"
  by (simp_all add: firm_def)

lemma firm_ub [simp]: "firm E s \<Longrightarrow> x \<noteq> Null_Deref \<Longrightarrow> firm E (ub x s)"
  by (auto simp: firm_def ub_def split: option.splits)

lemma firm_ub_if [simp]: "firm E s \<Longrightarrow> x \<noteq> Null_Deref \<Longrightarrow> firm E (ub_if b x s)"
  by (simp add: ub_if_def)

interpretation firm: unobserved "firm E"
  by unfold_locales simp_all

lemma firm_call: "firm E s \<Longrightarrow> firm E (call_logger_func E l t s)"
proof (cases "sturdy_env E")
  case True
  assume "firm E s"
  with True have "fault s \<noteq> Some Null_Deref" "ready_target (log_global_set s)" by (simp_all add: firm_def)
  then have "fault (call_logger_func E l t s) = fault s"
    by (auto simp: call_logger_func_def ready_target_def print_to_file_def print_to_syslog_def stdout_line_def Let_def
        split_beta split: option.splits log_target.splits)
  with \<open>fault s \<noteq> Some Null_Deref\<close> \<open>ready_target (log_global_set s)\<close> show ?thesis by (simp add: firm_def)
qed (simp add: firm_def)

text \<open>The archived log file is opened again, so the logger keeps its target.\<close>

lemma firm_reopen: "firm E s \<Longrightarrow> firm E (snd (archive_reopen E z fl s))"
proof (cases "sturdy_env E")
  case True
  then have "fst (fopen E p ''w'' t) = Some (On_disk p)" for p and t :: io
    by (simp add: fopen_def ext_def sturdy_env_def)
  then show "firm E s \<Longrightarrow> ?thesis"
    by (auto simp: archive_reopen_def firm_def ready_target_def Let_def split_beta split: option.splits log_target.splits)
qed (simp add: firm_def)

interpretation firm_log: logging "firm E" E
  by unfold_locales (simp_all add: firm_call firm_reopen)

interpretation firm: null_free "firm E" E
  by unfold_locales simp_all

section \<open>The start\<close>

lemma logger_init_firm:
  assumes "length name \<le> LOG_FILE_NAME_MAX_LEN" and "fault s = None"
  shows "firm E (snd (logger_init E name s))"
proof -
  have set_file: "firm E (snd (logger_set_log_file E name t))"
    if "fault t = None" "logger_func (log_global_set t) = Some Print_to_syslog" for t :: io
    using that by (simp add: logger_set_log_file_def cleanup_internal_def firm_def ready_target_def Let_def split_beta
        split: option.splits)
  show ?thesis
    using assms by (simp add: logger_init_def logger_set_log_level_def set_file Let_def split_beta)
qed

lemma start_firm:
  assumes "main_start E arg junk (io0 fs) = (Some m, s)"
  shows "firm E s" and "supplied m"
proof -
  let ?s0 = "emit (Stdio (C_stdout ([CHR 0x0D, NL] @ ''Start'' @ [CHR 0x0D, NL]))) (io0 fs)"
  have "length LOG_FILE_NAME \<le> LOG_FILE_NAME_MAX_LEN" by (simp add: LOG_FILE_NAME_def LOG_FILE_NAME_MAX_LEN_def)
  moreover have "fault ?s0 = None" by (simp add: io0_def)
  ultimately have "firm E (snd (logger_init E LOG_FILE_NAME ?s0))" by (rule logger_init_firm)
  then show "firm E s"
    using assms by (auto simp: main_start_def ext_str_def time_c_def Let_def split_beta split: if_splits)
  show "supplied m"
    using assms by (auto simp: main_start_def module_start_def supplied_def Let_def split_beta split: if_splits)
qed

lemma run_firm:
  assumes "reachable E cfg c" and "sturdy_env E" and "sections_filled cfg" and "types_known cfg" and "lengths_ok cfg"
  shows "firm E (snd (snd c)) \<and> supplied (fst (snd c))"
  using assms(1)
proof (induction rule: reachable.induct)
  case (start arg junk fs m s)
  with start_firm show ?case by simp
next
  case (step c c')
  obtain k m s where c: "c = (k, m, s)" by (cases c)
  obtain k' m' s' where c': "c' = (k', m', s')" by (cases c')
  have inv: "module_inv k m" using reachable_inv [OF step.hyps(1)] assms(5) by (simp add: c lengths_ok_def)
  from step.hyps(2) show ?case unfolding c c'
  proof (rule module_stepE)
    assume "main_step E cfg k m s = Some (k', m', s')"
    from firm.kept_main_step [OF assms(2-5) inv _ _ this] step.IH show "firm E (snd (snd (k', m', s'))) \<and> supplied (fst (snd (k', m', s')))"
      by (simp add: c)
  next
    assume "(k', m', s') = (k, m\<lparr>tm := timer_handler_100ms (tm m)\<rparr>, s)"
    with step.IH show "firm E (snd (snd (k', m', s'))) \<and> supplied (fst (snd (k', m', s')))" by (simp add: c supplied_def)
  qed
qed


lemma quiet_sturdy: "sturdy_env quiet_env"
  by (simp add: sturdy_env_def opc_memory_def UA_Client_readAttribute_def Let_def)

lemma full_cfg_filled: "sections_filled full_cfg" "types_known full_cfg"
  by (auto simp: sections_filled_def elements_exist_def types_known_def full_cfg_def sample_cfg_def sample_string_def)


section \<open>Where null pointers do come from\<close>

text \<open>An empty section \<^verbatim>\<open>common\<close>: its first element is looked into without a check.\<close>

lemma empty_section_faults:
  assumes "config_lookup cfg ''common'' = Some n" and "config_setting_get_elem cfg n 0 = None" and "fault s = None"
  shows "fault (snd (snd (manager_init_config E cfg m s))) = Some Null_Deref"
proof -
  obtain ok m1 s1 where 1: "read_common E cfg m s = (ok, m1, s1)" by (metis prod_cases3)
  have "fault (ub Null_Deref s) = Some Null_Deref" using assms(3) by (simp add: ub_def)
  moreover have s1: "\<not> ok" "s1 = log_error E ''client_manager.c'' 178 ''manager_init_config''
      ''Wrong parameter send_interval_min, section: common'' (ub Null_Deref s)"
    using 1 assms(1,2) by (auto simp: read_common_def need_int_def lookup_int_def cm_LOG_E_def Let_def)
  moreover have "os_le (ub Null_Deref s) s1" unfolding s1(2) by (intro os_le_log os_le_refl)
  ultimately have "\<not> ok \<and> fault s1 = Some Null_Deref" by (simp add: os_le_def)
  then show ?thesis by (simp add: manager_init_config_def 1)
qed

text \<open>
  When the log file cannot be opened again after archiving, the logger keeps writing to it: the next
  error message goes to a null stream.
\<close>

lemma lost_log_file_faults:
  assumes "archive_reopen E z fl s = (False, t)" and "logger_func (log_global_set s) = Some Print_to_file"
  shows "fault (log_error E' f n g msg t) \<noteq> None"
proof -
  have "logger_func (log_global_set t) = Some Print_to_file" "out_file (log_global_set t) = None"
    using assms by (auto simp: archive_reopen_def Let_def split_beta split: if_splits)
  then have "\<not> ready_target (log_global_set t)" by (simp add: ready_target_def)
  then have "fault (log_generic_add E' LOG_LEVEL_ERROR msg f g n t) \<noteq> None"
    by (simp add: log_generic_add_def log_generic_fault)
  moreover have "os_le (log_generic_add E' LOG_LEVEL_ERROR msg f g n t) (log_error E' f n g msg t)"
    unfolding log_error_def by (intro os_le_count os_le_refl)
  note os_le_no_fault [OF this]
  ultimately show ?thesis by (rule contrapos_nn)
qed

end
