(* ===== verification/TsDelivery.thy ===== *)
theory TsDelivery
  imports TsRun
begin

text \<open>
  From the wire to the broker: what the receiver of a message reads for a client after its
  registers have been polled, and what one round of the sending state does.
\<close>

section \<open>From registers to the message\<close>

text \<open>The field an integer client uses, and the number it stands for.\<close>

definition field :: "DataType \<Rightarrow> ClientData \<Rightarrow> int32" where
  "field dt cd = (if dt = MDT_INT then data_int cd else data_dword cd)"

definition shown :: "DataType \<Rightarrow> int32 \<Rightarrow> int" where
  "shown dt w = (if dt = MDT_INT then sint w else uint w)"

text \<open>What is sent for a client: the value itself or its counter, in the client's unit.\<close>

definition sent_word :: "ClientSettings \<Rightarrow> CounterInfo \<Rightarrow> int32" where
  "sent_word c ci = (if counter c = CT_NONE then field (cs_dataType c) (currentData ci) else ucast (tally (counter c) ci))
     * word_of_nat (comp_factor (computation c))"

lemma update_stage_data:
  assumes "poll_wf p" and "in_range (mgr p) i" and "cs_dataType (client (mgr p) i) \<in> {MDT_INT, MDT_DWORD}"
    and "pClient (info (cnt p) i) \<noteq> None" and "update_stage E l i p s = (p', s')"
  shows "currentData (info (cnt p') i) = clientData p" and "clientData p' = clientData p" and "mgr p' = mgr p"
    and "length (cnt p') = MAX_CLIENT_NUM"
proof -
  let ?c = "client (mgr p) i"
  have i: "innerIdx ?c = i" "has_counter i" "length (cnt p) = MAX_CLIENT_NUM"
    using poll_wf_client [OF assms(1,2)] assms(1,2)
    by (auto simp: poll_wf_def in_range_def has_counter_def table_wf_def sized_def)
  obtain ok ci s1 where 1: "update_info E (counter ?c) (cs_dataType ?c) (clientData p) (info (cnt p) i)
      (ub_if (\<not> has_counter i) Out_Of_Bounds s) = (ok, ci, s1)"
    by (metis prod_cases3)
  have u: "ok \<and> currentData ci = clientData p"
    using 1 assms(3) unfolding update_info_def update_difference_def update_not_100_def update_cumul_def Let_def split_beta
    by (auto split: CounterType.splits DataType.splits if_splits)
  have run: "p' = p\<lparr>cnt := (cnt p)[nat i := ci]\<rparr>"
    using assms(5) u unfolding update_stage_def counterUpdate_def Let_def i(1) 1 prod.case
    by (auto simp: assms(4) split: if_splits)
  then show "currentData (info (cnt p') i) = clientData p" "clientData p' = clientData p" "mgr p' = mgr p"
    "length (cnt p') = MAX_CLIENT_NUM"
    using u i by simp_all
qed

text \<open>A \<^verbatim>\<open>dword\<close> counter moves by its increment whatever has happened before.\<close>

lemma update_info_state:
  "fst (snd (update_info E ct dt cd ci s)) = fst (snd (update_info E ct dt cd ci t))"
proof -
  have 1: "fst (update_difference E dt cd ci s) = fst (update_difference E dt cd ci t)"
    "fst (snd (update_difference E dt cd ci s)) = fst (snd (update_difference E dt cd ci t))"
    by (cases dt; simp add: update_difference_def int_delta_def)+
  have 2: "fst (update_not_100 E dt cd ci s) = fst (update_not_100 E dt cd ci t)"
    "fst (snd (update_not_100 E dt cd ci s)) = fst (snd (update_not_100 E dt cd ci t))"
    by (cases dt; simp add: update_not_100_def Let_def)+
  have 3: "fst (update_cumul E dt cd ci s) = fst (update_cumul E dt cd ci t)"
    "fst (snd (update_cumul E dt cd ci s)) = fst (snd (update_cumul E dt cd ci t))"
    by (cases dt; simp add: update_cumul_def int_delta_def)+
  show ?thesis
    by (cases ct) (simp_all add: update_info_def Let_def split_beta 1 2 3)
qed

lemma update_info_dword:
  assumes "ct \<in> {CT_DIFFERENCE, CT_CUMUL_NOT_100}" and "update_info E ct MDT_DWORD cd ci s = (ok, ci', s')"
  shows "tally ct ci' = tally ct ci + word_of_int (increment ct (uint (data_dword (currentData ci))) (uint (data_dword cd)))"
proof -
  let ?t = "io0 (\<lambda>_. None)"
  obtain ok2 ci2 t2 where 2: "update_info E ct MDT_DWORD cd ci ?t = (ok2, ci2, t2)" by (metis prod_cases3)
  have "ci2 = ci'" using update_info_state [of E ct MDT_DWORD cd ci s ?t] assms(2) 2 by simp
  moreover have "fault t2 = None" using update_info_fault [OF assms(1) _ 2] by (simp add: io0_def)
  ultimately show ?thesis using update_info_tally [OF assms(1) _ 2] by (simp add: reading_def)
qed

lemma update_stage_tally:
  assumes "poll_wf p" and "in_range (mgr p) i" and "cs_dataType (client (mgr p) i) = MDT_DWORD"
    and "counter (client (mgr p) i) \<in> {CT_DIFFERENCE, CT_CUMUL_NOT_100}"
    and "pClient (info (cnt p) i) \<noteq> None" and "update_stage E l i p s = (p', s')"
  shows "tally (counter (client (mgr p) i)) (info (cnt p') i) = tally (counter (client (mgr p) i)) (info (cnt p) i)
    + word_of_int (increment (counter (client (mgr p) i)) (uint (data_dword (currentData (info (cnt p) i))))
        (uint (data_dword (clientData p))))"
proof -
  let ?c = "client (mgr p) i"
  have i: "innerIdx ?c = i" "has_counter i" "length (cnt p) = MAX_CLIENT_NUM"
    using poll_wf_client [OF assms(1,2)] assms(1,2)
    by (auto simp: poll_wf_def in_range_def has_counter_def table_wf_def sized_def)
  obtain ok cs s1 where u: "counterUpdate E ?c (clientData p) (cnt p) s = (ok, cs, s1)" by (metis prod_cases3)
  obtain ci where ci: "update_info E (counter ?c) MDT_DWORD (clientData p) (info (cnt p) i) s = (ok, ci, s1)"
    and cs: "cs = (cnt p)[nat i := ci]"
    using counterUpdate_entry [OF _ _ u] i assms(3,5)
    by (metis (no_types) \<open>innerIdx (client (mgr p) i) = i\<close>)
  have "p' = p\<lparr>cnt := cs\<rparr>" using assms(6) by (simp add: update_stage_def Let_def u)
  with cs i update_info_dword [OF assms(4) ci] show ?thesis by simp
qed

lemma get_stage_data:
  assumes "innerIdx (client (mgr p) i) = i" and dt: "cs_dataType (client (mgr p) i) \<in> {MDT_INT, MDT_DWORD}"
    and "cd_dataType (currentData (info (cnt p) i)) = cs_dataType (client (mgr p) i)"
    and "get_stage E l i p s = (p', s')"
  shows "mgr p' = mgr p" and "cnt p' = cnt p"
    and "cd_dataType (clientData p') = cs_dataType (client (mgr p) i)"
    and "field (cs_dataType (client (mgr p) i)) (clientData p')
      = (if counter (client (mgr p) i) = CT_NONE then field (cs_dataType (client (mgr p) i)) (currentData (info (cnt p) i))
         else ucast (tally (counter (client (mgr p) i)) (info (cnt p) i)))"
proof -
  let ?c = "client (mgr p) i"
  obtain ok cd s1 where 1: "counterGet E ?c (clientData p) (cnt p) s = (ok, cd, s1)" by (metis prod_cases3)
  have p': "p' = p\<lparr>clientData := cd\<rparr>" using assms(4) by (simp add: get_stage_def Let_def 1)
  then show "mgr p' = mgr p" "cnt p' = cnt p" by simp_all
  have "cd_dataType cd = cs_dataType ?c \<and> field (cs_dataType ?c) cd = (if counter ?c = CT_NONE
      then field (cs_dataType ?c) (currentData (info (cnt p) i)) else ucast (tally (counter ?c) (info (cnt p) i)))"
    using 1 assms(1-3) unfolding counterGet_def Let_def deliver_def
    by (auto simp: field_def tally_def split: CounterType.splits DataType.splits)
  then show "cd_dataType (clientData p') = cs_dataType ?c"
    "field (cs_dataType ?c) (clientData p') = (if counter ?c = CT_NONE
      then field (cs_dataType ?c) (currentData (info (cnt p) i)) else ucast (tally (counter ?c) (info (cnt p) i)))"
    by (simp_all add: p')
qed

lemma computation_stage_data:
  assumes "cd_dataType (clientData p) \<in> {MDT_INT, MDT_DWORD}" and "computation_stage E l i p s = (p', s')"
  shows "mgr p' = mgr p" and "cnt p' = cnt p" and "cd_dataType (clientData p') = cd_dataType (clientData p)"
    and "field (cd_dataType (clientData p)) (clientData p')
      = field (cd_dataType (clientData p)) (clientData p) * word_of_nat (comp_factor (computation (client (mgr p) i)))"
proof -
  obtain ok cd s1 where 1: "client_computation E (client (mgr p) i) (clientData p) s = (ok, cd, s1)" by (metis prod_cases3)
  have p': "p' = p\<lparr>clientData := cd\<rparr>" using assms(2) by (simp add: computation_stage_def Let_def 1)
  then show "mgr p' = mgr p" "cnt p' = cnt p" by simp_all
  show "cd_dataType (clientData p') = cd_dataType (clientData p)"
    "field (cd_dataType (clientData p)) (clientData p')
      = field (cd_dataType (clientData p)) (clientData p) * word_of_nat (comp_factor (computation (client (mgr p) i)))"
    using 1 assms(1) by (auto simp: p' client_computation_def field_def Let_def split: if_splits)
qed

lemma convert_stage_data:
  assumes "poll_wf p" and "in_range (mgr p) i" and "cd_dataType (clientData p) \<in> {MDT_INT, MDT_DWORD}"
    and "CHR 0x22 \<notin> set (name_of (mgr p) i)" and "convert_stage E l i p s = (ok, p', s')"
  shows "read_member (json_item (mqtt_data p' ! slot i))
      = (name_of (mgr p) i, shown (cd_dataType (clientData p)) (field (cd_dataType (clientData p)) (clientData p)))"
    and "cnt p' = cnt p"
proof -
  let ?c = "client (mgr p) i"
  have i: "innerIdx ?c = i" "0 \<le> i" using poll_wf_client [OF assms(1,2)] assms(2) by (simp_all add: in_range_def)
  have k: "nat (int SF_CLIENT_POS + i) = slot i" using i(2) by (simp add: slot_def nat_add_distrib)
  obtain d where p': "p' = p\<lparr>mqtt_data := (mqtt_data p)[slot i := client_record ?c (clientData p) d]\<rparr>"
    using assms(5) client_to_mqtt_record unfolding convert_stage_def Let_def i(1) k by (auto simp: split_beta)
  show "cnt p' = cnt p" by (simp add: p')
  have "read_member (json_item (client_record ?c (clientData p) d)) = (str_or_null (cs_name ?c), delivered (clientData p))"
    using client_record_member [of "clientData p" ?c d] assms(3,4) by (auto simp: name_of_def)
  moreover have "delivered (clientData p)
      = shown (cd_dataType (clientData p)) (field (cd_dataType (clientData p)) (clientData p))"
    using assms(3) by (auto simp: delivered.simps shown_def field_def)
  ultimately show "read_member (json_item (mqtt_data p' ! slot i))
      = (name_of (mgr p) i, shown (cd_dataType (clientData p)) (field (cd_dataType (clientData p)) (clientData p)))"
    using slot_inside [OF assms(1,2)] by (simp add: p' name_of_def)
qed

text \<open>The stages after a successful reception, in sequence.\<close>

lemma poll_received_member:
  assumes "poll_wf p" and "in_range (mgr p) i" and dt: "cs_dataType (client (mgr p) i) \<in> {MDT_INT, MDT_DWORD}"
    and "cd_dataType (clientData p) = cs_dataType (client (mgr p) i)" and "pClient (info (cnt p) i) \<noteq> None"
    and "CHR 0x22 \<notin> set (name_of (mgr p) i)" and "poll_received E l i p s = (p', s')"
  shows "currentData (info (cnt p') i) = clientData p"
    and "read_member (json_item (mqtt_data p' ! slot i))
      = (name_of (mgr p) i, shown (cs_dataType (client (mgr p) i)) (sent_word (client (mgr p) i) (info (cnt p') i)))"
    and "cnt p' = cnt (fst (update_stage E (l + 11) i p s))"
proof -
  let ?c = "client (mgr p) i"
  obtain p1 s1 where 1: "update_stage E (l + 11) i p s = (p1, s1)" by (metis surj_pair)
  obtain p2 s2 where 2: "get_stage E (l + 15) i p1 s1 = (p2, s2)" by (metis surj_pair)
  obtain p3 s3 where 3: "computation_stage E (l + 19) i p2 s2 = (p3, s3)" by (metis surj_pair)
  obtain ok p4 s4 where 4: "convert_stage E (l + 24) i p3 s3 = (ok, p4, s4)" by (metis prod_cases3)
  have p': "p' = p4" using assms(7) by (simp add: poll_received_def 1 2 3 4)
  note u = update_stage_data [OF assms(1,2) dt assms(5) 1]
  have idx: "innerIdx ?c = i" using assms(1,2) by (rule poll_wf_client)
  have g: "mgr p2 = mgr p" "cnt p2 = cnt p1" "cd_dataType (clientData p2) = cs_dataType ?c"
    "field (cs_dataType ?c) (clientData p2) = (if counter ?c = CT_NONE
       then field (cs_dataType ?c) (clientData p) else ucast (tally (counter ?c) (info (cnt p1) i)))"
    using get_stage_data [of p1 i, OF _ _ _ 2] idx dt assms(4) by (simp_all add: u(1,3))
  have c: "mgr p3 = mgr p" "cnt p3 = cnt p1" "cd_dataType (clientData p3) = cs_dataType ?c"
    "field (cs_dataType ?c) (clientData p3) = field (cs_dataType ?c) (clientData p2) * word_of_nat (comp_factor (computation ?c))"
    using computation_stage_data [OF _ 3] g dt by simp_all
  have t: "touches i p p3"
    using touches_update_stage [OF assms(1,2) 1] touches_get_stage [OF 2] touches_computation_stage [OF 3] touches_trans
    by blast
  have w: "poll_wf p3" "in_range (mgr p3) i" using touches_wf [OF t assms(1)] assms(2) by (simp_all add: c(1))
  have v: "read_member (json_item (mqtt_data p4 ! slot i))
      = (name_of (mgr p) i, shown (cs_dataType ?c) (field (cs_dataType ?c) (clientData p3)))" "cnt p4 = cnt p1"
    using convert_stage_data [OF w _ _ 4] c dt assms(6) by (simp_all add: name_of_def)
  show "cnt p' = cnt (fst (update_stage E (l + 11) i p s))" using v(2) by (simp add: p' 1)
  show cur: "currentData (info (cnt p') i) = clientData p" using u(1) v(2) by (simp add: p')
  have "sent_word ?c (info (cnt p') i) = field (cs_dataType ?c) (clientData p3)"
    using cur c(4) g(4) by (simp add: sent_word_def p' v(2))
  then show "read_member (json_item (mqtt_data p' ! slot i))
      = (name_of (mgr p) i, shown (cs_dataType ?c) (sent_word ?c (info (cnt p') i)))"
    using v(1) by (simp add: p')
qed

section \<open>A Modbus client, from the wire to the member\<close>

text \<open>What a client's Modbus device answers when the client is polled: the count and the registers.\<close>

definition register_answer :: "env \<Rightarrow> InnerIdx \<Rightarrow> poll_t \<Rightarrow> io \<Rightarrow> (int \<times> uint16 list) option" where
  "register_answer E i p s = (let mb = modbus (client (mgr p) i) in
     case mb_context mb of
       None \<Rightarrow> None
     | Some x \<Rightarrow>
         (let h = Modbus (C_modbus_read_registers x (mb_offset mb) (registersToRead mb))
                # calls (log_debug E (''Read data, client: '' @ name_of (mgr p) i) s)
          in Some (rc E h, registers_r E h)))"

lemma modbus_field:
  assumes "dt \<in> {MDT_INT, MDT_DWORD}" and "md_data d = a # b # r"
  shows "\<exists>cd'. modbusToClientData E d dt cd s = (True, cd', s) \<and> cd_dataType cd' = dt
    \<and> field dt cd' = word_of_nat (unat a + 65536 * unat b)"
proof -
  have "(word_of_mem E (service_bytes E 2 (a # b # r)) :: int32) = word_of_nat (unat a + 65536 * unat b)"
    by (simp add: word_of_service)
  with assms show ?thesis by (auto simp: modbusToClientData_def field_def Let_def)
qed

lemma receive_registers:
  assumes "table_wf m" and "in_range m i" and "protocol (client m i) = CP_MODBUS" and "connected (client m i)"
    and dt: "cs_dataType (client m i) \<in> {MDT_INT, MDT_DWORD}" and x: "mb_context (modbus (client m i)) = Some x"
    and "0 \<le> rc E (Modbus (C_modbus_read_registers x (mb_offset (modbus (client m i))) (registersToRead (modbus (client m i)))) # calls s)"
    and "registers_r E (Modbus (C_modbus_read_registers x (mb_offset (modbus (client m i))) (registersToRead (modbus (client m i)))) # calls s)
      = a # b # r"
  shows "\<exists>cd' s'. manager_receive_data E i cd m s = (True, cd', m, s') \<and> cd_dataType cd' = cs_dataType (client m i)
    \<and> field (cs_dataType (client m i)) cd' = word_of_nat (unat a + 65536 * unat b)"
proof -
  let ?mb = "modbus (client m i)"
  have n: "2 \<le> nat (registersToRead ?mb)"
    using table_wf_client [OF assms(1,2)] assms(3) dt by (auto simp: client_ok_def)
  define k where "k = nat (registersToRead ?mb) - 2"
  then have k: "nat (registersToRead ?mb) = Suc (Suc k)" using n by linarith
  let ?h = "Modbus (C_modbus_read_registers x (mb_offset ?mb) (registersToRead ?mb)) # calls s"
  have "fst (modbusReceiveData E ?mb s)" "md_data (fst (snd (modbusReceiveData E ?mb s)))
      = take (nat (registersToRead ?mb)) (registers_r E ?h)
        @ replicate (MAX_RCV_DATA_LEN - length (take (nat (registersToRead ?mb)) (registers_r E ?h))) 0"
    using assms(7) unfolding modbusReceiveData_def x Let_def ext_def option.case prod.case
    by (simp_all only: if_not_P not_less if_True fst_conv snd_conv ModbusData.select_convs simp_thms)
  then have "\<exists>d s1 r'. modbusReceiveData E ?mb s = (True, d, s1) \<and> md_data d = a # b # r'"
    unfolding assms(8) k by (cases "modbusReceiveData E ?mb s") auto
  then obtain d s1 r' where d: "modbusReceiveData E ?mb s = (True, d, s1)" and "md_data d = a # b # r'" by blast
  from modbus_field [OF dt \<open>md_data d = a # b # r'\<close>] obtain cd' where
    c: "modbusToClientData E d (cs_dataType (client m i)) cd s1 = (True, cd', s1)"
    "cd_dataType cd' = cs_dataType (client m i)"
    "field (cs_dataType (client m i)) cd' = word_of_nat (unat a + 65536 * unat b)" by blast
  have "manager_receive_data E i cd m s = (True, cd', m, s1)"
    using assms(2-4) by (simp add: manager_receive_data_def manager_receive_data_simple_def ensure_connected_def
        in_range_def d c(1))
  with c show ?thesis by blast
qed

lemma uint_scaled: "uint (word_of_nat n * word_of_nat k :: DWORD) = int (n * k mod 2 ^ 32)"
proof -
  have "(word_of_nat n * word_of_nat k :: DWORD) = word_of_nat (n * k)" by simp
  then show ?thesis by (simp only: uint_nat unat_of_nat) simp
qed

text \<open>Once the client's data has been received, the rest of the path is the same for every protocol.\<close>

lemma received_value_member:
  assumes "poll_wf p" and "in_range (mgr p) i" and "cs_dataType (client (mgr p) i) \<in> {MDT_INT, MDT_DWORD}"
    and "pClient (info (cnt p) i) \<noteq> None" and "CHR 0x22 \<notin> set (name_of (mgr p) i)"
    and "manager_receive_data E i (clientData p) (mgr p) (log_debug E (''Read data, client: '' @ name_of (mgr p) i) s)
      = (True, cd', mgr p, s1)"
    and "cd_dataType cd' = cs_dataType (client (mgr p) i)"
  shows "case poll_client E l i (p, s) of (p', s') \<Rightarrow> let c = client (mgr p) i in
     currentData (info (cnt p') i) = cd'
     \<and> read_member (json_item (mqtt_data p' ! slot i))
         = (name_of (mgr p) i, shown (cs_dataType c) (sent_word c (info (cnt p') i)))
     \<and> (cs_dataType c = MDT_DWORD \<and> counter c = CT_NONE \<longrightarrow>
          read_member (json_item (mqtt_data p' ! slot i))
            = (name_of (mgr p) i, int (unat (data_dword cd') * comp_factor (computation c) mod 2 ^ 32)))
     \<and> (cs_dataType c = MDT_DWORD \<and> counter c \<in> {CT_DIFFERENCE, CT_CUMUL_NOT_100} \<longrightarrow>
          tally (counter c) (info (cnt p') i) = tally (counter c) (info (cnt p) i)
            + word_of_int (increment (counter c) (uint (data_dword (currentData (info (cnt p) i)))) (uint (data_dword cd'))))"
proof -
  define c where "c = client (mgr p) i"
  have idx: "innerIdx (client (mgr p) i) = i" using assms(1,2) by (rule poll_wf_client)
  let ?p1 = "p\<lparr>clientData := cd'\<rparr>"
  have pr: "poll_receive E i p s = (True, ?p1, s1)"
    unfolding poll_receive_def Let_def idx assms(6) prod.case by simp
  have run: "poll_client E l i (p, s) = poll_received E l i ?p1 s1"
    using assms(2) by (simp add: poll_client_def get_client_in_range pr)
  obtain p' s' where e: "poll_received E l i ?p1 s1 = (p', s')" by (metis surj_pair)
  have w1: "poll_wf ?p1" using assms(1) by (simp add: poll_wf_def)
  have m: "currentData (info (cnt p') i) = cd'"
    "read_member (json_item (mqtt_data p' ! slot i))
      = (name_of (mgr p) i, shown (cs_dataType c) (sent_word c (info (cnt p') i)))"
    "cnt p' = cnt (fst (update_stage E (l + 11) i ?p1 s1))"
    using poll_received_member [OF w1 _ _ _ _ _ e] assms(2-5,7) by (simp_all add: c_def)
  have plain: "shown MDT_DWORD (sent_word c (info (cnt p') i))
      = int (unat (data_dword cd') * comp_factor (computation c) mod 2 ^ 32)"
    if "cs_dataType c = MDT_DWORD" "counter c = CT_NONE"
    using that uint_scaled [of "unat (data_dword cd')" "comp_factor (computation c)"]
    by (simp add: sent_word_def m(1) shown_def field_def)
  have moved: "tally (counter c) (info (cnt p') i) = tally (counter c) (info (cnt p) i)
      + word_of_int (increment (counter c) (uint (data_dword (currentData (info (cnt p) i)))) (uint (data_dword cd')))"
    if "cs_dataType c = MDT_DWORD" "counter c \<in> {CT_DIFFERENCE, CT_CUMUL_NOT_100}"
  proof -
    obtain p2 s2 where u: "update_stage E (l + 11) i ?p1 s1 = (p2, s2)" by (metis surj_pair)
    with update_stage_tally [OF w1 _ _ _ _ u] assms(2,4) that m(3) show ?thesis by (simp add: u c_def)
  qed
  from m(1,2) plain moved show ?thesis by (simp add: run e c_def [symmetric])
qed

text \<open>
  C3. The whole path of a value: when the device of a connected \<^verbatim>\<open>int\<close> or \<^verbatim>\<open>dword\<close> Modbus client
  answers a poll with registers that begin with \<open>a\<close> and \<open>b\<close>, the client's counter entry holds the value
  \<open>a + 65536 * b\<close>, and what a receiver reads from the client's member is its name with that value (or
  the client's counter), scaled to the client's unit.  A \<^verbatim>\<open>dword\<close> without a counter is the value times
  the factor modulo \<open>2 ^ 32\<close>, and a \<^verbatim>\<open>dword\<close> counter has moved by the increment the value gives.
\<close>

theorem modbus_value_reaches_message:
  assumes "poll_wf p" and "in_range (mgr p) i" and "protocol (client (mgr p) i) = CP_MODBUS"
    and "connected (client (mgr p) i)" and "cs_dataType (client (mgr p) i) \<in> {MDT_INT, MDT_DWORD}"
    and "pClient (info (cnt p) i) \<noteq> None" and "CHR 0x22 \<notin> set (name_of (mgr p) i)"
    and "register_answer E i p s = Some (n, a # b # r)" and "0 \<le> n"
  defines "c \<equiv> client (mgr p) i" and "num \<equiv> unat a + 65536 * unat b"
  shows "case poll_client E l i (p, s) of (p', s') \<Rightarrow>
     field (cs_dataType c) (currentData (info (cnt p') i)) = word_of_nat num
     \<and> read_member (json_item (mqtt_data p' ! slot i))
         = (name_of (mgr p) i, shown (cs_dataType c) (sent_word c (info (cnt p') i)))
     \<and> (cs_dataType c = MDT_DWORD \<and> counter c = CT_NONE \<longrightarrow>
          read_member (json_item (mqtt_data p' ! slot i))
            = (name_of (mgr p) i, int (num * comp_factor (computation c) mod 2 ^ 32)))
     \<and> (cs_dataType c = MDT_DWORD \<and> counter c \<in> {CT_DIFFERENCE, CT_CUMUL_NOT_100} \<longrightarrow>
          tally (counter c) (info (cnt p') i) = tally (counter c) (info (cnt p) i)
            + word_of_int (increment (counter c) (uint (data_dword (currentData (info (cnt p) i)))) (int num)))"
proof -
  let ?s = "log_debug E (''Read data, client: '' @ name_of (mgr p) i) s"
  let ?mb = "modbus (client (mgr p) i)"
  have wf: "table_wf (mgr p)" using assms(1) by (simp add: poll_wf_def)
  obtain x where x: "mb_context ?mb = Some x"
    and ans: "0 \<le> rc E (Modbus (C_modbus_read_registers x (mb_offset ?mb) (registersToRead ?mb)) # calls ?s)"
      "registers_r E (Modbus (C_modbus_read_registers x (mb_offset ?mb) (registersToRead ?mb)) # calls ?s) = a # b # r"
    using assms(8,9) unfolding register_answer_def Let_def by (cases "mb_context ?mb") simp_all
  obtain cd' s1 where r: "manager_receive_data E i (clientData p) (mgr p) ?s = (True, cd', mgr p, s1)"
    and cd: "cd_dataType cd' = cs_dataType c" "field (cs_dataType c) cd' = word_of_nat num"
    using receive_registers [OF wf assms(2-5) x ans] unfolding c_def num_def by blast
  have bound: "num < 2 ^ 32"
    using reg_bound [of a] reg_bound [of b] by (simp add: num_def)
  have dw: "data_dword cd' = word_of_nat num" "unat (data_dword cd') = num" if "cs_dataType c = MDT_DWORD"
    using cd(2) that bound by (simp_all add: field_def unat_of_nat take_bit_nat_eq_self)
  then have du: "uint (data_dword cd') = int num" if "cs_dataType c = MDT_DWORD" using that by (simp only: uint_nat)
  show ?thesis
    using received_value_member [OF assms(1,2,5-7) r cd(1) [unfolded c_def], of l] cd(2) dw(2) du
    unfolding c_def by (auto simp: Let_def split: prod.splits)
qed

definition one_poll :: poll_t where
  "one_poll = (poll plc_module)\<lparr>cnt := counters0[0 := CounterInfo_zero\<lparr>pClient := Some 0\<rparr>]\<rparr>"

theorem modbus_value_reaches_message_witness:
  "case poll_client quiet_env 500 0 (one_poll, io0 (\<lambda>_. None)) of (p', s') \<Rightarrow>
     read_member (json_item (mqtt_data p' ! slot 0)) = (''tp1'', 7)"
proof -
  have p: "poll_wf one_poll" "mgr one_poll = one_plc" "pClient (info (cnt one_poll) 0) = Some 0"
    using plc_module_ready
    by (simp_all add: ready_def poll_wf_def one_poll_def plc_module_def counters0_def info_def MAX_CLIENT_NUM_def)
  have c: "cs_dataType (client one_plc 0) = MDT_INT" "protocol (client one_plc 0) = CP_MODBUS"
    "connected (client one_plc 0)" "name_of one_plc 0 = ''tp1''" "counter (client one_plc 0) = CT_NONE"
    "computation (client one_plc 0) = LCT_NONE" "modbus (client one_plc 0) = plc"
    by (simp_all add: one_plc_client name_of_def str_or_null_def ClientSettings_zero_def)
  have a: "register_answer quiet_env 0 one_poll (io0 (\<lambda>_. None)) = Some (2, 7 # 0 # [0, 0])"
    by (simp add: register_answer_def p(2) c(7) plc_def Let_def)
  obtain p' s' where run: "poll_client quiet_env 500 0 (one_poll, io0 (\<lambda>_. None)) = (p', s')" by (metis surj_pair)
  from modbus_value_reaches_message [OF p(1) _ _ _ _ _ _ a, where l = 500] show ?thesis
    by (simp add: p(2,3) c run one_plc_range sent_word_def shown_def)
qed

section \<open>One round of the sending state\<close>

text \<open>A client's counter entry after \<^verbatim>\<open>counterReset\<close>.\<close>

definition cleared :: "ClientSettings \<Rightarrow> CounterInfo \<Rightarrow> CounterInfo" where
  "cleared c ci = (case counter c of
      CT_NONE \<Rightarrow> ci
    | CT_DIFFERENCE \<Rightarrow> ci\<lparr>differenceCounter := 0\<rparr>
    | CT_CUMUL_NOT_100 \<Rightarrow> ci\<lparr>cumulatedNot100Counter := 0\<rparr>
    | CT_CUMUL \<Rightarrow> ci\<lparr>cumulatedCounter := 0\<rparr>)"

lemma cleared_tally: "tally (counter c) (cleared c ci) = 0" "currentData (cleared c ci) = currentData ci"
  by (simp_all add: cleared_def tally_def split: CounterType.splits)

lemma counterReset_cleared:
  assumes "has_counter (innerIdx c)"
  shows "counterReset c cs s = (cs[nat (innerIdx c) := cleared c (info cs (innerIdx c))], s)"
  using assms by (cases "counter c") (simp_all add: counterReset_def cleared_def Let_def)

lemma reset_counters_result:
  assumes "table_wf m"
  shows "length cs = MAX_CLIENT_NUM \<Longrightarrow> 0 \<le> i \<Longrightarrow> i + int n \<le> clientsCnt m \<Longrightarrow>
     \<exists>cs'. reset_counters E n i m cs s = (cs', s)
       \<and> (\<forall>j. 0 \<le> j \<longrightarrow> info cs' j = (if i \<le> j \<and> j < i + int n then cleared (client m j) (info cs j) else info cs j))"
proof (induction n arbitrary: i cs)
  case (Suc n)
  let ?c = "client m i"
  have r: "in_range m i" using Suc.prems(2,3) by (simp add: in_range_def)
  then have idx: "innerIdx ?c = i" "has_counter i"
    using table_wf_client [OF assms r] assms by (auto simp: in_range_def has_counter_def table_wf_def sized_def)
  let ?cs = "cs[nat i := cleared ?c (info cs i)]"
  have 1: "counterReset ?c cs s = (?cs, s)" using counterReset_cleared [of ?c cs s] by (simp add: idx)
  have put: "info ?cs j = (if j = i then cleared ?c (info cs i) else info cs j)" if "0 \<le> j" for j
    using that Suc.prems(1,2) idx(2) info_update_other [of i j cs] by auto
  have "0 \<le> i + 1" "i + 1 + int n \<le> clientsCnt m" "length ?cs = MAX_CLIENT_NUM" using Suc.prems by simp_all
  then obtain cs' where rest: "reset_counters E n (i + 1) m ?cs s = (cs', s)"
    "\<forall>j. 0 \<le> j \<longrightarrow> info cs' j = (if i + 1 \<le> j \<and> j < i + 1 + int n then cleared (client m j) (info ?cs j) else info ?cs j)"
    using Suc.IH by blast
  have "reset_counters E (Suc n) i m cs s = (cs', s)" using r by (simp add: get_client_in_range 1 rest(1))
  moreover have "info cs' j = (if i \<le> j \<and> j < i + int (Suc n) then cleared (client m j) (info cs j) else info cs j)"
    if "0 \<le> j" for j
    using rest(2) that put [OF that] by auto
  ultimately show ?case by blast
qed auto

text \<open>What \<^verbatim>\<open>send_data\<close> does: the text, the call that publishes it and where its answer comes from.\<close>

lemma send_data_run:
  "\<exists>h cs. case send_data E q data k s of (r, buf, s') \<Rightarrow>
     buf = fst (snd (get_json E MAX_BUF data k s))
     \<and> r = rc E (Mosq (C_mosquitto_publish (mosq q) (pMqttTopic q) buf) # h)
     \<and> calls s' = cs @ Mosq (C_mosquitto_publish (mosq q) (pMqttTopic q) buf) # h
     \<and> dev_calls s' = Mosq (C_mosquitto_publish (mosq q) (pMqttTopic q) buf) # dev_calls s"
proof -
  obtain r buf s1 where j: "get_json E MAX_BUF data k s = (r, buf, s1)" by (metis prod_cases3)
  have s1: "dev_calls s1 = dev_calls s" using get_json_sel [of E MAX_BUF data k s] by (simp add: j)
  let ?msg = "Mosq (C_mosquitto_publish (mosq q) (pMqttTopic q) buf)" and ?s2 = "log_info E buf s1"
  let ?t = "''mqtt_send error='' @ dec_int (rc E (?msg # calls ?s2)) @ [NL]"
  have "mqtt_send E q buf ?s2 = (rc E (?msg # calls ?s2),
      printf_c ?t (emit ?msg ?s2))"
    by (simp only: mqtt_send_def ext_def Let_def prod.case)
  then have run: "send_data E q data k s = (rc E (?msg # calls ?s2), buf, printf_c ?t (emit ?msg ?s2))"
    by (simp only: send_data_def Let_def j prod.case)
  have c: "calls (printf_c ?t (emit ?msg ?s2)) = [Stdio (C_stdout ?t)] @ ?msg # calls ?s2"
    by (simp only: printf_c_def emit_sel append_Cons append_Nil)
  have d: "dev_calls (printf_c ?t (emit ?msg ?s2)) = ?msg # dev_calls s"
    by (simp only: dev_calls_mqtt dev_calls_prim dev_call.simps if_True dev_calls_log s1)
  have b: "buf = fst (snd (get_json E MAX_BUF data k s))" by (simp only: j fst_conv snd_conv)
  show ?thesis unfolding run prod.case using b c d by blast
qed

lemma dynamic_fields_others:
  assumes "set_mqtt_dynamic_fields E data s = (data', s')"
  shows "SF_CLIENT_POS \<le> k \<Longrightarrow> data' ! k = data ! k" and "length data' = length data" and "dev_calls s' = dev_calls s"
proof -
  have "at_field i f d ! k = d ! k" if "i \<noteq> k" for i f d using that by (simp add: at_field_def)
  then show "SF_CLIENT_POS \<le> k \<Longrightarrow> data' ! k = data ! k"
    using assms by (auto simp: set_mqtt_dynamic_fields_def Let_def time_c_def field_positions)
  show "length data' = length data" "dev_calls s' = dev_calls s"
    using assms by (auto simp: set_mqtt_dynamic_fields_def Let_def time_c_def)
qed

text \<open>A message that is short enough is complete.\<close>

lemma get_json_whole:
  assumes "ds = take (nat k) data" and "ds \<noteq> []" and "\<forall>d \<in> set ds. json_typed d"
    and "length (concat (map (\<lambda>d. json_item d @ '','') ds)) < MAX_BUF - 101"
  shows "fst (snd (get_json E MAX_BUF data k s)) = json_object ds"
proof -
  obtain r buf s' where run: "get_json E MAX_BUF data k s = (r, buf, s')" by (metis prod_cases3)
  have "fst (json_loop E MAX_BUF ds ''{'' t) = DATA_ERR_SUCCESS" for t
    using json_loop_completes [OF assms(3), where buf = "''{''" and n = MAX_BUF and E = E and s = t] assms(4)
    by (simp add: DATA_MAX_LINE_LEN_def)
  then have r: "r = DATA_ERR_SUCCESS" using run by (simp add: get_json_def assms(1)) (metis fst_conv)
  have "buf = butlast (''{'' @ concat (map (\<lambda>d. json_item d @ '','') ds)) @ ''}''"
    using json_loop_success [OF run [unfolded get_json_def, folded assms(1)] r] by simp
  then have "buf = json_object ds"
    unfolding commas_terminated [OF assms(2)] by (simp add: json_object_def butlast_append)
  then show ?thesis by (simp add: run)
qed

lemma json_nonempty: "up m \<Longrightarrow> length data = mqtt_slots \<Longrightarrow> take (nat (mqtt_data_count m)) data \<noteq> []"
  using up_ready [of m] by (auto simp: up_def message_ok_def ready_def poll_wf_def table_wf_def mqtt_slots_def SF_CLIENT_POS_def)

lemma up_message_whole:
  assumes "up m" and "set_mqtt_dynamic_fields E (mqtt_data (poll m)) s = (data, s')"
    and "length (concat (map (\<lambda>d. json_item d @ '','') (take (nat (mqtt_data_count m)) data))) < MAX_BUF - 101"
  shows "fst (snd (get_json E' MAX_BUF data (mqtt_data_count m) t)) = json_object (take (nat (mqtt_data_count m)) data)"
proof -
  have "length (mqtt_data (poll m)) = mqtt_slots" using up_ready [OF assms(1)] by (simp add: ready_def poll_wf_def)
  note f = dynamic_fields_result [OF this assms(2)]
  have typed: "\<forall>d \<in> set (take (nat (mqtt_data_count m)) data). json_typed d"
    using f(2) assms(1) by (auto simp: up_def message_ok_def in_set_conv_nth)
  show ?thesis by (rule get_json_whole [OF refl json_nonempty [OF assms(1) f(1)] typed assms(3)])
qed

lemma up_reset_counters:
  assumes "up m"
  shows "\<exists>cs. reset_counters E (nat (clientsCount m)) 0 (mgr (poll m)) (cnt (poll m)) s = (cs, s)
     \<and> (\<forall>j. in_range (mgr (poll m)) j \<longrightarrow> info cs j = cleared (client (mgr (poll m)) j) (info (cnt (poll m)) j))"
proof -
  have len: "length (cnt (poll m)) = MAX_CLIENT_NUM" and wf: "table_wf (mgr (poll m))"
    using up_ready [OF assms] by (simp_all add: ready_def poll_wf_def)
  moreover have "0 \<le> clientsCount m" "clientsCount m = clientsCnt (mgr (poll m))"
    using assms wf by (simp_all add: up_def message_ok_def table_wf_def)
  ultimately show ?thesis
    using reset_counters_result [OF wf len, of 0 "nat (clientsCount m)" E s] by (auto simp: in_range_def)
qed

text \<open>
  C9. The sending state, from every reachable state in it: it publishes exactly one message to the
  broker's client and returns to processing; the clients' members are sent as they are and, when the
  text is short enough, the message is the JSON object of all records; the counters start again
  exactly when the broker's client answers the publishing with 0, and are kept when it does not.
\<close>

theorem sending_round:
  assumes "reachable E cfg (At_switch, m, s)" and "\<forall>n. 0 \<le> config_setting_length cfg n"
    and "ds_state (dev_status m) = SEND_DATA"
  shows "\<exists>m' s' h cs. main_step E cfg At_switch m s = Some (At_switch, m', s')
     \<and> ds_state (dev_status m') = PROCESS \<and> mosq (mq m) \<noteq> None \<and> mgr (poll m') = mgr (poll m)
     \<and> dev_calls s' = Mosq (C_mosquitto_publish (mosq (mq m)) (pMqttTopic (mq m)) (send_buf m')) # dev_calls s
     \<and> calls s' = cs @ Mosq (C_mosquitto_publish (mosq (mq m)) (pMqttTopic (mq m)) (send_buf m')) # h
     \<and> (\<forall>k \<ge> SF_CLIENT_POS. mqtt_data (poll m') ! k = mqtt_data (poll m) ! k)
     \<and> (length (concat (map (\<lambda>d. json_item d @ '','') (take (nat (mqtt_data_count m)) (mqtt_data (poll m'))))) < MAX_BUF - 101
          \<longrightarrow> send_buf m' = json_object (take (nat (mqtt_data_count m)) (mqtt_data (poll m'))))
     \<and> (\<forall>j. in_range (mgr (poll m)) j \<longrightarrow> info (cnt (poll m')) j =
          (if rc E (Mosq (C_mosquitto_publish (mosq (mq m)) (pMqttTopic (mq m)) (send_buf m')) # h) = 0
           then cleared (client (mgr (poll m)) j) (info (cnt (poll m)) j) else info (cnt (poll m)) j))"
proof -
  let ?p = "poll m" and ?msg = "\<lambda>b. Mosq (C_mosquitto_publish (mosq (mq m)) (pMqttTopic (mq m)) b)"
  have "module_inv At_switch m" using reachable_inv [OF assms(1,2)] by simp
  then have u: "up m" using assms(3) by (auto simp: module_inv_split init_inv_def module_states)
  obtain data s1 where 1: "set_mqtt_dynamic_fields E (mqtt_data ?p) (log_debug E ''Send data'' s) = (data, s1)"
    by (metis surj_pair)
  obtain ok buf s2 where 2: "send_data E (mq m) data (mqtt_data_count m) s1 = (ok, buf, s2)" by (metis prod_cases3)
  note f = dynamic_fields_others [OF 1]
  obtain h cs where sent: "buf = fst (snd (get_json E MAX_BUF data (mqtt_data_count m) s1))"
    "ok = rc E (?msg buf # h)" "calls s2 = cs @ ?msg buf # h" "dev_calls s2 = ?msg buf # dev_calls s1"
    using send_data_run [where E = E and q = "mq m" and data = data and k = "mqtt_data_count m" and s = s1] by (auto simp: 2)
  obtain cs' where reset: "reset_counters E (nat (clientsCount m)) 0 (mgr ?p) (cnt ?p) s2 = (cs', s2)"
    "\<forall>j. in_range (mgr ?p) j \<longrightarrow> info cs' j = cleared (client (mgr ?p) j) (info (cnt ?p) j)"
    using up_reset_counters [OF u, of E s2] by blast
  let ?cs = "if ok = 0 then cs' else cnt ?p"
  let ?s3 = "if ok = 0 then s2 else mn_LOG_E E 710 ''main'' ''MQTT: Send error'' s2"
  let ?m' = "set_state PROCESS (m\<lparr>send_buf := buf, poll := ?p\<lparr>mqtt_data := data, cnt := ?cs\<rparr>\<rparr>)"
  have d: "do_send E m s = (?m', ?s3)"
    by (simp only: do_send_def Let_def 1 2 prod.case reset(1) split: if_split) simp
  have step: "main_step E cfg At_switch m s = Some (At_switch, ?m', ?s3)"
    using assms(3) by (simp add: main_step_def at_switch_def module_states d)
  have os: "os_le s2 ?s3" by (simp add: mn_LOG_E_def)
  then obtain cs3 where c3: "calls ?s3 = cs3 @ cs @ ?msg buf # h" unfolding os_le_def sent(3) by blast
  have dc: "dev_calls ?s3 = ?msg buf # dev_calls s" using sent(4) f(3) by (simp add: mn_LOG_E_def)
  have whole: "buf = json_object (take (nat (mqtt_data_count m)) data)"
    if "length (concat (map (\<lambda>d. json_item d @ '','') (take (nat (mqtt_data_count m)) data))) < MAX_BUF - 101"
    unfolding sent(1) using up_message_whole [OF u 1 that] .
  have sel: "send_buf ?m' = buf" "mqtt_data (poll ?m') = data" "cnt (poll ?m') = ?cs" "mgr (poll ?m') = mgr ?p"
    "ds_state (dev_status ?m') = PROCESS"
    by (simp_all add: set_state_def)
  have mosq: "mosq (mq m) \<noteq> None" using u by (simp add: up_def flags_ok_def all_up_def)
  have counters: "\<forall>j. in_range (mgr ?p) j \<longrightarrow> info ?cs j = (if rc E (?msg buf # h) = 0
      then cleared (client (mgr ?p) j) (info (cnt ?p) j) else info (cnt ?p) j)"
    using reset(2) by (simp add: sent(2))
  have calls: "calls ?s3 = (cs3 @ cs) @ ?msg buf # h" using c3 by simp
  show ?thesis
    by (rule exI [of _ ?m'], rule exI [of _ ?s3], rule exI [of _ h], rule exI [of _ "cs3 @ cs"], unfold sel)
      (use step mosq dc calls f(1) whole counters in blast)
qed

theorem sending_round_witness:
  "\<exists>m s m' s'. reachable quiet_env full_cfg (At_switch, m, s) \<and> ds_state (dev_status m) = SEND_DATA
     \<and> main_step quiet_env full_cfg At_switch m s = Some (At_switch, m', s')
     \<and> dev_calls s' = Mosq (C_mosquitto_publish (mosq (mq m)) (pMqttTopic (mq m)) (send_buf m')) # dev_calls s"
proof -
  obtain m s where r: "reachable quiet_env full_cfg (At_switch, m, s)" "ds_state (dev_status m) = SEND_DATA"
    using sending_reachable by blast
  from sending_round [OF r(1) full_cfg_length r(2)] r show ?thesis by blast
qed

end
