(* ===== verification/TsDeliveryOpc.thy ===== *)
theory TsDeliveryOpc
  imports TsDelivery
begin

text \<open>
  The same path for an OPC UA client: from the answer of the server's read service to the member of
  the message.
\<close>

section \<open>From the read service to the member\<close>

text \<open>The value the server gives for a client's node when the client is polled.\<close>

definition service_answer :: "env \<Rightarrow> InnerIdx \<Rightarrow> poll_t \<Rightarrow> io \<Rightarrow> ua_value option" where
  "service_answer E i p s = (let c = opc (client (mgr p) i) in
     case (opc_handle (mgr p), node c) of
       (Some x, Some nodeName) \<Rightarrow>
         (let h = read_call c x nodeName # Ua C_UA_Variant_new
                # calls (log_debug E (''Read data, client: '' @ name_of (mgr p) i) s);
              (st, v) = UA_Client_readAttribute (ua_read_r E h)
          in if st = UA_STATUSCODE_GOOD then v else None)
     | _ \<Rightarrow> None)"

text \<open>The number a client of a type takes from a value; a value of another type counts as 0.\<close>

definition taken :: "DataType \<Rightarrow> ua_value \<Rightarrow> int" where
  "taken dt v = (if dt = MDT_INT then (case ua_number v of None \<Rightarrow> 0 | Some n \<Rightarrow> n)
     else (case v of UA_UInt32 w \<Rightarrow> uint w | _ \<Rightarrow> 0))"

lemma opc_convert_number:
  assumes "oc_dataType c \<in> {MDT_INT, MDT_DWORD}"
  shows "\<exists>st cd' s'. opc_convert E c v cd s = (st, cd', s') \<and> cd_dataType cd' = cd_dataType cd
     \<and> st \<in> {UA_STATUSCODE_GOOD, UA_STATUSCODE_BADDATATYPEIDUNKNOWN}
     \<and> field (oc_dataType c) cd' = word_of_int (taken (oc_dataType c) v)"
proof (cases "oc_dataType c = MDT_INT")
  case True
  obtain st cd' s' where r: "opc_convert E c v cd s = (st, cd', s')" by (metis prod_cases3)
  have "cd_dataType cd' = cd_dataType cd"
    using opc_convert_type [where E = E and c = c and v = "Some v" and cd = cd and s = s] r by (simp add: opc_convert_variant_def)
  with opc_convert_int [OF True, where E = E and v = v and cd = cd and s = s] r True show ?thesis
    by (auto simp: field_def taken_def split: option.splits)
next
  case False
  with assms have "oc_dataType c = MDT_DWORD" by simp
  then show ?thesis by (cases v) (simp_all add: opc_convert_def field_def taken_def)
qed

lemma opc_receive_number:
  assumes "node c = Some nodeName" and "length nodeName \<le> MAX_OPC_NODE_LEN" and dt: "oc_dataType c \<in> {MDT_INT, MDT_DWORD}"
    and "UA_Client_readAttribute (ua_read_r E (read_call c x nodeName # Ua C_UA_Variant_new # calls s))
      = (UA_STATUSCODE_GOOD, Some v)"
  shows "\<exists>cd' s'. opcReceiveData E c cd (Some x) s = (True, cd', s') \<and> cd_dataType cd' = oc_dataType c
     \<and> field (oc_dataType c) cd' = word_of_int (taken (oc_dataType c) v)"
proof -
  let ?s = "emit (read_call c x nodeName) (emit (Ua C_UA_Variant_new) s)"
  let ?t = "ub_if (fst (ext_new E (Ua C_UA_Variant_new) s) = None) Null_Deref ?s"
  obtain st cd' s' where r: "opc_convert E c v (cd\<lparr>cd_dataType := oc_dataType c\<rparr>) ?t = (st, cd', s')"
    and t: "cd_dataType cd' = oc_dataType c" "st \<in> {UA_STATUSCODE_GOOD, UA_STATUSCODE_BADDATATYPEIDUNKNOWN}"
      "field (oc_dataType c) cd' = word_of_int (taken (oc_dataType c) v)"
    using opc_convert_number [OF dt, of E v "cd\<lparr>cd_dataType := oc_dataType c\<rparr>" ?t] by auto
  have "opcReceiveData E c cd (Some x) s = (True, cd', emit (Ua C_UA_Variant_delete) s')"
    using assms(2,4) r t(2)
    by (auto simp: opcReceiveData_def assms(1) opc_convert_variant_def read_call_def Let_def split_beta)
  with t show ?thesis by blast
qed

lemma receive_service:
  assumes "table_wf m" and "in_range m i" and "protocol (client m i) = CP_OPC" and "connected (client m i)"
    and dt: "cs_dataType (client m i) \<in> {MDT_INT, MDT_DWORD}" and "opc_handle m = Some x"
    and "node (opc (client m i)) = Some nodeName" and "length nodeName \<le> MAX_OPC_NODE_LEN"
    and "UA_Client_readAttribute (ua_read_r E (read_call (opc (client m i)) x nodeName # Ua C_UA_Variant_new # calls s))
      = (UA_STATUSCODE_GOOD, Some v)"
  shows "\<exists>cd' s'. manager_receive_data E i cd m s = (True, cd', m, s') \<and> cd_dataType cd' = cs_dataType (client m i)
    \<and> field (cs_dataType (client m i)) cd' = word_of_int (taken (cs_dataType (client m i)) v)"
proof -
  have t: "oc_dataType (opc (client m i)) = cs_dataType (client m i)"
    using table_wf_client [OF assms(1,2)] assms(3) by (simp add: client_ok_def)
  obtain cd' s1 where r: "opcReceiveData E (opc (client m i)) cd (Some x) s = (True, cd', s1)"
    and c: "cd_dataType cd' = cs_dataType (client m i)"
      "field (cs_dataType (client m i)) cd' = word_of_int (taken (cs_dataType (client m i)) v)"
    using opc_receive_number [OF assms(7,8) _ assms(9), of cd] dt unfolding t by blast
  have "manager_receive_data E i cd m s = (True, cd', m, s1)"
    using assms(2-4,6) by (simp add: manager_receive_data_def manager_receive_data_simple_def ensure_connected_def
        in_range_def r)
  with c show ?thesis by blast
qed

text \<open>
  C7. The whole path of an OPC UA value: when the server answers the poll of a connected \<^verbatim>\<open>int\<close> or
  \<^verbatim>\<open>dword\<close> client with a value \<open>v\<close>, the client's counter entry holds the number of \<open>v\<close> modulo \<open>2 ^ 32\<close> (0
  if the type of \<open>v\<close> is not one the client takes), and a receiver reads from the client's member its
  name with that number or its counter, scaled to its unit; an \<^verbatim>\<open>int\<close> client without counter and unit
  delivers every number that fits an \<^verbatim>\<open>int\<close> exactly, and a \<^verbatim>\<open>dword\<close> counter has moved by the increment
  the number gives.
\<close>

theorem opc_value_reaches_message:
  assumes "poll_wf p" and "in_range (mgr p) i" and "protocol (client (mgr p) i) = CP_OPC"
    and "connected (client (mgr p) i)" and "cs_dataType (client (mgr p) i) \<in> {MDT_INT, MDT_DWORD}"
    and "pClient (info (cnt p) i) \<noteq> None" and "CHR 0x22 \<notin> set (name_of (mgr p) i)"
    and "node (opc (client (mgr p) i)) = Some nodeName" and "length nodeName \<le> MAX_OPC_NODE_LEN"
    and "service_answer E i p s = Some v"
  defines "c \<equiv> client (mgr p) i" and "num \<equiv> taken (cs_dataType (client (mgr p) i)) v"
  shows "case poll_client E l i (p, s) of (p', s') \<Rightarrow>
     field (cs_dataType c) (currentData (info (cnt p') i)) = word_of_int num
     \<and> read_member (json_item (mqtt_data p' ! slot i))
         = (name_of (mgr p) i, shown (cs_dataType c) (sent_word c (info (cnt p') i)))
     \<and> (cs_dataType c = MDT_INT \<and> counter c = CT_NONE \<and> computation c = LCT_NONE \<and> fits_int num \<longrightarrow>
          read_member (json_item (mqtt_data p' ! slot i)) = (name_of (mgr p) i, num))
     \<and> (cs_dataType c = MDT_DWORD \<and> counter c = CT_NONE \<longrightarrow>
          read_member (json_item (mqtt_data p' ! slot i))
            = (name_of (mgr p) i, num * int (comp_factor (computation c)) mod 2 ^ 32))
     \<and> (cs_dataType c = MDT_DWORD \<and> counter c \<in> {CT_DIFFERENCE, CT_CUMUL_NOT_100} \<longrightarrow>
          tally (counter c) (info (cnt p') i) = tally (counter c) (info (cnt p) i)
            + word_of_int (increment (counter c) (uint (data_dword (currentData (info (cnt p) i)))) num))"
proof -
  let ?s = "log_debug E (''Read data, client: '' @ name_of (mgr p) i) s"
  have wf: "table_wf (mgr p)" using assms(1) by (simp add: poll_wf_def)
  obtain x where x: "opc_handle (mgr p) = Some x"
    and ans: "UA_Client_readAttribute (ua_read_r E (read_call (opc (client (mgr p) i)) x nodeName
        # Ua C_UA_Variant_new # calls ?s)) = (UA_STATUSCODE_GOOD, Some v)"
    using assms(10) by (cases "opc_handle (mgr p)")
      (auto simp: service_answer_def assms(8) Let_def split: prod.splits if_splits)
  obtain cd' s1 where r: "manager_receive_data E i (clientData p) (mgr p) ?s = (True, cd', mgr p, s1)"
    and cd: "cd_dataType cd' = cs_dataType c" "field (cs_dataType c) cd' = word_of_int num"
    using receive_service [OF wf assms(2-5) x assms(8,9) ans] unfolding c_def num_def by blast
  have range: "0 \<le> num \<and> num < 2 ^ 32" if "cs_dataType c = MDT_DWORD"
    using that uint_bounded [where 'a = 32] unfolding num_def taken_def c_def
    by (auto split: ua_value.splits)
  have du: "uint (data_dword cd') = num" if "cs_dataType c = MDT_DWORD"
    using cd(2) that range by (simp add: field_def uint_word_of_int)
  then have dn: "int (unat (data_dword cd') * k mod 2 ^ 32) = num * int k mod 2 ^ 32" if "cs_dataType c = MDT_DWORD" for k
    using that by (simp add: of_nat_mod uint_nat [symmetric])
  have plain: "shown MDT_INT (sent_word c ci) = num"
    if "cs_dataType c = MDT_INT" "counter c = CT_NONE" "computation c = LCT_NONE" "fits_int num" "currentData ci = cd'" for ci
    using that cd(2) sint_word_of_int32 [of num] by (simp add: sent_word_def shown_def fits_int_def)
  show ?thesis
    using received_value_member [OF assms(1,2,5-7) r cd(1) [unfolded c_def], of l] cd(2) dn du plain
    unfolding c_def by (auto simp: Let_def split: prod.splits)
qed

text \<open>A table with one OPC UA client, polled in the quiet environment.\<close>

definition one_tank :: manager_t where
  "one_tank = manager0\<lparr>clientsCnt := 1, sendInterval := 1, opc_handle := Some 5,
     clientSettings := (clientSettings manager0)[0 := ClientSettings_zero\<lparr>cs_name := Some ''lvl'',
       cs_unit := Some ''mm'', connected := True, protocol := CP_OPC, cs_dataType := MDT_INT,
       opc := level_meter\<lparr>serverName := Some ''opc.tcp://plc''\<rparr>\<rparr>]\<rparr>"

definition tank_poll :: poll_t where
  "tank_poll = one_poll\<lparr>mgr := one_tank\<rparr>"

lemma one_tank_client: "client one_tank 0 = ClientSettings_zero\<lparr>cs_name := Some ''lvl'', cs_unit := Some ''mm'',
    connected := True, protocol := CP_OPC, cs_dataType := MDT_INT, opc := level_meter\<lparr>serverName := Some ''opc.tcp://plc''\<rparr>\<rparr>"
  by (simp add: one_tank_def client_def manager0_def)

lemma one_tank_range: "in_range one_tank i \<longleftrightarrow> i = 0"
  by (auto simp: in_range_def one_tank_def)

lemma tank_poll_wf: "poll_wf tank_poll" "mgr tank_poll = one_tank" "pClient (info (cnt tank_poll) 0) = Some 0"
proof -
  have "sized one_tank" "clientsCnt one_tank = 1" by (simp_all add: sized_def one_tank_def manager0_def MAX_CLIENT_NUM_def)
  moreover have "client_ok (client one_tank 0)" "innerIdx (client one_tank 0) = 0"
    by (simp_all add: one_tank_client client_ok_def ClientSettings_zero_def level_meter_def tank_def MAX_CLIENT_NAME_LEN_def)
  ultimately have "table_wf one_tank" by (simp add: table_wf_def one_tank_range)
  moreover have "length (cnt one_poll) = MAX_CLIENT_NUM" "length (mqtt_data one_poll) = mqtt_slots"
    using plc_module_ready
    by (simp_all add: ready_def poll_wf_def one_poll_def plc_module_def counters0_def)
  ultimately show "poll_wf tank_poll" by (simp add: poll_wf_def tank_poll_def)
  show "mgr tank_poll = one_tank" "pClient (info (cnt tank_poll) 0) = Some 0"
    by (simp_all add: tank_poll_def one_poll_def counters0_def info_def MAX_CLIENT_NUM_def)
qed

theorem opc_value_reaches_message_witness:
  "case poll_client quiet_env 500 0 (tank_poll, io0 (\<lambda>_. None)) of (p', s') \<Rightarrow>
     read_member (json_item (mqtt_data p' ! slot 0)) = (''lvl'', 7)"
proof -
  have c: "cs_dataType (client one_tank 0) = MDT_INT" "protocol (client one_tank 0) = CP_OPC"
    "connected (client one_tank 0)" "name_of one_tank 0 = ''lvl''" "counter (client one_tank 0) = CT_NONE"
    "computation (client one_tank 0) = LCT_NONE" "node (opc (client one_tank 0)) = Some ''Level''"
    "opc_handle one_tank = Some 5"
    by (simp_all add: one_tank_client name_of_def str_or_null_def ClientSettings_zero_def level_meter_def tank_def)
      (simp add: one_tank_def)
  have a: "service_answer quiet_env 0 tank_poll (io0 (\<lambda>_. None)) = Some (UA_Int32 7)"
    by (simp add: service_answer_def tank_poll_wf(2) c(7,8) Let_def UA_Client_readAttribute_def UA_STATUSCODE_GOOD_def)
  obtain p' s' where run: "poll_client quiet_env 500 0 (tank_poll, io0 (\<lambda>_. None)) = (p', s')" by (metis surj_pair)
  from opc_value_reaches_message [OF tank_poll_wf(1) _ _ _ _ _ _ _ _ a, where l = 500 and nodeName = "''Level''"]
  show ?thesis
    by (simp add: tank_poll_wf(2,3) c run one_tank_range taken_def fits_int_def MAX_OPC_NODE_LEN_def sent_word_def shown_def)
qed

end
