(* ===== verification/TsSender.thy ===== *)
theory TsSender
  imports TsFrame
begin

text \<open>
  The module against an abstract sender: a mode, a countdown in minutes and a number of messages.
  Every step of the module is a step of the sender, and the sender's arithmetic gives the number of
  messages published after a number of minutes.
\<close>

section \<open>Publishing\<close>

definition pubs :: "io \<Rightarrow> nat" where
  "pubs s = length (filter publishes (calls s))"

lemma pubs_ub [simp]: "pubs (ub k s) = pubs s" "pubs (ub_if b k s) = pubs s"
  by (simp_all add: pubs_def)

interpretation pubs: steady "\<lambda>s. pubs s = n"
  by unfold_locales (simp_all add: pubs_def)

lemma pubs_emit: "pubs (emit c s) = (if publishes c then Suc (pubs s) else pubs s)"
  by (simp add: pubs_def)

text \<open>The operations with faults of their own.\<close>

lemma pubs_opc_receive [simp]: "pubs (snd (snd (opcReceiveData E c cd h s))) = pubs s"
proof -
  have 1: "pubs (snd (snd (opc_convert E c v cd s))) = pubs s" for v cd s
    by (simp add: opc_convert_def opc_store_int_def Let_def split: DataType.splits ua_value.splits)
  have 2: "pubs (snd (snd (opc_convert_variant E c v cd s))) = pubs s" for v cd s
    by (simp add: opc_convert_variant_def 1 split: option.splits)
  show ?thesis by (simp add: opcReceiveData_def Let_def split_beta 2 split: option.splits)
qed

lemma pubs_mqtt_init [simp]: "pubs (snd (snd (mqtt_init E cfg q s))) = pubs s"
proof -
  have 1: "pubs (snd (mqtt_connect_steps E x st s)) = pubs s" for x st s
    by (simp add: mqtt_connect_steps_def Let_def split_beta)
  have 2: "pubs (snd (snd (read_setting cfg q s))) = pubs s" for q s
    by (simp add: read_setting_def Let_def split_beta split: option.splits)
  show ?thesis by (simp add: mqtt_init_def Let_def split_beta 1 2 split: option.splits)
qed

lemma pubs_receive [simp]: "pubs (snd (snd (snd (manager_receive_data E i cd m s)))) = pubs s"
proof -
  have w: "pubs (wrong_index E l fn i m s) = pubs s" for l fn m s by (simp add: wrong_index_def)
  have r: "pubs (snd (snd (manager_reconnect E i m s))) = pubs s" for m s
  proof -
    have 1: "pubs (snd (snd (connect_opc E i m s))) = pubs s" for m s
      by (simp add: connect_opc_def Let_def split_beta)
    show ?thesis by (simp add: manager_reconnect_def Let_def split_beta 1 w split: ClientProtocol.splits)
  qed
  have c: "pubs (snd (snd (modbusToClientData E d dt cd s))) = pubs s" for d dt cd s
    by (simp add: modbusToClientData_def Let_def split: DataType.splits)
  have s: "pubs (snd (snd (snd (manager_receive_data_simple E i cd m s)))) = pubs s" for cd m s
    by (simp add: manager_receive_data_simple_def Let_def split_beta c w split: ClientProtocol.splits)
  have a: "pubs (snd (snd (snd (receive_again E i cd m s)))) = pubs s" for cd m s
    by (simp add: receive_again_def Let_def split_beta r s)
  have e: "pubs (snd (snd (ensure_connected E i m s))) = pubs s" for m s
    by (simp add: ensure_connected_def Let_def split_beta r)
  show ?thesis by (simp add: manager_receive_data_def Let_def split_beta a e s w)
qed

lemma pubs_stages:
  "pubs (snd (update_stage E l i p s)) = pubs s" "pubs (snd (get_stage E l i p s)) = pubs s"
  "pubs (snd (computation_stage E l i p s)) = pubs s" "pubs (snd (snd (convert_stage E l i p s))) = pubs s"
proof -
  have 1: "pubs (snd (snd (update_info E ct dt cd ci s))) = pubs s" for ct dt cd ci s
    by (cases ct; cases dt; simp add: update_info_def update_difference_def update_not_100_def update_cumul_def
        int_delta_def Let_def split_beta)
  show "pubs (snd (update_stage E l i p s)) = pubs s"
    by (simp add: update_stage_def counterUpdate_def Let_def split_beta 1)
  have 2: "pubs (snd (snd (deliver E k dt n cd s))) = pubs s" for k dt n cd s
    by (simp add: deliver_def split: DataType.splits)
  show "pubs (snd (get_stage E l i p s)) = pubs s"
    by (simp add: get_stage_def counterGet_def Let_def split_beta 2 split: CounterType.splits)
  have 3: "pubs (snd (snd (client_computation E c cd s))) = pubs s" for c cd s
    by (simp add: client_computation_def Let_def split: DataType.splits)
  show "pubs (snd (computation_stage E l i p s)) = pubs s"
    by (simp add: computation_stage_def Let_def split_beta 3)
  have 4: "pubs (snd (snd (client_to_mqtt E c cd d s))) = pubs s" for c cd d s
    by (simp add: client_to_mqtt_def Let_def split_beta split: DataType.splits)
  show "pubs (snd (snd (convert_stage E l i p s))) = pubs s"
    by (simp add: convert_stage_def Let_def split_beta 4)
qed

lemma pubs_poll: "pubs (snd (poll_client E l i x)) = pubs (snd x)" "pubs (snd (poll_client_first E i x)) = pubs (snd x)"
proof -
  have 1: "pubs (snd (snd (poll_receive E i p s))) = pubs s" for p s
    by (simp add: poll_receive_def Let_def split_beta)
  have 2: "pubs (snd (poll_received E l i p s)) = pubs s" for l p s
    by (simp add: poll_received_def Let_def split_beta pubs_stages)
  have 3: "pubs (snd (poll_missing E i p s)) = pubs s" for p s
    by (simp add: poll_missing_def Let_def split_beta pubs_stages)
  show "pubs (snd (poll_client E l i x)) = pubs (snd x)" "pubs (snd (poll_client_first E i x)) = pubs (snd x)"
    by (simp_all add: poll_client_def poll_client_first_def Let_def split_beta 1 2 3 split: option.splits)
qed

lemma pubs_polls:
  "pubs (snd (fold (poll_client E l) is x)) = pubs (snd x)"
  "pubs (snd (fold (poll_client_first E) is x)) = pubs (snd x)"
  by (induction "is" arbitrary: x) (simp_all add: pubs_poll)

lemma pubs_send: "pubs (snd (snd (send_data E q data k s))) = Suc (pubs s)"
proof -
  have 1: "pubs (snd (snd (json_loop E n ds buf s))) = pubs s" for n ds buf s
    by (induction ds arbitrary: buf s) (auto simp: Let_def split: option.splits)
  have 2: "pubs (snd (mqtt_send E q t s)) = Suc (pubs s)" for t s
    by (simp add: mqtt_send_def Let_def split_beta pubs_emit)
  show ?thesis by (simp add: send_data_def get_json_def Let_def split_beta 1 2)
qed

lemma pubs_init_queue: "pubs (snd (snd (snd (init_queue E n i m q cs s)))) = pubs s"
proof (induction n arbitrary: i q cs s)
  case (Suc n)
  have 1: "pubs (snd (snd (queueAdd E r j q s))) = pubs s" for r j q s
    by (simp add: queueAdd_def Let_def split: RefreshRate.splits option.splits)
  have 2: "pubs (snd (counterAdd c cs s)) = pubs s" for c cs s
    by (simp add: counterAdd_def Let_def)
  show ?case by (simp add: Let_def split_beta 1 2 Suc mn_LOG_E_def split: option.splits)
qed simp

lemma pubs_init_sys: "pubs (snd (snd (init_sys E cfg m s))) = pubs s"
proof -
  have 1: "pubs (snd (init_mqtt E cfg m s)) = pubs s" for m s
    by (simp add: init_mqtt_def Let_def split_beta)
  have 2: "pubs (snd (snd (init_manager E cfg m s))) = pubs s" for m s
    by (simp add: init_manager_def Let_def split_beta pubs_init_queue pubs.kept_init_config pubs.kept_init_connections)
  have 3: "pubs (snd (init_timer E m s)) = pubs s" "pubs (snd (init_finish E m s)) = pubs s" for m s
    by (simp_all add: pubs.kept_init_timer pubs.kept_init_finish)
  show ?thesis by (simp add: init_sys_def Let_def split_beta 1 2 3)
qed

lemma pubs_dynamic: "pubs (snd (set_mqtt_dynamic_fields E data s)) = pubs s"
  by (simp add: set_mqtt_dynamic_fields_def time_c_def Let_def)

lemma pubs_do_init: "pubs (snd (do_init E cfg m s)) = pubs s"
proof -
  have "pubs (snd (start_up E m s)) = pubs s" for m s
    by (simp add: start_up_def first_poll_def Let_def split_beta pubs_polls pubs_dynamic pubs.kept_send_interval)
  then show ?thesis by (simp add: do_init_def Let_def split_beta pubs_init_sys)
qed

lemma pubs_do_send: "pubs (snd (do_send E m s)) = Suc (pubs s)"
proof -
  have 1: "pubs (snd (reset_counters E n i mg cs s)) = pubs s" for n i mg cs s
    by (induction n arbitrary: i cs s) (simp_all add: counterReset_def Let_def split_beta split: option.splits)
  show ?thesis by (simp add: do_send_def Let_def split_beta 1 pubs_send pubs_dynamic)
qed

lemma pubs_survey:
  assumes "ready m" and "survey_rate E r l m s = Some (m', s')"
  shows "pubs s' = pubs s"
proof -
  have w: "poll_wf (poll m)" "queue_wf (qu m)" using assms(1) by (simp_all add: ready_def)
  obtain p' t' q' where "survey_rate E r l m s = Some (m\<lparr>qu := q', poll := p'\<rparr>, t')"
    "(p', t') = fold (poll_client E l) (clients_at r (qu m)) (poll m, s)"
    using survey_rate_result [OF w] by blast
  with assms(2) pubs_polls(1) [of E l "clients_at r (qu m)" "(poll m, s)"] show ?thesis
    by (metis option.inject snd_conv)
qed

section \<open>The abstract sender\<close>

datatype mode = Starting | Sending | Processing

record sender =
  sd_mode :: mode
  interval :: int
  minutes :: int
  messages :: nat

text \<open>A step of the sender; the first argument says whether it is the passing of a minute.\<close>

inductive sender_step :: "bool \<Rightarrow> sender \<Rightarrow> sender \<Rightarrow> bool" where
  idle: "sender_step False a a"
| begun: "sd_mode a = Starting \<Longrightarrow> sender_step False a (a\<lparr>sd_mode := Sending, interval := n, minutes := n\<rparr>)"
| sent: "sd_mode a = Sending \<Longrightarrow> sender_step False a (a\<lparr>sd_mode := Processing, messages := Suc (messages a)\<rparr>)"
| minute: "sd_mode a = Processing \<Longrightarrow> 1 < minutes a \<Longrightarrow> sender_step True a (a\<lparr>minutes := minutes a - 1\<rparr>)"
| due: "sd_mode a = Processing \<Longrightarrow> minutes a \<le> 1 \<Longrightarrow>
    sender_step True a (a\<lparr>sd_mode := Sending, minutes := interval a\<rparr>)"

code_pred sender_step .

text \<open>A module and its history as a sender; before it is up, interval and countdown mean nothing.\<close>

definition mode_of :: "int \<Rightarrow> mode" where
  "mode_of st = (if st = INIT_SYS then Starting else if st = SEND_DATA then Sending else Processing)"

definition sender_of :: "config \<Rightarrow> sender" where
  "sender_of c = (case c of (k, m, s) \<Rightarrow> let st = mode_of (ds_state (dev_status m)) in
     \<lparr>sd_mode = st, interval = (if st = Starting then 0 else sendInterval (mgr (poll m))),
      minutes = (if st = Starting then 0 else sendDataMin m), messages = pubs s\<rparr>)"

text \<open>The phase that counts a minute.\<close>

definition minute_phase :: "config \<Rightarrow> bool" where
  "minute_phase c \<longleftrightarrow> fst c = At_1m \<and> period_1m (t_period (tm (fst (snd c))))"

text \<open>The countdown runs only while processing: the first two phases of a pass are never sending.\<close>

definition pass_begins :: "config \<Rightarrow> bool" where
  "pass_begins c \<longleftrightarrow> (fst c \<in> {Clear_100ms, At_1m} \<longrightarrow> ds_state (dev_status (fst (snd c))) = PROCESS)"

lemma survey_sender:
  assumes "up m" and "survey_rate E r l m s = Some (m', s')"
  shows "dev_status m' = dev_status m" "sendInterval (mgr (poll m')) = sendInterval (mgr (poll m))"
    "sendDataMin m' = sendDataMin m" "pubs s' = pubs s"
proof -
  obtain q' p' t' where "survey_rate E r l m s = Some (m\<lparr>qu := q', poll := p'\<rparr>, t')"
    "touches_all (set (clients_of r (mgr (poll m)))) (poll m) p'"
    using survey_ready [OF up_ready [OF assms(1)]] by blast
  with assms(2) show "dev_status m' = dev_status m" "sendInterval (mgr (poll m')) = sendInterval (mgr (poll m))"
    "sendDataMin m' = sendDataMin m" by (auto simp: touches_all_def same_table_def)
  show "pubs s' = pubs s" using up_ready [OF assms(1)] assms(2) by (rule pubs_survey)
qed

lemma count_minute_sender:
  assumes "count_minute E m s = (m', s')" and "ds_state (dev_status m) = PROCESS"
  shows "sender_step True (sender_of (k, m, s)) (sender_of (k', m', s'))"
proof -
  let ?a = "sender_of (k, m, s)"
  obtain n s1 where i: "manager_get_send_interval E (mgr (poll m))
      (ub_if (\<not> fits_int (sendDataMin m - 1)) Signed_Overflow s) = (n, s1)" by (metis surj_pair)
  have n: "n = sendInterval (mgr (poll m))" "pubs s1 = pubs s"
    using i pubs.kept_send_interval [of _ "pubs s" E "mgr (poll m)"]
    by (auto simp: manager_get_send_interval_def split: if_splits)
  have a: "sd_mode ?a = Processing" "minutes ?a = sendDataMin m" "interval ?a = sendInterval (mgr (poll m))"
    using assms(2) by (simp_all add: sender_of_def mode_of_def module_states Let_def)
  show ?thesis
  proof (cases "sendDataMin m \<le> 1")
    case True
    then have "sender_of (k', m', s') = ?a\<lparr>sd_mode := Sending, minutes := interval ?a\<rparr>"
      using assms i n by (auto simp: count_minute_def sender_of_def mode_of_def set_state_def module_states Let_def)
    with sender_step.due [OF a(1)] True show ?thesis by (simp add: a(2))
  next
    case False
    then have "sender_of (k', m', s') = ?a\<lparr>minutes := minutes ?a - 1\<rparr>"
      using assms by (auto simp: count_minute_def sender_of_def mode_of_def module_states Let_def)
    with sender_step.minute [OF a(1)] False show ?thesis by (simp add: a(2))
  qed
qed

lemma start_up_sender:
  assumes "ready m" and "start_up E m s = (m', s')"
  shows "ds_state (dev_status m') = SEND_DATA" "sendDataMin m' = sendInterval (mgr (poll m'))"
    "sendInterval (mgr (poll m')) = sendInterval (mgr (poll m))"
    "ds_manager (dev_status m') = ds_manager (dev_status m)"
proof -
  let ?p = "poll m" and ?n = "clientsCnt (mgr (poll m))"
  have w: "poll_wf ?p" and len: "length (mqtt_data ?p) = mqtt_slots" using assms(1) by (simp_all add: ready_def poll_wf_def)
  obtain k s1 where 1: "manager_get_send_interval E (mgr ?p) s = (k, s1)" by (metis surj_pair)
  obtain data s2 where 2: "set_mqtt_dynamic_fields E (set_mqtt_static_fields (mqtt_data ?p)) s1 = (data, s2)"
    by (metis surj_pair)
  let ?p1 = "?p\<lparr>mqtt_data := data\<rparr>"
  obtain p3 s3 where 3: "first_poll E ?n (?p1, s2) = (p3, s3)" by (metis surj_pair)
  have lenst: "length (set_mqtt_static_fields (mqtt_data ?p)) = mqtt_slots" using len by (rule static_fields_result)
  have "poll_wf ?p1" using w dynamic_fields_result(1) [OF lenst 2] by (simp add: poll_wf_def)
  then have "touches_all UNIV ?p1 p3"
    using first_fold_result [of "(?p1, s2)" "[0..?n - 1]" UNIV E] 3 by (auto simp: first_poll_def in_range_def)
  then have "sendInterval (mgr p3) = k" "k = sendInterval (mgr ?p)"
    using 1 by (simp_all add: touches_all_def same_table_def manager_get_send_interval_def)
  moreover have "m' = set_state SEND_DATA (m\<lparr>poll := p3, clientsCount := ?n, sendDataMin := k,
      mqtt_data_count := int SF_CLIENT_POS + ?n\<rparr>)"
    using assms(2) by (simp add: start_up_def manager_get_clients_count_def Let_def 1 2 3)
  ultimately show "ds_state (dev_status m') = SEND_DATA" "sendDataMin m' = sendInterval (mgr (poll m'))"
    "sendInterval (mgr (poll m')) = sendInterval (mgr (poll m))" "ds_manager (dev_status m') = ds_manager (dev_status m)"
    by (simp_all add: set_state_def)
qed

lemma do_init_sender:
  assumes "init_inv m" and "\<forall>n. 0 \<le> config_setting_length cfg n" and "do_init E cfg m s = (m', s')"
  shows "sender_step False (sender_of (k, m, s)) (sender_of (k', m', s'))"
proof -
  let ?a = "sender_of (k, m, s)"
  have a: "?a = \<lparr>sd_mode = Starting, interval = 0, minutes = 0, messages = pubs s\<rparr>"
    using assms(1) by (simp add: sender_of_def mode_of_def init_inv_def Let_def)
  have p: "pubs s' = pubs s" using pubs_do_init [of E cfg m s] by (simp add: assms(3))
  obtain r m1 s1 where 1: "init_sys E cfg m s = (r, m1, s1)" by (metis prod_cases3)
  show ?thesis
  proof (cases "ds_state (dev_status m1) = INIT_SYS")
    case True
    then have "sender_of (k', m', s') = ?a"
      unfolding a using assms(3) p True by (auto simp: do_init_def 1 sender_of_def mode_of_def Let_def)
    then show ?thesis by (simp add: sender_step.idle)
  next
    case False
    then have "ready m1" using init_sys_inv [OF assms(1,2) 1] by (auto simp: init_inv_def flags_ok_def all_up_def)
    obtain m2 s2 where u: "start_up E m1 s1 = (m2, s2)" by (metis surj_pair)
    have "m' = m2" using assms(3) False by (simp add: do_init_def 1 u)
    with start_up_sender [OF \<open>ready m1\<close> u] p
    have "sender_of (k', m', s') = ?a\<lparr>sd_mode := Sending, interval := sendInterval (mgr (poll m')),
        minutes := sendInterval (mgr (poll m'))\<rparr>"
      by (simp add: a sender_of_def mode_of_def module_states Let_def)
    with sender_step.begun [of ?a "sendInterval (mgr (poll m'))"] show ?thesis by (simp add: a)
  qed
qed

lemma do_send_sender:
  assumes "up m" and "ds_state (dev_status m) = SEND_DATA" and "do_send E m s = (m', s')"
  shows "sender_step False (sender_of (k, m, s)) (sender_of (k', m', s'))"
proof -
  let ?a = "sender_of (k, m, s)"
  have a: "sd_mode ?a = Sending" using assms(2) by (simp add: sender_of_def mode_of_def module_states Let_def)
  have p: "pubs s' = Suc (pubs s)" using pubs_do_send [of E m s] by (simp add: assms(3))
  have "ds_state (dev_status m') = PROCESS" using do_send_up [OF assms(1,3)] by simp
  moreover have "mgr (poll m') = mgr (poll m)" "sendDataMin m' = sendDataMin m"
    using assms(3) by (auto simp: do_send_def set_state_def Let_def split: prod.splits)
  ultimately have "sender_of (k', m', s') = ?a\<lparr>sd_mode := Processing, messages := Suc (messages ?a)\<rparr>"
    using assms(2) p by (simp add: sender_of_def mode_of_def module_states Let_def)
  with sender_step.sent [OF a] show ?thesis by simp
qed

lemma phase_sender:
  assumes "module_inv k m" and "pass_begins (k, m, s)" and "\<forall>n. 0 \<le> config_setting_length cfg n"
    and "main_step E cfg k m s = Some (k', m', s')"
  shows "sender_step (minute_phase (k, m, s)) (sender_of (k, m, s)) (sender_of (k', m', s'))" and "pass_begins (k', m', s')"
proof -
  have same: "sender_of (k1, m2, s2) = sender_of (k2, m1, s1)"
    if "up m1" "survey_rate E r l m1 s1 = Some (m2, s2)" for k1 k2 m1 s1 r l m2 s2
    using survey_sender [OF that] by (simp add: sender_of_def Let_def)
  have states: "INIT_SYS \<noteq> PROCESS" "SEND_DATA \<noteq> PROCESS" "INIT_SYS \<noteq> SEND_DATA" by (simp_all add: module_states)
  have clear: "sender_of (k1, m\<lparr>tm := t\<rparr>, s) = sender_of (k, m, s)" "sender_of (k1, m, s) = sender_of (k, m, s)" for k1 t
    by (simp_all add: sender_of_def Let_def)
  consider (init) "k = At_switch" "init_inv m" | (up) "up m" using assms(1) by (auto simp: module_inv_split)
  then have "sender_step (minute_phase (k, m, s)) (sender_of (k, m, s)) (sender_of (k', m', s')) \<and> pass_begins (k', m', s')"
  proof cases
    case init
    obtain m1 s1 where "do_init E cfg m s = (m1, s1)" by (metis surj_pair)
    with init assms(4) do_init_sender [OF init(2) assms(3) this, of k k'] show ?thesis
      by (auto simp: main_step_def at_switch_def init_inv_def minute_phase_def pass_begins_def)
  next
    case up
    then have st: "ds_state (dev_status m) \<in> {PROCESS, SEND_DATA}" by (simp add: up_def)
    show ?thesis
    proof (cases k)
      case At_switch
      obtain m1 s1 where d: "do_send E m s = (m1, s1)" by (metis surj_pair)
      have "minute_phase (k, m, s) = False" by (simp add: minute_phase_def At_switch)
      with st assms(4) same [OF up, of RR_100ms 500 s m' s' k' k] do_send_sender [OF up _ d, of k k'] clear(2) [of At_1m]
        survey_sender(1) [OF up, of E RR_100ms 500 s m' s'] states
      show ?thesis
        by (auto simp: At_switch main_step_def at_switch_def Let_def d pass_begins_def sender_step.idle
            split: if_splits option.splits)
    next
      case Clear_100ms
      with assms(2,4) clear show ?thesis
        by (auto simp: main_step_def pass_begins_def minute_phase_def sender_step.idle)
    next
      case At_1m
      show ?thesis
      proof (cases "period_1m (t_period (tm m))")
        case True
        obtain m1 s1 where c: "count_minute E m s = (m1, s1)" by (metis surj_pair)
        have up1: "up m1" using up c by (rule count_minute_up)
        have pr: "ds_state (dev_status m) = PROCESS" using assms(2) by (simp add: pass_begins_def At_1m)
        have "survey_rate E RR_1m 570 m1 s1 = Some (m', s')" "k' = Clear_1m"
          using assms(4) True by (auto simp: At_1m main_step_def c split: option.splits)
        with same [OF up1 this(1), of k' k'] count_minute_sender [OF c pr, of k k'] True show ?thesis
          by (simp add: At_1m minute_phase_def pass_begins_def)
      next
        case False
        with assms(4) clear(2) [of At_1s] show ?thesis
          by (auto simp: At_1m main_step_def pass_begins_def minute_phase_def sender_step.idle)
      qed
    next
      case At_1s
      have "minute_phase (k, m, s) = False" by (simp add: minute_phase_def At_1s)
      with assms(4) same [OF up, of RR_1s 632 s m' s' k' k] clear(2) [of At_switch] show ?thesis
        by (auto simp: At_1s main_step_def pass_begins_def sender_step.idle split: if_splits option.splits)
    qed (use assms(4) clear in \<open>auto simp: main_step_def pass_begins_def minute_phase_def sender_step.idle\<close>)
  qed
  then show "sender_step (minute_phase (k, m, s)) (sender_of (k, m, s)) (sender_of (k', m', s'))" "pass_begins (k', m', s')"
    by simp_all
qed

section \<open>The module refines the sender\<close>

lemma start_sender:
  assumes "main_start E arg junk (io0 fs) = (Some m, s)"
  shows "sender_of (At_switch, m, s) = \<lparr>sd_mode = Starting, interval = 0, minutes = 0, messages = 0\<rparr>"
proof -
  have "pubs (snd (main_start E arg junk (io0 fs))) = 0" by (rule pubs.kept_main_start) (simp add: pubs_def io0_def)
  moreover have "ds_state (dev_status m) = INIT_SYS"
    using assms by (auto simp: main_start_def module_start_def Let_def split: prod.splits if_splits)
  ultimately show ?thesis by (simp add: assms sender_of_def mode_of_def)
qed

lemma tick_sender: "sender_of (k, m\<lparr>tm := t\<rparr>, s) = sender_of (k, m, s)" "pass_begins (k, m\<lparr>tm := t\<rparr>, s) = pass_begins (k, m, s)"
  by (simp_all add: sender_of_def pass_begins_def Let_def)

lemma reachable_pass: "reachable E cfg c \<Longrightarrow> \<forall>n. 0 \<le> config_setting_length cfg n \<Longrightarrow> pass_begins c"
proof (induction rule: reachable.induct)
  case (start arg junk fs m s)
  show ?case by (simp add: pass_begins_def)
next
  case (step c c')
  obtain k m s where c: "c = (k, m, s)" by (cases c)
  obtain k' m' s' where c': "c' = (k', m', s')" by (cases c')
  have inv: "module_inv k m" using reachable_inv [OF step.hyps(1) step.prems] by (simp add: c)
  have "pass_begins (k, m, s)" using step.IH [OF step.prems] by (simp add: c)
  note p = phase_sender(2) [OF inv this step.prems]
  from step.hyps(2) show ?case unfolding c c'
  proof (rule module_stepE)
    assume "(k', m', s') = (k, m\<lparr>tm := timer_handler_100ms (tm m)\<rparr>, s)"
    with \<open>pass_begins (k, m, s)\<close> show "pass_begins (k', m', s')" by (simp add: tick_sender)
  qed (rule p)
qed

text \<open>
  C8. The module is a sender: every phase from a reachable state is a step of the abstract sender, the
  phase that counts a minute being the passing of a minute, and the timer signal changes nothing the
  sender knows.  So the module sends once when it is up and then once at the end of each countdown,
  whatever else happens between.
\<close>

theorem module_refines_sender:
  assumes "reachable E cfg (k, m, s)" and "\<forall>n. 0 \<le> config_setting_length cfg n"
  shows "(\<forall>c. main_step E cfg k m s = Some c \<longrightarrow>
       sender_step (minute_phase (k, m, s)) (sender_of (k, m, s)) (sender_of c))
     \<and> sender_of (k, m\<lparr>tm := timer_handler_100ms (tm m)\<rparr>, s) = sender_of (k, m, s)"
proof -
  have "module_inv k m" using reachable_inv [OF assms] by simp
  moreover have "pass_begins (k, m, s)" using assms by (rule reachable_pass)
  ultimately have "sender_step (minute_phase (k, m, s)) (sender_of (k, m, s)) (sender_of c)"
    if "main_step E cfg k m s = Some c" for c
    using phase_sender(1) [of k m s cfg E] assms(2) that by (cases c) auto
  then show ?thesis by (simp add: tick_sender)
qed

theorem module_refines_sender_witness:
  "\<exists>m s c. reachable quiet_env full_cfg (At_switch, m, s) \<and> ds_state (dev_status m) = SEND_DATA
     \<and> main_step quiet_env full_cfg At_switch m s = Some c \<and> sender_step False (sender_of (At_switch, m, s)) (sender_of c)"
proof -
  obtain m s where r: "reachable quiet_env full_cfg (At_switch, m, s)" "ds_state (dev_status m) = SEND_DATA"
    using sending_reachable by blast
  obtain c where "main_step quiet_env full_cfg At_switch m s = Some c" using reachable_moves [OF r(1) full_cfg_length] by blast
  moreover have "\<not> minute_phase (At_switch, m, s)" by (simp add: minute_phase_def)
  ultimately have "sender_step False (sender_of (At_switch, m, s)) (sender_of c)"
    using module_refines_sender [OF r(1) full_cfg_length] by auto
  with r \<open>main_step quiet_env full_cfg At_switch m s = Some c\<close> show ?thesis by blast
qed

section \<open>The configured interval\<close>

definition configured_interval :: "config_t \<Rightarrow> int option" where
  "configured_interval cfg = (case config_lookup cfg ''common'' of None \<Rightarrow> None | Some n \<Rightarrow>
     (case config_setting_get_elem cfg n 0 of None \<Rightarrow> None | Some el \<Rightarrow>
        config_setting_lookup_int cfg el ''send_interval_min''))"

text \<open>Once the manager is up, its send interval is the one of the configuration.\<close>

definition interval_ok :: "config_t \<Rightarrow> module_t \<Rightarrow> bool" where
  "interval_ok cfg m \<longleftrightarrow> (ds_manager (dev_status m) \<longrightarrow>
     configured_interval cfg = Some (sendInterval (mgr (poll m))))"

lemma interval_ok_cong:
  "interval_ok cfg m \<Longrightarrow> ds_manager (dev_status m') = ds_manager (dev_status m) \<Longrightarrow>
     sendInterval (mgr (poll m')) = sendInterval (mgr (poll m)) \<Longrightarrow> interval_ok cfg m'"
  by (simp add: interval_ok_def)

lemma init_clients_interval:
  "init_clients E cfg cc oc n i m s = (ok, m', s') \<Longrightarrow> sendInterval m' = sendInterval m"
  by (induction n arbitrary: i m s) (auto simp: Let_def split: prod.splits if_splits)

lemma init_config_interval:
  assumes "manager_init_config E cfg m s = (True, m', s')"
  shows "configured_interval cfg = Some (sendInterval m')"
proof -
  obtain ok m1 s1 where 1: "read_common E cfg m s = (ok, m1, s1)" by (metis prod_cases3)
  have ok: ok using assms by (auto simp: manager_init_config_def 1 split: if_splits)
  then have c: "configured_interval cfg = Some (sendInterval m1)"
    using 1 by (auto simp: read_common_def need_int_def lookup_int_def configured_interval_def Let_def
        split: option.splits prod.splits)
  obtain oc s2 where "read_clients E cfg oc m1 s2 = (True, m', s')"
    using assms ok by (auto simp: manager_init_config_def 1 Let_def split: prod.splits if_splits)
  then have "sendInterval m' = sendInterval m1"
    by (auto simp: read_clients_def Let_def dest: init_clients_interval split: option.splits if_splits)
  with c show ?thesis by simp
qed

lemma init_manager_interval:
  assumes "init_inv m" and "\<not> ds_manager (dev_status m)" and "\<forall>n. 0 \<le> config_setting_length cfg n"
    and "init_manager E cfg m s = (r, m', s')"
  shows "interval_ok cfg m'"
proof -
  obtain ok mg s1 where c: "manager_init_config E cfg (mgr (poll m)) s = (ok, mg, s1)" by (metis prod_cases3)
  show ?thesis
  proof (cases ok)
    case False
    with assms(2,4) c show ?thesis by (auto simp: init_manager_def interval_ok_def)
  next
    case True
    then have c': "manager_init_config E cfg (mgr (poll m)) s = (True, mg, s1)" using c by simp
    have "length (clientSettings (mgr (poll m))) = MAX_CLIENT_NUM + 1" using assms(1) by (simp add: init_inv_def sizes_def)
    then have "table_wf mg" using assms(3) c' by (rule init_config_table)
    then have "sized mg" "0 \<le> clientsCnt mg" by (simp_all add: table_wf_def)
    note same = init_connections_result [OF this, where E = E and s = s1]
    obtain ok' mg' s2 where n: "manager_init_connections E mg s1 = (ok', mg', s2)" by (metis prod_cases3)
    have "sendInterval mg' = sendInterval mg" using same by (simp add: n same_table_def)
    moreover have "mgr (poll m') = mg'"
      using assms(4) True unfolding init_manager_def Let_def c n prod.case by (auto split: prod.splits if_splits)
    ultimately show ?thesis using init_config_interval [OF c'] by (simp add: interval_ok_def)
  qed
qed

lemma init_sys_interval:
  assumes "init_inv m" and "\<forall>n. 0 \<le> config_setting_length cfg n" and "interval_ok cfg m"
    and "init_sys E cfg m s = (r, m', s')"
  shows "interval_ok cfg m'"
proof -
  obtain r0 t s0 where t: "timer_stop E (tm m) s = (r0, t, s0)" by (metis prod_cases3)
  let ?m0 = "m\<lparr>tm := t, dev_status := (dev_status m)\<lparr>ds_timer := False\<rparr>\<rparr>"
  obtain m1 s1 where 1: "init_mqtt E cfg ?m0 s0 = (m1, s1)" by (metis surj_pair)
  let ?x = "if ds_manager (dev_status m1) then (0, m1, s1) else init_manager E cfg m1 s1"
  obtain r2 m2 s2 where 2: "?x = (r2, m2, s2)" by (metis prod_cases3)
  have w: "timer_wf t" using timer_wf_update(1) [of E "tm m" s] assms(1) by (simp add: t init_inv_def)
  have "init_inv ?m0" using assms(1) w by (simp add: init_inv_def flags_ok_def)
  then have i1: "init_inv m1" using 1 by (rule init_mqtt_inv)
  have "interval_ok cfg m1"
    using 1 assms(3) by (auto simp: init_mqtt_def interval_ok_def Let_def split: prod.splits if_splits)
  then have k2: "interval_ok cfg m2"
    using 2 init_manager_interval [OF i1 _ assms(2), of E s1 r2 m2 s2] by (auto split: if_splits)
  obtain m3 s3 where 3: "init_timer E m2 s2 = (m3, s3)" by (metis surj_pair)
  obtain m4 s4 where 4: "init_finish E m3 s3 = (m4, s4)" by (metis surj_pair)
  have "interval_ok cfg m3"
    using 3 k2 by (auto simp: init_timer_def interval_ok_def Let_def split: prod.splits if_splits)
  then have "interval_ok cfg m4"
    using 4 by (auto simp: init_finish_def interval_ok_def split: if_splits)
  moreover have "init_sys E cfg m s = (if r2 \<noteq> 0 then (r2, m2, s2) else (0, m4, s4))"
    by (simp only: init_sys_def Let_def t prod.case 1 2 3 4)
  ultimately show ?thesis using assms(4) k2 by (auto split: if_splits)
qed

lemma phase_interval:
  assumes "module_inv k m" and "\<forall>n. 0 \<le> config_setting_length cfg n" and "interval_ok cfg m"
    and "main_step E cfg k m s = Some (k', m', s')"
  shows "interval_ok cfg m'"
proof -
  have survey: "interval_ok cfg m2" if "up m1" "interval_ok cfg m1" "survey_rate E r l m1 s1 = Some (m2, s2)" for m1 s1 r l m2 s2
    using interval_ok_cong [OF that(2)] survey_sender [OF that(1,3)] by simp
  consider (init) "k = At_switch" "init_inv m" | (up) "up m" using assms(1) by (auto simp: module_inv_split)
  then show ?thesis
  proof cases
    case init
    obtain r m1 s1 where 1: "init_sys E cfg m s = (r, m1, s1)" by (metis prod_cases3)
    have k1: "interval_ok cfg m1" using init(2) assms(2,3) 1 by (rule init_sys_interval)
    obtain m2 s2 where u: "start_up E m1 s1 = (m2, s2)" by (metis surj_pair)
    have "m' = (if ds_state (dev_status m1) \<noteq> INIT_SYS then m2 else m1)"
      using assms(4) init by (auto simp: main_step_def at_switch_def init_inv_def do_init_def 1 u split: if_splits)
    moreover have "interval_ok cfg m2" if "ds_state (dev_status m1) \<noteq> INIT_SYS"
    proof -
      have "ready m1" using init_sys_inv [OF init(2) assms(2) 1] that by (auto simp: init_inv_def flags_ok_def all_up_def)
      then show ?thesis using interval_ok_cong [OF k1] start_up_sender(3,4) [OF _ u] by simp
    qed
    ultimately show ?thesis using k1 by auto
  next
    case up
    obtain m1 s1 where d: "do_send E m s = (m1, s1)" by (metis surj_pair)
    obtain m2 s2 where c: "count_minute E m s = (m2, s2)" by (metis surj_pair)
    have "mgr (poll m1) = mgr (poll m)" "ds_manager (dev_status m1) = ds_manager (dev_status m)"
      using d by (auto simp: do_send_def set_state_def Let_def split: prod.splits)
    then have k1: "interval_ok cfg m1" using interval_ok_cong [OF assms(3)] by simp
    have "mgr (poll m2) = mgr (poll m)" "ds_manager (dev_status m2) = ds_manager (dev_status m)"
      using c by (auto simp: count_minute_def set_state_def Let_def split: prod.splits if_splits)
    then have k2: "interval_ok cfg m2" using interval_ok_cong [OF assms(3)] by simp
    have tm: "interval_ok cfg (m\<lparr>tm := t\<rparr>)" for t using assms(3) by (simp add: interval_ok_def)
    have "ds_state (dev_status m) \<noteq> INIT_SYS" using up by (auto simp: up_def module_states)
    with assms(3,4) survey [OF up assms(3)] k1 survey [OF count_minute_up [OF up c] k2] tm show ?thesis
      by (auto simp: main_step_def at_switch_def Let_def d c split: pc.splits if_splits option.splits)
  qed
qed

lemma reachable_interval:
  "reachable E cfg c \<Longrightarrow> \<forall>n. 0 \<le> config_setting_length cfg n \<Longrightarrow> interval_ok cfg (fst (snd c))"
proof (induction rule: reachable.induct)
  case (start arg junk fs m s)
  then show ?case
    by (auto simp: interval_ok_def main_start_def module_start_def Let_def split: prod.splits if_splits)
next
  case (step c c')
  obtain k m s where c: "c = (k, m, s)" by (cases c)
  obtain k' m' s' where c': "c' = (k', m', s')" by (cases c')
  have inv: "module_inv k m" using reachable_inv [OF step.hyps(1) step.prems] by (simp add: c)
  have ok: "interval_ok cfg m" using step.IH [OF step.prems] by (simp add: c)
  from step.hyps(2) show ?case unfolding c c' fst_conv snd_conv
  proof (rule module_stepE)
    assume "main_step E cfg k m s = Some (k', m', s')"
    with inv step.prems ok show "interval_ok cfg m'" by (rule phase_interval)
  next
    assume "(k', m', s') = (k, m\<lparr>tm := timer_handler_100ms (tm m)\<rparr>, s)"
    with ok show "interval_ok cfg m'" by (simp add: interval_ok_def)
  qed
qed

section \<open>How many messages\<close>

text \<open>Runs of the module with the number of minutes they have counted.\<close>

inductive timed_run :: "env \<Rightarrow> config_t \<Rightarrow> nat \<Rightarrow> config \<Rightarrow> bool" for E cfg where
  start: "main_start E arg junk (io0 fs) = (Some m, s) \<Longrightarrow> timed_run E cfg 0 (At_switch, m, s)"
| phase: "timed_run E cfg e (k, m, s) \<Longrightarrow> main_step E cfg k m s = Some c \<Longrightarrow>
    timed_run E cfg (if minute_phase (k, m, s) then Suc e else e) c"
| tick: "timed_run E cfg e (k, m, s) \<Longrightarrow> itimer_armed (tm m) \<Longrightarrow> handler_installed (tm m) \<Longrightarrow>
    timed_run E cfg e (k, m\<lparr>tm := timer_handler_100ms (tm m)\<rparr>, s)"

lemma timed_run_reachable: "timed_run E cfg e c \<Longrightarrow> reachable E cfg c"
  by (induction rule: timed_run.induct)
    (blast intro: reachable.start reachable.step module_step.phase module_step.tick)+

lemma reachable_timed: "reachable E cfg c \<Longrightarrow> \<exists>e. timed_run E cfg e c"
proof (induction rule: reachable.induct)
  case (step c c')
  obtain k m s where c: "c = (k, m, s)" by (cases c)
  from step.hyps(2) step.IH show ?case unfolding c
    by (auto elim!: module_stepE intro: timed_run.phase timed_run.tick)
qed (blast intro: timed_run.start)

text \<open>The arithmetic of the sender.\<close>

definition sender_inv :: "nat \<Rightarrow> sender \<Rightarrow> bool" where
  "sender_inv e a \<longleftrightarrow> (case sd_mode a of
      Starting \<Rightarrow> e = 0 \<and> messages a = 0
    | Sending \<Rightarrow> 0 < interval a \<longrightarrow> minutes a = interval a \<and> int e = interval a * int (messages a)
    | Processing \<Rightarrow> 0 < interval a \<longrightarrow> 1 \<le> minutes a \<and> minutes a \<le> interval a
        \<and> int e + minutes a = interval a * int (messages a))"

lemma sender_inv_step: "sender_step b a a' \<Longrightarrow> sender_inv e a \<Longrightarrow> sender_inv (if b then Suc e else e) a'"
  by (induction rule: sender_step.induct) (auto simp: sender_inv_def algebra_simps split: mode.splits)

lemma timed_run_inv:
  assumes "timed_run E cfg e c" and "\<forall>n. 0 \<le> config_setting_length cfg n"
  shows "sender_inv e (sender_of c)"
  using assms(1)
proof (induction rule: timed_run.induct)
  case (start arg junk fs m s)
  then show ?case by (simp add: start_sender sender_inv_def)
next
  case (phase e k m s c)
  have r: "reachable E cfg (k, m, s)" using phase.hyps(1) by (rule timed_run_reachable)
  have "module_inv k m" using reachable_inv [OF r assms(2)] by simp
  from phase_sender(1) [OF this reachable_pass [OF r assms(2)] assms(2), of E] phase.hyps(2)
  have "sender_step (minute_phase (k, m, s)) (sender_of (k, m, s)) (sender_of c)" by (cases c) auto
  then show ?case using phase.IH by (rule sender_inv_step)
next
  case (tick e k m s)
  then show ?case by (simp add: tick_sender)
qed

text \<open>
  C2. The number of messages: with a configured send interval of \<open>n\<close> minutes, a module that is
  processing and has counted \<open>e\<close> minutes has published exactly \<open>e div n + 1\<close> messages, the first one at
  its start, whatever the clients, the broker and the libraries did; the countdown shows the minutes
  left to the next message.
\<close>

theorem messages_per_interval:
  assumes "timed_run E cfg e (k, m, s)" and "\<forall>j. 0 \<le> config_setting_length cfg j"
    and "ds_state (dev_status m) = PROCESS" and "configured_interval cfg = Some n" and "0 < n"
  shows "pubs s = nat (int e div n) + 1 \<and> sendDataMin m = n - int e mod n"
proof -
  let ?q = "int (pubs s)"
  have r: "reachable E cfg (k, m, s)" using assms(1) by (rule timed_run_reachable)
  have "module_inv k m" using reachable_inv [OF r assms(2)] by simp
  then have "ds_manager (dev_status m)" using assms(3) by (auto simp: module_inv_def all_up_def module_states)
  then have n: "sendInterval (mgr (poll m)) = n"
    using reachable_interval [OF r assms(2)] assms(4) by (simp add: interval_ok_def)
  have i: "1 \<le> sendDataMin m" "sendDataMin m \<le> n" "int e + sendDataMin m = n * ?q"
    using timed_run_inv [OF assms(1,2)] assms(3,5) n
    by (simp_all add: sender_inv_def sender_of_def mode_of_def module_states Let_def)
  have e: "int e = n * (?q - 1) + (n - sendDataMin m)" using i(3) by (simp add: algebra_simps)
  have r: "0 \<le> n - sendDataMin m" "n - sendDataMin m < n" using i(1,2) by simp_all
  have nz: "n \<noteq> 0" using assms(5) by simp
  have d: "int e div n = ?q - 1" "int e mod n = n - sendDataMin m"
    unfolding e
    by (simp_all only: div_mult_self4 [OF nz] mod_mult_self4 div_pos_pos_trivial [OF r] mod_pos_pos_trivial [OF r] add_0_right)
  have "0 \<le> int e div n" using assms(5) by (simp add: pos_imp_zdiv_nonneg_iff)
  with d show ?thesis by simp
qed

theorem messages_per_interval_witness:
  "\<exists>e m s. timed_run quiet_env full_cfg e (At_switch, m, s) \<and> ds_state (dev_status m) = PROCESS
     \<and> pubs s = e + 1 \<and> sendDataMin m = 1"
proof -
  obtain m s where r: "reachable quiet_env full_cfg (At_switch, m, s)" "ds_state (dev_status m) = PROCESS"
    using processing_reachable by blast
  then obtain e where t: "timed_run quiet_env full_cfg e (At_switch, m, s)" using reachable_timed by blast
  have "configured_interval full_cfg = Some 1"
    by (simp add: configured_interval_def full_cfg_def sample_cfg_def sample_int_def)
  from messages_per_interval [OF t full_cfg_length r(2) this] have "pubs s = e + 1 \<and> sendDataMin m = 1" by simp
  with t r(2) show ?thesis by blast
qed

end
